(* ===== verification/DV_Prelude.thy ===== *)
theory DV_Prelude
  imports Main "HOL-Library.Word" "HOL-Library.Multiset"
begin

text \<open>
  Shared material of the development: C integer arithmetic (division and remainder that
  truncate towards zero, the conversion to a 32-bit int), the byte memory with its
  little-endian 32-bit cells, lists updated by index, and the interface of a first-in
  first-out channel that the queues of the program provide and their users rely on.
\<close>

named_theorems c_arith \<open>C division and remainder on operands of known sign\<close>
named_theorems mem_simps \<open>reads after writes of the byte memory\<close>

type_synonym byte = "8 word"
type_synonym u32 = "32 word"

section \<open>C integers\<close>

definition c_div :: "int \<Rightarrow> int \<Rightarrow> int" where
  "c_div a b = sgn a * sgn b * (\<bar>a\<bar> div \<bar>b\<bar>)"

definition c_rem :: "int \<Rightarrow> int \<Rightarrow> int" where
  "c_rem a b = a - c_div a b * b"

definition to_i32 :: "int \<Rightarrow> int" where
  "to_i32 x = (x + 2 ^ 31) mod 2 ^ 32 - 2 ^ 31"

definition size_t :: "int \<Rightarrow> int" where
  "size_t x = x mod 2 ^ 64"

lemma c_div_nonneg [c_arith]: "0 \<le> a \<Longrightarrow> 0 < b \<Longrightarrow> c_div a b = a div b"
  by (cases "a = 0") (auto simp: c_div_def)

lemma c_rem_nonneg [c_arith]: "0 \<le> a \<Longrightarrow> 0 < b \<Longrightarrow> c_rem a b = a mod b"
  by (simp add: c_rem_def c_div_nonneg minus_div_mult_eq_mod)

lemma to_i32_id [c_arith]: "- (2 ^ 31) \<le> x \<Longrightarrow> x < 2 ^ 31 \<Longrightarrow> to_i32 x = x"
  by (simp add: to_i32_def)

lemma to_i32_range: "- (2 ^ 31) \<le> to_i32 x" "to_i32 x < 2 ^ 31"
proof -
  have "0 \<le> (x + 2 ^ 31) mod 2 ^ 32" "(x + 2 ^ 31) mod 2 ^ 32 < 2 ^ 32"
    by simp_all
  then show "- (2 ^ 31) \<le> to_i32 x" "to_i32 x < 2 ^ 31"
    by (simp_all add: to_i32_def)
qed

lemma size_t_id [c_arith]: "0 \<le> x \<Longrightarrow> x < 2 ^ 64 \<Longrightarrow> size_t x = x"
  by (simp add: size_t_def)

lemma sint_of_small: "0 \<le> x \<Longrightarrow> x < 2 ^ 31 \<Longrightarrow> sint (word_of_int x :: u32) = x"
  by (simp add: signed_of_int signed_take_bit_int_eq_self)

section \<open>Cyclic positions\<close>

text \<open>Distances between positions of a ring of \<open>N\<close> slots.\<close>

lemma cyc_le: "0 < n \<Longrightarrow> 0 \<le> i mod (n + 1)" "0 < n \<Longrightarrow> i mod (n + 1) \<le> n" for i n :: int
  using pos_mod_bound [of "n + 1" i] by simp_all

lemma cyc_pos:
  fixes p s N :: int
  assumes "p \<noteq> s" "0 \<le> p" "p < N" "0 \<le> s" "s < N"
  shows "0 < (s - p) mod N"
proof -
  have "(s - p) mod N \<noteq> 0"
  proof
    assume "(s - p) mod N = 0"
    then have "s mod N = p mod N" by (simp add: mod_eq_dvd_iff mod_eq_0_iff_dvd)
    with assms show False by simp
  qed
  with assms show ?thesis by (simp add: order_less_le)
qed

lemma cyc_sub:
  fixes a n N :: int
  assumes "0 \<le> n" "n \<le> a mod N" "0 < N"
  shows "(a - n) mod N = a mod N - n"
proof -
  have "(a - n) mod N = (a mod N - n) mod N" by (simp add: mod_simps)
  also have "\<dots> = a mod N - n"
    using assms pos_mod_bound [of N a] by (intro mod_pos_pos_trivial) linarith+
  finally show ?thesis .
qed

lemma cyc_add:
  fixes a n N :: int
  assumes "0 \<le> n" "a mod N + n < N" "0 < N"
  shows "(a + n) mod N = a mod N + n"
proof -
  have "(a + n) mod N = (a mod N + n) mod N" by (simp add: mod_simps)
  also have "\<dots> = a mod N + n"
    using assms by (intro mod_pos_pos_trivial) auto
  finally show ?thesis .
qed

lemma cyc_dist_move:
  fixes p s n N :: int
  assumes "0 \<le> n" "n \<le> (s - p) mod N" "0 < N"
  shows "(s - (p + n) mod N) mod N = (s - p) mod N - n"
  using cyc_sub [OF assms] by (simp add: mod_simps algebra_simps)

lemma cyc_dist_step:
  fixes p s N :: int
  assumes "p \<noteq> s" "0 \<le> p" "p < N" "0 \<le> s" "s < N"
  shows "(s - (p + 1) mod N) mod N < (s - p) mod N"
  using cyc_pos [OF assms] cyc_dist_move [of 1 s p N] assms by simp

lemma cyc_shift:
  fixes i p n k N :: int
  assumes "0 \<le> n" "k \<le> N" "0 < N" "(i - (p + n) mod N) mod N < k - n"
  shows "(i - p) mod N < k"
proof -
  let ?a = "i - (p + n) mod N"
  have "(i - p) mod N = (?a + n) mod N"
    by (simp add: mod_simps algebra_simps)
  also have "\<dots> = ?a mod N + n"
    using assms by (intro cyc_add) auto
  finally show ?thesis using assms by simp
qed

lemma div_in_span:
  fixes x p n S :: int
  assumes "0 < S" "p * S \<le> x" "x < (p + n) * S"
  shows "p \<le> x div S" "x div S < p + n" "x div S * S \<le> x" "x < (x div S + 1) * S"
proof -
  have e: "x div S * S + x mod S = x" "0 \<le> x mod S" "x mod S < S" using assms by simp_all
  moreover have "(x div S + 1) * S = x div S * S + S" by (simp add: algebra_simps)
  ultimately show a: "x div S * S \<le> x" "x < (x div S + 1) * S" by linarith+
  from a assms have "p * S < (x div S + 1) * S" "x div S * S < (p + n) * S" by linarith+
  with assms show "p \<le> x div S" "x div S < p + n" by simp_all
qed

section \<open>Byte memory\<close>

text \<open>An area of memory is a function from byte offsets to bytes.\<close>

type_synonym mem = "int \<Rightarrow> byte"

definition write_bytes :: "mem \<Rightarrow> int \<Rightarrow> byte list \<Rightarrow> mem" where
  "write_bytes m a bs = (\<lambda>x. if a \<le> x \<and> x < a + int (length bs) then bs ! nat (x - a) else m x)"

definition read_bytes :: "mem \<Rightarrow> int \<Rightarrow> nat \<Rightarrow> byte list" where
  "read_bytes m a n = map (\<lambda>i. m (a + int i)) [0..<n]"

definition bytes32 :: "u32 \<Rightarrow> byte list" where
  "bytes32 w = [word_of_int (uint w), word_of_int (uint w div 256),
                word_of_int (uint w div 256 div 256), word_of_int (uint w div 256 div 256 div 256)]"

definition get32 :: "mem \<Rightarrow> int \<Rightarrow> u32" where
  "get32 m a = word_of_int (uint (m a) + 256 * (uint (m (a + 1))
             + 256 * (uint (m (a + 2)) + 256 * uint (m (a + 3)))))"

definition put32 :: "mem \<Rightarrow> int \<Rightarrow> u32 \<Rightarrow> mem" where
  "put32 m a w = write_bytes m a (bytes32 w)"

lemma length_bytes32 [simp]: "length (bytes32 w) = 4"
  by (simp add: bytes32_def)

lemma length_read_bytes [simp]: "length (read_bytes m a n) = n"
  by (simp add: read_bytes_def)

lemma write_bytes_out [mem_simps]:
  "x < a \<or> a + int (length bs) \<le> x \<Longrightarrow> write_bytes m a bs x = m x"
  by (auto simp: write_bytes_def)

lemma put32_out [mem_simps]: "x < a \<or> a + 4 \<le> x \<Longrightarrow> put32 m a w x = m x"
  by (auto simp: put32_def write_bytes_def)

lemma read_bytes_write_same [mem_simps]:
  "n = length bs \<Longrightarrow> read_bytes (write_bytes m a bs) a n = bs"
  by (auto simp: read_bytes_def write_bytes_def intro!: nth_equalityI)

lemma read_bytes_cong:
  assumes "\<And>x. a \<le> x \<Longrightarrow> x < a + int n \<Longrightarrow> m x = m' x"
  shows "read_bytes m a n = read_bytes m' a n"
  using assms by (auto simp: read_bytes_def)

lemma get32_cong:
  assumes "\<And>x. a \<le> x \<Longrightarrow> x < a + 4 \<Longrightarrow> m x = m' x"
  shows "get32 m a = get32 m' a"
  using assms by (simp add: get32_def)

lemma uint_byte: "uint (word_of_int x :: byte) = x mod 256"
  by (simp add: uint_word_of_int)

lemma put32_cells:
  "put32 m a w a = word_of_int (uint w)"
  "put32 m a w (a + 1) = word_of_int (uint w div 256)"
  "put32 m a w (a + 2) = word_of_int (uint w div 256 div 256)"
  "put32 m a w (a + 3) = word_of_int (uint w div 256 div 256 div 256)"
  by (simp_all add: put32_def write_bytes_def bytes32_def)

lemma base256_digits:
  fixes x :: int
  assumes "0 \<le> x" "x < 4294967296"
  shows "x mod 256 + 256 * (x div 256 mod 256 + 256 * (x div 256 div 256 mod 256
           + 256 * (x div 256 div 256 div 256 mod 256))) = x"
proof -
  have t: "x div 256 div 256 div 256 mod 256 = x div 256 div 256 div 256"
    using assms by (simp add: zdiv_zmult2_eq [symmetric])
  show ?thesis by (simp add: t)
qed

lemma get32_put32_same [mem_simps]: "get32 (put32 m a w) a = w"
proof -
  have "get32 (put32 m a w) a = word_of_int (uint w)"
    using base256_digits [of "uint w"] uint_bounded [of w]
    by (simp only: get32_def put32_cells uint_byte) simp
  then show ?thesis by simp
qed

lemma get32_put32_other [mem_simps]:
  "b + 4 \<le> a \<or> a + 4 \<le> b \<Longrightarrow> get32 (put32 m a w) b = get32 m b"
  by (rule get32_cong) (auto simp: put32_out)

lemma get32_write_other [mem_simps]:
  "b + 4 \<le> a \<or> a + int (length bs) \<le> b \<Longrightarrow> get32 (write_bytes m a bs) b = get32 m b"
  by (rule get32_cong) (auto simp: write_bytes_out)

lemma read_bytes_put32_other [mem_simps]:
  "b + int n \<le> a \<or> a + 4 \<le> b \<Longrightarrow> read_bytes (put32 m a w) b n = read_bytes m b n"
  by (rule read_bytes_cong) (auto simp: put32_out)

section \<open>First-in first-out channels\<close>

text \<open>
  The interface that the users of a queue rely on: putting either fails and changes nothing
  the consumer sees, or appends; getting takes the oldest item, and fails only on an empty
  channel.
\<close>

datatype 'a chan_op = ChanPut 'a | ChanGet

locale fifo_channel =
  fixes put :: "'s \<Rightarrow> 'a \<Rightarrow> bool \<times> 's"
    and get :: "'s \<Rightarrow> 'a option \<times> 's"
    and items :: "'s \<Rightarrow> 'a list"
    and inv :: "'s \<Rightarrow> bool"
  assumes put_inv: "inv s \<Longrightarrow> put s x = (ok, s') \<Longrightarrow> inv s'"
    and put_items: "inv s \<Longrightarrow> put s x = (ok, s') \<Longrightarrow> items s' = items s @ (if ok then [x] else [])"
    and get_inv: "inv s \<Longrightarrow> get s = (r, s') \<Longrightarrow> inv s'"
    and get_some: "inv s \<Longrightarrow> get s = (Some x, s') \<Longrightarrow> items s = x # items s'"
    and get_none: "inv s \<Longrightarrow> get s = (None, s') \<Longrightarrow> items s = [] \<and> items s' = []"
begin

text \<open>A history: the state, the items accepted and the items delivered.\<close>

fun run_chan :: "'s \<Rightarrow> 'a chan_op list \<Rightarrow> 'a list \<Rightarrow> 'a list \<Rightarrow> 's \<times> 'a list \<times> 'a list" where
  "run_chan s [] acc out = (s, acc, out)"
| "run_chan s (ChanPut x # ops) acc out =
     (let (ok, s') = put s x in run_chan s' ops (acc @ (if ok then [x] else [])) out)"
| "run_chan s (ChanGet # ops) acc out =
     (let (r, s') = get s in run_chan s' ops acc (out @ (case r of None \<Rightarrow> [] | Some x \<Rightarrow> [x])))"

fun drain :: "nat \<Rightarrow> 's \<Rightarrow> 'a list \<times> 's" where
  "drain 0 s = ([], s)"
| "drain (Suc n) s =
     (case get s of (None, s') \<Rightarrow> ([], s')
      | (Some x, s') \<Rightarrow> (let (xs, s'') = drain n s' in (x # xs, s'')))"

lemma get_step: "inv s \<Longrightarrow> get s = (r, s') \<Longrightarrow> items s = (case r of None \<Rightarrow> [] | Some x \<Rightarrow> [x]) @ items s'"
  by (cases r) (auto dest: get_some get_none)

lemma run_chan_inv: "inv s \<Longrightarrow> inv (fst (run_chan s ops acc out))"
  by (induction s ops acc out rule: run_chan.induct)
     (auto split: prod.splits dest: put_inv get_inv)

lemma run_chan_fifo:
  "inv s \<Longrightarrow> run_chan s ops acc out = (s', acc', out') \<Longrightarrow> out @ items s = acc \<Longrightarrow>
     out' @ items s' = acc'"
proof (induction s ops acc out rule: run_chan.induct)
  case (2 s x ops acc out)
  obtain ok t where p: "put s x = (ok, t)" by (cases "put s x")
  from p 2 have "items t = items s @ (if ok then [x] else [])" "inv t"
    by (auto dest: put_items put_inv)
  with 2 p show ?case by (auto simp: Let_def)
next
  case (3 s ops acc out)
  obtain r t where p: "get s = (r, t)" by (cases "get s")
  from p 3 have "items s = (case r of None \<Rightarrow> [] | Some x \<Rightarrow> [x]) @ items t" "inv t"
    by (auto dest: get_step get_inv)
  with 3 p show ?case by (auto simp: Let_def)
qed simp

lemma drain_all: "inv s \<Longrightarrow> length (items s) \<le> n \<Longrightarrow>
    fst (drain n s) = items s \<and> items (snd (drain n s)) = [] \<and> inv (snd (drain n s))"
proof (induction n arbitrary: s)
  case (Suc n)
  obtain r t where p: "get s = (r, t)" by (cases "get s")
  show ?case
  proof (cases r)
    case None
    with p Suc.prems get_none [of s t] get_inv [of s None t] show ?thesis by simp
  next
    case (Some x)
    with p Suc.prems have "items s = x # items t" "inv t" by (auto dest: get_some get_inv)
    with Suc.prems Suc.IH [of t] Some p show ?thesis by (auto simp: split_beta)
  qed
qed simp

end

end
