(* ===== verification/Shm_Ring.thy ===== *)
theory Shm_Ring
  imports DV_Prelude
begin

text \<open>
  The shared-memory ring of \<^verbatim>\<open>3rd/shmqueue/shm_queue.c\<close>: the header
  \<^verbatim>\<open>struct sq_head_t\<close> with its node area as byte memory, the position
  macros, and the paths of \<^verbatim>\<open>sq_put\<close> and \<^verbatim>\<open>sq_get\<close> that
  touch the ring. Whatever other processes do to the header between the reads of an
  attempt and its compare-and-swap is a list of interference functions, one per attempt;
  the empty list is undisturbed execution. \<^verbatim>\<open>ring_decode\<close> is the abstraction:
  the list of items stored between two positions.
\<close>

section \<open>State\<close>

record shm =
  ele_size :: int
  ele_count :: int
  head_pos :: int
  tail_pos :: int
  sig_node_num :: int
  sig_process_num :: int
  pidnum :: int
  pidset :: "int list"
  sigmask :: "byte list"
  siglock :: "int list"
  signr :: "int list"
  nodes :: mem

definition TOKEN_NO_DATA :: u32 where "TOKEN_NO_DATA = 0"
definition TOKEN_SKIPPED :: u32 where "TOKEN_SKIPPED = 0xdb030000"
definition TOKEN_HAS_DATA :: u32 where "TOKEN_HAS_DATA = 0x0000db03"

definition SQ_MAX_READER_PROC_NUM :: int where "SQ_MAX_READER_PROC_NUM = 64"
definition SQ_MAX_CONFLICT_TIME_MS :: int where "SQ_MAX_CONFLICT_TIME_MS = 50"
definition MAX_SQ_DATA_LENGTH :: int where "MAX_SQ_DATA_LENGTH = 32 * 1024 * 1024"
definition RESERVE_BLOCK_COUNT :: int where "RESERVE_BLOCK_COUNT = 10"

text \<open>\<^verbatim>\<open>sizeof(struct sq_node_head_t)\<close>, packed: two 32-bit words and two 32-bit times.\<close>

definition SQ_NODE_HEAD_SIZE :: int where "SQ_NODE_HEAD_SIZE = 16"

section \<open>Position macros\<close>

definition SQ_ADD_HEAD :: "shm \<Rightarrow> int \<Rightarrow> int" where
  "SQ_ADD_HEAD q val = c_rem (head_pos q + val) (ele_count q + 1)"

definition SQ_ADD_TAIL :: "shm \<Rightarrow> int \<Rightarrow> int" where
  "SQ_ADD_TAIL q val = c_rem (tail_pos q + val) (ele_count q + 1)"

definition SQ_NEXT_HEAD :: "shm \<Rightarrow> int" where "SQ_NEXT_HEAD q = SQ_ADD_HEAD q 1"

definition SQ_NEXT_TAIL :: "shm \<Rightarrow> int" where "SQ_NEXT_TAIL q = SQ_ADD_TAIL q 1"

definition SQ_ADD_POS :: "shm \<Rightarrow> int \<Rightarrow> int \<Rightarrow> int" where
  "SQ_ADD_POS q pos val = c_rem (pos + val) (ele_count q + 1)"

definition SQ_IS_QUEUE_FULL :: "shm \<Rightarrow> bool" where
  "SQ_IS_QUEUE_FULL q \<longleftrightarrow> SQ_NEXT_TAIL q = head_pos q"

definition SQ_IS_QUEUE_EMPTY :: "shm \<Rightarrow> bool" where
  "SQ_IS_QUEUE_EMPTY q \<longleftrightarrow> tail_pos q = head_pos q"

definition SQ_EMPTY_NODES2 :: "shm \<Rightarrow> int \<Rightarrow> int" where
  "SQ_EMPTY_NODES2 q pos = c_rem (pos + ele_count q - tail_pos q) (ele_count q + 1)"

definition SQ_USED_NODES2 :: "shm \<Rightarrow> int \<Rightarrow> int" where
  "SQ_USED_NODES2 q pos = ele_count q - SQ_EMPTY_NODES2 q pos"

definition SQ_EMPTY_NODES :: "shm \<Rightarrow> int" where
  "SQ_EMPTY_NODES q = c_rem (head_pos q + ele_count q - tail_pos q) (ele_count q + 1)"

definition SQ_USED_NODES :: "shm \<Rightarrow> int" where
  "SQ_USED_NODES q = ele_count q - SQ_EMPTY_NODES q"

definition SQ_NODE_SIZE :: "shm \<Rightarrow> int" where
  "SQ_NODE_SIZE q = SQ_NODE_HEAD_SIZE + ele_size q"

definition SQ_GET :: "shm \<Rightarrow> int \<Rightarrow> int" where
  "SQ_GET q idx = idx * SQ_NODE_SIZE q"

text \<open>The node count is computed in \<^verbatim>\<open>size_t\<close> and stored in an int.\<close>

definition SQ_NUM_NEEDED_NODES :: "shm \<Rightarrow> int \<Rightarrow> int" where
  "SQ_NUM_NEEDED_NODES q datalen =
     to_i32 (size_t (size_t datalen + SQ_NODE_HEAD_SIZE + SQ_NODE_SIZE q - 1) div SQ_NODE_SIZE q)"

section \<open>Node fields\<close>

definition node_token :: "shm \<Rightarrow> int \<Rightarrow> u32" where
  "node_token q idx = get32 (nodes q) (SQ_GET q idx)"

definition set_token :: "shm \<Rightarrow> int \<Rightarrow> u32 \<Rightarrow> shm" where
  "set_token q idx tok = q\<lparr>nodes := put32 (nodes q) (SQ_GET q idx) tok\<rparr>"

definition node_datalen :: "shm \<Rightarrow> int \<Rightarrow> u32" where
  "node_datalen q idx = get32 (nodes q) (SQ_GET q idx + 4)"

definition node_time :: "shm \<Rightarrow> int \<Rightarrow> u32 \<times> u32" where
  "node_time q idx = (get32 (nodes q) (SQ_GET q idx + 8), get32 (nodes q) (SQ_GET q idx + 12))"

definition node_data :: "shm \<Rightarrow> int \<Rightarrow> nat \<Rightarrow> byte list" where
  "node_data q idx n = read_bytes (nodes q) (SQ_GET q idx + SQ_NODE_HEAD_SIZE) n"

section \<open>sq_put on the ring\<close>

datatype put_plan = PutFull | PutAt int int int

text \<open>One attempt up to the compare-and-swap: the reserved start index and the new tail.\<close>

definition sq_put_plan :: "shm \<Rightarrow> int \<Rightarrow> put_plan" where
  "sq_put_plan q datalen =
     (let old_tail = tail_pos q;
          nr_nodes = SQ_NUM_NEEDED_NODES q datalen
      in if SQ_EMPTY_NODES q < nr_nodes + RESERVE_BLOCK_COUNT then PutFull
         else let new_tail = SQ_ADD_TAIL q nr_nodes
              in if new_tail < old_tail
                 then (if head_pos q - 1 < nr_nodes then PutFull else PutAt old_tail 0 nr_nodes)
                 else PutAt old_tail old_tail new_tail)"

definition CAS32_tail :: "shm \<Rightarrow> int \<Rightarrow> int \<Rightarrow> bool \<times> shm" where
  "CAS32_tail q val_old val_new =
     (if tail_pos q = val_old then (True, q\<lparr>tail_pos := val_new\<rparr>) else (False, q))"

definition CAS32_head :: "shm \<Rightarrow> int \<Rightarrow> int \<Rightarrow> bool \<times> shm" where
  "CAS32_head q val_old val_new =
     (if head_pos q = val_old then (True, q\<lparr>head_pos := val_new\<rparr>) else (False, q))"

fun sq_put_reserve :: "(shm \<Rightarrow> shm) list \<Rightarrow> shm \<Rightarrow> int \<Rightarrow> shm \<times> (int \<times> int) option" where
  "sq_put_reserve [] q datalen =
     (case sq_put_plan q datalen of PutFull \<Rightarrow> (q, None)
      | PutAt old_tail idx new_tail \<Rightarrow> (snd (CAS32_tail q old_tail new_tail), Some (old_tail, idx)))"
| "sq_put_reserve (e # es) q datalen =
     (case sq_put_plan q datalen of PutFull \<Rightarrow> (q, None)
      | PutAt old_tail idx new_tail \<Rightarrow>
          (let (ok, q') = CAS32_tail (e q) old_tail new_tail
           in if ok then (q', Some (old_tail, idx)) else sq_put_reserve es q' datalen))"

text \<open>
  The do-while loop that marks the nodes skipped by a wrap-around. The second disjunct of
  the exit test only makes the recursion total: on positions inside the ring the next
  position is either 0 or larger.
\<close>

function mark_skipped :: "shm \<Rightarrow> int \<Rightarrow> shm" where
  "mark_skipped q pos =
     (let q' = set_token q pos TOKEN_SKIPPED; pos' = SQ_ADD_POS q' pos 1
      in if pos' = 0 \<or> \<not> (pos < pos' \<and> pos' \<le> ele_count q') then q' else mark_skipped q' pos')"
  by pat_completeness auto
termination
  by (relation "measure (\<lambda>(q, pos). nat (ele_count q - pos))") (auto simp: set_token_def)

declare mark_skipped.simps [simp del]

definition sq_put_write :: "shm \<Rightarrow> int \<Rightarrow> byte list \<Rightarrow> u32 \<times> u32 \<Rightarrow> shm" where
  "sq_put_write q idx bs tv =
     (let off = SQ_GET q idx;
          m1 = put32 (nodes q) (off + 4) (word_of_int (int (length bs)));
          m2 = put32 m1 (off + 8) (fst tv);
          m3 = put32 m2 (off + 12) (snd tv);
          m4 = write_bytes m3 (off + SQ_NODE_HEAD_SIZE) bs
      in q\<lparr>nodes := put32 m4 off TOKEN_HAS_DATA\<rparr>)"

text \<open>\<^verbatim>\<open>sq_put\<close> up to the signalling: the returned code and the header.\<close>

definition sq_put_ring :: "(shm \<Rightarrow> shm) list \<Rightarrow> shm \<Rightarrow> byte list \<Rightarrow> u32 \<times> u32 \<Rightarrow> int \<times> shm" where
  "sq_put_ring envs q bs tv =
     (if bs = [] \<or> MAX_SQ_DATA_LENGTH < int (length bs) then (-1, q)
      else case sq_put_reserve envs q (int (length bs)) of
        (q', None) \<Rightarrow> (-2, q')
      | (q', Some (old_tail, idx)) \<Rightarrow>
          (let q'' = (if idx = 0 \<and> old_tail \<noteq> 0 then mark_skipped q' old_tail else q')
           in (0, sq_put_write q'' idx bs tv)))"

section \<open>sq_get on the ring\<close>

text \<open>
  What surrounds one turn of the reading loop: the clock in milliseconds and what other
  processes do before the re-check of the node and before the compare-and-swap. The list
  of turns is also the bound on the number of turns: \<^verbatim>\<open>None\<close> is "did not return
  within these turns".
\<close>

record get_env =
  ge_now :: int
  ge_recheck :: "shm \<Rightarrow> shm"
  ge_cas :: "shm \<Rightarrow> shm"

text \<open>
  The outcome of a call: the returned code, the bytes copied to the caller, the enqueue time
  stored through the caller's pointer, the header, and the reader's conflict time. Copying a
  negative length is undefined behaviour of the C program and an outcome of its own.
\<close>

datatype get_out =
    GetOut (go_ret: int) (go_data: "byte list") (go_time: "(u32 \<times> u32) option") (go_shm: shm) (go_rw: int)
  | GetUndefined

text \<open>
  The loop that resets the tokens of the consumed nodes. The range test only makes the
  recursion total: both positions lie in the ring.
\<close>

function clear_nodes :: "shm \<Rightarrow> int \<Rightarrow> int \<Rightarrow> shm" where
  "clear_nodes q pos stop =
     (if pos = stop \<or> \<not> (0 \<le> pos \<and> pos \<le> ele_count q \<and> 0 \<le> stop \<and> stop \<le> ele_count q) then q
      else clear_nodes (set_token q pos TOKEN_NO_DATA) (SQ_ADD_POS q pos 1) stop)"
  by pat_completeness auto
termination
  by (relation "measure (\<lambda>(q, pos, stop). nat ((stop - pos) mod (ele_count q + 1)))")
     (auto simp: set_token_def SQ_ADD_POS_def c_arith cyc_dist_step cyc_pos)

declare clear_nodes.simps [simp del]

fun sq_get_loop :: "get_env list \<Rightarrow> shm \<Rightarrow> int \<Rightarrow> int \<Rightarrow> int \<Rightarrow> int \<Rightarrow> get_out option" where
  "sq_get_loop [] q rw head old_head buf_sz = None"
| "sq_get_loop (e # es) q rw head old_head buf_sz =
     (if tail_pos q = head then
        (if head \<noteq> old_head then
           (let (ok, q1) = CAS32_head (ge_cas e q) old_head head
            in if ok then Some (GetOut 0 [] None (clear_nodes q1 old_head head) 0)
               else Some (GetOut 0 [] None q1 0))
         else Some (GetOut 0 [] None q 0))
      else
        (let read = (\<lambda>q1 rw1.
               let datalen = sint (node_datalen q1 head);
                   nr_nodes = SQ_NUM_NEEDED_NODES q1 datalen
               in if SQ_USED_NODES2 q1 head < nr_nodes
                  then sq_get_loop es q1 0 (SQ_ADD_POS q1 head 1) old_head buf_sz
                  else if buf_sz < datalen then Some (GetOut (-2) [] (Some (node_time q1 head)) q1 0)
                  else if datalen < 0 then Some GetUndefined
                  else
                    (let bs = node_data q1 head (nat datalen);
                         new_head = SQ_ADD_POS q1 head nr_nodes;
                         (ok, q2) = CAS32_head (ge_cas e q1) old_head new_head
                     in if ok then Some (GetOut datalen bs (Some (node_time q1 head))
                                           (clear_nodes q2 old_head new_head) 0)
                        else sq_get_loop es q2 rw1 (head_pos q2) (head_pos q2) buf_sz));
             token = node_token q head
         in if token = TOKEN_HAS_DATA then read q rw
            else
              (let rw1 = (if token \<noteq> TOKEN_SKIPPED \<and> rw = 0 then ge_now e else rw);
                   q1 = ge_recheck e q
               in if token \<noteq> TOKEN_SKIPPED \<and> ge_now e < rw1 + SQ_MAX_CONFLICT_TIME_MS then
                    (if old_head \<noteq> head_pos q1 then sq_get_loop es q1 0 (head_pos q1) (head_pos q1) buf_sz
                     else Some (GetOut 0 [] None q1 rw1))
                  else if node_token q1 head \<noteq> TOKEN_HAS_DATA
                  then sq_get_loop es q1 0 (SQ_ADD_POS q1 head 1) old_head buf_sz
                  else read q1 rw1)))"

definition sq_get_ring :: "get_env list \<Rightarrow> shm \<Rightarrow> int \<Rightarrow> int \<Rightarrow> get_out option" where
  "sq_get_ring envs q rw buf_sz =
     (if buf_sz < 1 then Some (GetOut (-1) [] None q rw)
      else sq_get_loop envs q rw (head_pos q) (head_pos q) buf_sz)"

text \<open>Turns with no other process running.\<close>

definition quiet :: "int \<Rightarrow> get_env" where
  "quiet now = \<lparr>ge_now = now, ge_recheck = (\<lambda>q. q), ge_cas = (\<lambda>q. q)\<rparr>"

section \<open>Abstraction\<close>

type_synonym item = "byte list \<times> u32 \<times> u32"

function ring_decode :: "shm \<Rightarrow> int \<Rightarrow> int \<Rightarrow> item list option" where
  "ring_decode q pos k =
     (if k \<le> 0 then (if k = 0 then Some [] else None)
      else if node_token q pos = TOKEN_SKIPPED then ring_decode q ((pos + 1) mod (ele_count q + 1)) (k - 1)
      else if node_token q pos = TOKEN_HAS_DATA then
        (let dl = sint (node_datalen q pos); n = SQ_NUM_NEEDED_NODES q dl
         in if 0 < dl \<and> dl \<le> MAX_SQ_DATA_LENGTH \<and> 0 < n \<and> n \<le> k \<and> pos + n \<le> ele_count q + 1
            then map_option ((#) (node_data q pos (nat dl), node_time q pos))
                   (ring_decode q ((pos + n) mod (ele_count q + 1)) (k - n))
            else None)
      else None)"
  by pat_completeness auto
termination
  by (relation "measure (\<lambda>(q, pos, k). nat k)") auto

declare ring_decode.simps [simp del]

definition ring_used :: "shm \<Rightarrow> int" where
  "ring_used q = (tail_pos q - head_pos q) mod (ele_count q + 1)"

definition ring_items :: "shm \<Rightarrow> item list option" where
  "ring_items q = ring_decode q (head_pos q) (ring_used q)"

definition shape_wf :: "shm \<Rightarrow> bool" where
  "shape_wf q \<longleftrightarrow> 0 < ele_size q \<and> ele_size q < 2 ^ 31
     \<and> RESERVE_BLOCK_COUNT < ele_count q \<and> ele_count q < 2 ^ 30"

definition ring_wf :: "shm \<Rightarrow> bool" where
  "ring_wf q \<longleftrightarrow> shape_wf q \<and> 0 \<le> head_pos q \<and> head_pos q \<le> ele_count q
     \<and> 0 \<le> tail_pos q \<and> tail_pos q \<le> ele_count q"

end
