(* ===== verification/Shm_Ring_Laws.thy ===== *)
theory Shm_Ring_Laws
  imports Shm_Ring
begin

text \<open>
  The laws of the shared-memory ring: the position macros as cyclic distances, the frame
  and append lemmas of the decoder, and the refinement of the two operations by appending
  to and taking from a list of items.
\<close>

section \<open>Macros on well-formed headers\<close>

lemma shape_wf_bounds:
  assumes "shape_wf q"
  shows "0 < ele_count q" "10 < ele_count q" "0 < ele_size q" "17 \<le> SQ_NODE_SIZE q"
    "0 < ele_count q + 1" "SQ_NODE_SIZE q < 2 ^ 32" "ele_count q < 2 ^ 30"
  using assms by (auto simp: shape_wf_def RESERVE_BLOCK_COUNT_def SQ_NODE_SIZE_def SQ_NODE_HEAD_SIZE_def)

lemma ring_wf_bounds:
  assumes "ring_wf q"
  shows "0 \<le> head_pos q" "head_pos q \<le> ele_count q" "0 \<le> tail_pos q" "tail_pos q \<le> ele_count q"
    "shape_wf q"
  using assms by (auto simp: ring_wf_def)

lemma ring_used_bounds:
  assumes "ring_wf q"
  shows "0 \<le> ring_used q" "ring_used q \<le> ele_count q"
  using cyc_le [of "ele_count q" "tail_pos q - head_pos q"] shape_wf_bounds [of q] ring_wf_bounds [OF assms]
  by (simp_all add: ring_used_def)

lemma compl_mod:
  fixes h t n :: int
  assumes "0 < n"
  shows "(h + n - t) mod (n + 1) = n - (t - h) mod (n + 1)"
proof -
  let ?u = "(t - h) mod (n + 1)"
  have u: "0 \<le> ?u" "?u \<le> n" using cyc_le assms by blast+
  have "(h + n - t) mod (n + 1) = (n - ?u) mod (n + 1)"
    by (simp add: mod_simps algebra_simps)
  also have "\<dots> = n - ?u" using u by (intro mod_pos_pos_trivial) auto
  finally show ?thesis .
qed

lemma SQ_USED_NODES2_eq:
  assumes "shape_wf q" "0 \<le> tail_pos q" "tail_pos q \<le> ele_count q" "0 \<le> pos" "pos \<le> ele_count q"
  shows "SQ_USED_NODES2 q pos = (tail_pos q - pos) mod (ele_count q + 1)"
  using shape_wf_bounds [OF assms(1)] assms
  by (simp add: SQ_USED_NODES2_def SQ_EMPTY_NODES2_def c_arith compl_mod)

lemma SQ_EMPTY_NODES_eq:
  assumes "ring_wf q" shows "SQ_EMPTY_NODES q = ele_count q - ring_used q"
  using ring_wf_bounds [OF assms] shape_wf_bounds [of q] by (simp add: SQ_EMPTY_NODES_def c_arith compl_mod ring_used_def)

lemma SQ_USED_NODES_eq:
  assumes "ring_wf q" shows "SQ_USED_NODES q = ring_used q"
  by (simp add: SQ_USED_NODES_def SQ_EMPTY_NODES_eq [OF assms])

lemma SQ_ADD_POS_eq:
  "shape_wf q \<Longrightarrow> 0 \<le> pos \<Longrightarrow> 0 \<le> v \<Longrightarrow> SQ_ADD_POS q pos v = (pos + v) mod (ele_count q + 1)"
  using shape_wf_bounds [of q] by (simp add: SQ_ADD_POS_def c_arith)

lemma SQ_ADD_TAIL_eq:
  "ring_wf q \<Longrightarrow> 0 \<le> v \<Longrightarrow> SQ_ADD_TAIL q v = (tail_pos q + v) mod (ele_count q + 1)"
  using ring_wf_bounds [of q] shape_wf_bounds [of q] by (simp add: SQ_ADD_TAIL_def c_arith)

definition needed :: "int \<Rightarrow> int \<Rightarrow> int" where
  "needed sz d = (d + 16 + sz - 1) div sz"

lemma needed_eq: "0 < sz \<Longrightarrow> needed sz d = (d + 15) div sz + 1"
  using div_add_self2 [of sz "d + 15"] by (simp add: needed_def algebra_simps)

lemma needed_props:
  assumes "17 \<le> sz" "0 \<le> d"
  shows "0 < needed sz d" "d + 16 \<le> needed sz d * sz"
proof -
  have e: "needed sz d = (d + 15) div sz + 1" using assms by (simp add: needed_eq)
  then show "0 < needed sz d" using assms by (simp add: pos_imp_zdiv_nonneg_iff add_nonneg_pos)
  have "(d + 15) mod sz < sz" using assms by simp
  moreover have "d + 15 = (d + 15) div sz * sz + (d + 15) mod sz" by simp
  moreover have "needed sz d * sz = (d + 15) div sz * sz + sz" by (simp add: e algebra_simps)
  ultimately show "d + 16 \<le> needed sz d * sz" by linarith
qed

lemma SQ_NUM_NEEDED_NODES_eq:
  assumes "shape_wf q" "0 \<le> d" "d \<le> MAX_SQ_DATA_LENGTH"
  shows "SQ_NUM_NEEDED_NODES q d = needed (SQ_NODE_SIZE q) d"
proof -
  let ?S = "SQ_NODE_SIZE q"
  have b: "17 \<le> ?S" "?S < 2 ^ 32" by (rule shape_wf_bounds [OF assms(1)])+
  have d: "0 \<le> d" "d \<le> 33554432" using assms by (simp_all add: MAX_SQ_DATA_LENGTH_def)
  have s: "size_t (size_t d + SQ_NODE_HEAD_SIZE + ?S - 1) = d + 16 + ?S - 1"
    using b d by (simp add: c_arith SQ_NODE_HEAD_SIZE_def)
  have "needed ?S d = (d + 15) div ?S + 1" using b by (simp add: needed_eq)
  moreover have "(d + 15) div ?S \<le> d + 15"
    using b d by (intro zdiv_mono2 [of "d + 15" 1 ?S, simplified]) auto
  moreover have "0 < needed ?S d" using needed_props [OF b(1) d(1)] by simp
  ultimately have "to_i32 (needed ?S d) = needed ?S d" using d by (intro to_i32_id) auto
  then show ?thesis by (simp only: SQ_NUM_NEEDED_NODES_def s needed_def)
qed

section \<open>Frame of the decoder\<close>

definition same_shape :: "shm \<Rightarrow> shm \<Rightarrow> bool" where
  "same_shape q q' \<longleftrightarrow> ele_size q' = ele_size q \<and> ele_count q' = ele_count q"

definition agree_on :: "shm \<Rightarrow> shm \<Rightarrow> int \<Rightarrow> int \<Rightarrow> bool" where
  "agree_on q q' pos k \<longleftrightarrow>
     (\<forall>i x. 0 \<le> i \<and> i \<le> ele_count q \<and> (i - pos) mod (ele_count q + 1) < k
        \<and> i * SQ_NODE_SIZE q \<le> x \<and> x < (i + 1) * SQ_NODE_SIZE q \<longrightarrow> nodes q' x = nodes q x)"

lemma same_shape_sizes:
  assumes "same_shape q q'"
  shows "ele_count q' = ele_count q" "SQ_NODE_SIZE q' = SQ_NODE_SIZE q" "SQ_GET q' i = SQ_GET q i"
    "SQ_NUM_NEEDED_NODES q' d = SQ_NUM_NEEDED_NODES q d"
  using assms by (simp_all add: same_shape_def SQ_NODE_SIZE_def SQ_GET_def SQ_NUM_NEEDED_NODES_def)

lemma agree_on_span:
  assumes ag: "agree_on q q' pos k" and S: "17 \<le> SQ_NODE_SIZE q"
    and p: "0 \<le> pos" "pos + n \<le> ele_count q + 1" "n \<le> k"
    and x: "pos * SQ_NODE_SIZE q \<le> x" "x < (pos + n) * SQ_NODE_SIZE q"
  shows "nodes q' x = nodes q x"
proof -
  have "0 < SQ_NODE_SIZE q" using S by simp
  note i = div_in_span [OF this x]
  then have "(x div SQ_NODE_SIZE q - pos) mod (ele_count q + 1) < k"
    using p by (simp add: mod_pos_pos_trivial)
  moreover have "0 \<le> x div SQ_NODE_SIZE q" "x div SQ_NODE_SIZE q \<le> ele_count q"
    using i p by linarith+
  ultimately show ?thesis
    using ag i(3,4) unfolding agree_on_def by blast
qed

lemma agree_on_move:
  assumes "agree_on q q' pos k" "0 \<le> n" "k \<le> ele_count q + 1" "0 < ele_count q"
  shows "agree_on q q' ((pos + n) mod (ele_count q + 1)) (k - n)"
  using assms cyc_shift [of n k "ele_count q + 1" _ pos] unfolding agree_on_def by auto

lemma ring_decode_frame:
  assumes "same_shape q q'" "shape_wf q"
    and "0 \<le> pos" "pos \<le> ele_count q" "k \<le> ele_count q + 1" "agree_on q q' pos k"
  shows "ring_decode q' pos k = ring_decode q pos k"
  using assms
proof (induction q pos k rule: ring_decode.induct)
  case (1 q pos k)
  let ?N = "ele_count q + 1" and ?S = "SQ_NODE_SIZE q"
  note sz = same_shape_sizes [OF "1.prems"(1)] and b = shape_wf_bounds [OF "1.prems"(2)]
  note m = cyc_le [OF b(1)]
  show ?case
  proof (cases "k \<le> 0")
    case True
    then show ?thesis by (simp add: ring_decode.simps [of q] ring_decode.simps [of q'])
  next
    case False
    have b1: "\<And>x. pos * ?S \<le> x \<Longrightarrow> x < (pos + 1) * ?S \<Longrightarrow> nodes q' x = nodes q x"
      using agree_on_span [of q q' pos k 1] "1.prems" False b by auto
    have tok: "node_token q' pos = node_token q pos" "node_datalen q' pos = node_datalen q pos"
      "node_time q' pos = node_time q pos"
      using b b1 unfolding node_token_def node_datalen_def node_time_def sz
      by (auto simp: SQ_GET_def algebra_simps intro!: get32_cong)
    have step: "\<And>n. 0 \<le> n \<Longrightarrow> agree_on q q' ((pos + n) mod ?N) (k - n)"
      using "1.prems" b by (intro agree_on_move) auto
    let ?dl = "sint (node_datalen q pos)" and ?n = "SQ_NUM_NEEDED_NODES q (sint (node_datalen q pos))"
    consider "node_token q pos = TOKEN_SKIPPED"
      | "node_token q pos \<noteq> TOKEN_SKIPPED" "node_token q pos = TOKEN_HAS_DATA"
        "0 < ?dl \<and> ?dl \<le> MAX_SQ_DATA_LENGTH \<and> 0 < ?n \<and> ?n \<le> k \<and> pos + ?n \<le> ?N"
      | "node_token q pos \<noteq> TOKEN_SKIPPED" "node_token q pos \<noteq> TOKEN_HAS_DATA \<or>
        \<not> (0 < ?dl \<and> ?dl \<le> MAX_SQ_DATA_LENGTH \<and> 0 < ?n \<and> ?n \<le> k \<and> pos + ?n \<le> ?N)"
      by blast
    then show ?thesis
    proof cases
      case 1
      with False "1.IH"(1) "1.prems" m step [of 1] show ?thesis
        by (simp add: ring_decode.simps [of q pos k] ring_decode.simps [of q' pos k] tok sz)
    next
      case 2
      have IH: "ring_decode q' ((pos + ?n) mod ?N) (k - ?n) = ring_decode q ((pos + ?n) mod ?N) (k - ?n)"
        using False "1.IH"(2) "1.prems" m step [of ?n] 2 by auto
      have n: "?n = needed ?S ?dl" using 2 "1.prems" by (simp add: SQ_NUM_NEEDED_NODES_eq)
      have "node_data q' pos (nat ?dl) = node_data q pos (nat ?dl)"
        unfolding node_data_def sz
      proof (rule read_bytes_cong)
        fix x assume x: "SQ_GET q pos + SQ_NODE_HEAD_SIZE \<le> x"
          "x < SQ_GET q pos + SQ_NODE_HEAD_SIZE + int (nat ?dl)"
        have "?dl + 16 \<le> ?n * ?S" using needed_props(2) [of ?S ?dl] b 2 n by simp
        with x 2 have "pos * ?S \<le> x" "x < (pos + ?n) * ?S"
          by (simp_all add: SQ_GET_def SQ_NODE_HEAD_SIZE_def algebra_simps)
        then show "nodes q' x = nodes q x"
          using agree_on_span [of q q' pos k ?n x] "1.prems" b 2 by simp
      qed
      with IH 2 False show ?thesis
        by (simp add: ring_decode.simps [of q pos k] ring_decode.simps [of q' pos k] tok sz Let_def)
    next
      case 3
      with False show ?thesis
        by (auto simp: ring_decode.simps [of q pos k] ring_decode.simps [of q' pos k] tok sz Let_def)
    qed
  qed
qed


lemma ring_decode_nodes_only:
  assumes "ele_size q' = ele_size q" "ele_count q' = ele_count q" "nodes q' = nodes q"
    "shape_wf q" "0 \<le> pos" "pos \<le> ele_count q" "k \<le> ele_count q + 1"
  shows "ring_decode q' pos k = ring_decode q pos k"
  using assms by (intro ring_decode_frame) (auto simp: same_shape_def agree_on_def)

lemma ring_decode_nonneg: "ring_decode q pos k = Some xs \<Longrightarrow> 0 \<le> k"
  by (auto simp: ring_decode.simps [of q pos k] split: if_splits)

lemma ring_decode_zero [simp]: "ring_decode q pos 0 = Some []"
  by (simp add: ring_decode.simps)

text \<open>What a successful decoding says of the first node, when the span is not empty.\<close>

lemma ring_decode_cases:
  assumes "ring_decode q pos k = Some xs" "0 < k" "shape_wf q"
  obtains (skip) "node_token q pos = TOKEN_SKIPPED"
      "ring_decode q ((pos + 1) mod (ele_count q + 1)) (k - 1) = Some xs"
    | (item) n dl ys where "node_token q pos = TOKEN_HAS_DATA" "dl = sint (node_datalen q pos)"
      "n = needed (SQ_NODE_SIZE q) dl" "n = SQ_NUM_NEEDED_NODES q dl"
      "0 < dl" "dl \<le> MAX_SQ_DATA_LENGTH" "0 < n" "n \<le> k" "pos + n \<le> ele_count q + 1"
      "ring_decode q ((pos + n) mod (ele_count q + 1)) (k - n) = Some ys"
      "xs = (node_data q pos (nat dl), node_time q pos) # ys"
proof -
  have "TOKEN_SKIPPED \<noteq> TOKEN_HAS_DATA" by (simp add: TOKEN_SKIPPED_def TOKEN_HAS_DATA_def)
  with assms that show thesis
    by (auto simp: ring_decode.simps [of q pos k] Let_def SQ_NUM_NEEDED_NODES_eq split: if_splits)
qed

lemma ring_decode_item:
  assumes "node_token q pos = TOKEN_HAS_DATA" "dl = sint (node_datalen q pos)"
    "n = needed (SQ_NODE_SIZE q) dl" "0 < dl" "dl \<le> MAX_SQ_DATA_LENGTH" "n \<le> k"
    "pos + n \<le> ele_count q + 1" "shape_wf q"
  shows "ring_decode q pos k = map_option ((#) (node_data q pos (nat dl), node_time q pos))
     (ring_decode q ((pos + n) mod (ele_count q + 1)) (k - n))"
proof -
  have "TOKEN_SKIPPED \<noteq> TOKEN_HAS_DATA" by (simp add: TOKEN_SKIPPED_def TOKEN_HAS_DATA_def)
  moreover have "0 < n" using needed_props(1) [of "SQ_NODE_SIZE q" dl] shape_wf_bounds [OF assms(8)] assms by simp
  ultimately show ?thesis
    using assms by (simp add: ring_decode.simps [of q pos k] Let_def SQ_NUM_NEEDED_NODES_eq)
qed

lemma ring_decode_skip:
  "node_token q pos = TOKEN_SKIPPED \<Longrightarrow> 0 < k \<Longrightarrow>
     ring_decode q pos k = ring_decode q ((pos + 1) mod (ele_count q + 1)) (k - 1)"
  by (simp add: ring_decode.simps [of q pos k])

section \<open>Concatenation of spans\<close>

lemma ring_decode_append:
  assumes "ring_decode q pos j = Some xs" "ring_decode q ((pos + j) mod (ele_count q + 1)) k = Some ys"
    "shape_wf q" "0 \<le> pos" "pos \<le> ele_count q"
  shows "ring_decode q pos (j + k) = Some (xs @ ys)"
  using assms
proof (induction q pos j arbitrary: xs rule: ring_decode.induct)
  case (1 q pos j)
  let ?N = "ele_count q + 1"
  have b: "0 < ele_count q" using shape_wf_bounds(1) "1.prems"(3) by simp
  note m = cyc_le [OF b]
  have k: "0 \<le> k" using "1.prems"(2) by (rule ring_decode_nonneg)
  have shift: "\<And>n. ((pos + n) mod ?N + (j - n)) mod ?N = (pos + j) mod ?N"
    by (simp add: mod_simps)
  show ?case
  proof (cases "0 < j")
    case False
    with "1.prems" have "j = 0" "xs = []"
      by (auto simp: ring_decode.simps [of q pos j] split: if_splits)
    with "1.prems" show ?thesis by simp
  next
    case True
    from "1.prems"(1) True "1.prems"(3) show ?thesis
    proof (cases rule: ring_decode_cases)
      case skip
      with "1.IH"(1) [of xs] "1.prems" m shift [of 1] True
      have "ring_decode q ((pos + 1) mod ?N) (j - 1 + k) = Some (xs @ ys)" by simp
      with skip True k show ?thesis by (simp add: ring_decode_skip algebra_simps)
    next
      case (item n dl zs)
      have "\<not> j \<le> 0" "node_token q pos \<noteq> TOKEN_SKIPPED"
        using True item(1) by (simp_all add: TOKEN_SKIPPED_def TOKEN_HAS_DATA_def)
      with "1.IH"(2) [of "sint (node_datalen q pos)" n zs] "1.prems" m shift [of n] item
      have "ring_decode q ((pos + n) mod ?N) (j - n + k) = Some (zs @ ys)" by simp
      then have "ring_decode q ((pos + n) mod ?N) (j + k - n) = Some (zs @ ys)"
        by (simp add: algebra_simps)
      moreover have "n \<le> j + k" using item(8) k by simp
      ultimately show ?thesis
        using ring_decode_item [OF item(1,2,3,5,6) _ item(9) "1.prems"(3), of "j + k"] item(11) by simp
    qed
  qed
qed

section \<open>Marking skipped nodes\<close>

lemma set_token_fields [simp]:
  "ele_size (set_token q i t) = ele_size q" "ele_count (set_token q i t) = ele_count q"
  "head_pos (set_token q i t) = head_pos q" "tail_pos (set_token q i t) = tail_pos q"
  "SQ_NODE_SIZE (set_token q i t) = SQ_NODE_SIZE q" "SQ_GET (set_token q i t) j = SQ_GET q j"
  "SQ_ADD_POS (set_token q i t) j v = SQ_ADD_POS q j v"
  by (simp_all add: set_token_def SQ_NODE_SIZE_def SQ_GET_def SQ_ADD_POS_def)

lemma set_token_out:
  "x < SQ_GET q i \<or> SQ_GET q i + 4 \<le> x \<Longrightarrow> nodes (set_token q i t) x = nodes q x"
  by (simp add: set_token_def put32_out)

lemma set_token_same: "node_token (set_token q i t) i = t"
  by (simp add: node_token_def get32_put32_same) (simp add: set_token_def get32_put32_same SQ_GET_def SQ_NODE_SIZE_def)

lemma set_token_other:
  assumes "i \<noteq> j" "17 \<le> SQ_NODE_SIZE q"
  shows "node_token (set_token q i t) j = node_token q j"
proof -
  have "SQ_GET q j + 4 \<le> SQ_GET q i \<or> SQ_GET q i + 4 \<le> SQ_GET q j"
  proof (cases "i < j")
    case True
    then have "(i + 1) * SQ_NODE_SIZE q \<le> j * SQ_NODE_SIZE q" using assms by (intro mult_right_mono) auto
    with assms show ?thesis by (simp add: SQ_GET_def algebra_simps)
  next
    case False
    then have "(j + 1) * SQ_NODE_SIZE q \<le> i * SQ_NODE_SIZE q" using assms by (intro mult_right_mono) auto
    with assms show ?thesis by (simp add: SQ_GET_def algebra_simps)
  qed
  then have "get32 (put32 (nodes q) (SQ_GET q i) t) (SQ_GET q j) = get32 (nodes q) (SQ_GET q j)"
    by (auto intro: get32_put32_other)
  then show ?thesis by (simp add: node_token_def) (simp add: set_token_def)
qed

lemma mark_skipped_frame:
  assumes "shape_wf q" "0 \<le> pos" "pos \<le> ele_count q"
  shows "mark_skipped q pos = q\<lparr>nodes := nodes (mark_skipped q pos)\<rparr>
    \<and> (\<forall>x. x < pos * SQ_NODE_SIZE q \<or> (ele_count q + 1) * SQ_NODE_SIZE q \<le> x \<longrightarrow>
          nodes (mark_skipped q pos) x = nodes q x)
    \<and> (\<forall>i. pos \<le> i \<and> i \<le> ele_count q \<longrightarrow> node_token (mark_skipped q pos) i = TOKEN_SKIPPED)"
  using assms
proof (induction q pos rule: mark_skipped.induct)
  case (1 q pos)
  let ?q1 = "set_token q pos TOKEN_SKIPPED" and ?S = "SQ_NODE_SIZE q"
  have S: "17 \<le> ?S" "0 < ele_count q" using shape_wf_bounds "1.prems"(1) by auto
  have wf1: "shape_wf ?q1" using "1.prems"(1) by (simp add: shape_wf_def)
  have set1: "?q1 = q\<lparr>nodes := nodes ?q1\<rparr>" by (simp add: set_token_def)
  have out1: "nodes ?q1 x = nodes q x"
    if "x < pos * ?S \<or> (ele_count q + 1) * ?S \<le> x" for x
  proof -
    have "(pos + 1) * ?S \<le> (ele_count q + 1) * ?S" using "1.prems"(3) S by (intro mult_right_mono) auto
    moreover have "(pos + 1) * ?S = pos * ?S + ?S" by (simp add: algebra_simps)
    ultimately have "x < pos * ?S \<or> pos * ?S + 4 \<le> x" using that S(1) by linarith
    then show ?thesis by (intro set_token_out) (auto simp: SQ_GET_def)
  qed
  have pos': "SQ_ADD_POS ?q1 pos 1 = (pos + 1) mod (ele_count q + 1)"
    using "1.prems" by (simp add: SQ_ADD_POS_eq)
  show ?case
  proof (cases "pos = ele_count q")
    case True
    then have "mark_skipped q pos = ?q1"
      using S pos' by (subst mark_skipped.simps) (simp add: Let_def)
    with True show ?thesis using out1 set1 set_token_same [of q pos] by auto
  next
    case False
    with "1.prems" have p1: "(pos + 1) mod (ele_count q + 1) = pos + 1" by (simp add: mod_pos_pos_trivial)
    have rec: "mark_skipped q pos = mark_skipped ?q1 (pos + 1)"
      using False "1.prems" pos' p1 by (subst mark_skipped.simps [of q pos]) (simp add: Let_def)
    have IH: "mark_skipped ?q1 (pos + 1) = ?q1\<lparr>nodes := nodes (mark_skipped ?q1 (pos + 1))\<rparr>"
      "\<And>x. x < (pos + 1) * ?S \<or> (ele_count q + 1) * ?S \<le> x \<Longrightarrow>
          nodes (mark_skipped ?q1 (pos + 1)) x = nodes ?q1 x"
      "\<And>i. pos + 1 \<le> i \<Longrightarrow> i \<le> ele_count q \<Longrightarrow> node_token (mark_skipped ?q1 (pos + 1)) i = TOKEN_SKIPPED"
      using "1.IH" [of ?q1 "pos + 1"] False "1.prems" pos' p1 wf1 by auto
    have "SQ_NODE_SIZE (mark_skipped ?q1 (pos + 1)) = ?S"
      by (subst IH(1)) (simp add: SQ_NODE_SIZE_def)
    moreover have "nodes (mark_skipped ?q1 (pos + 1)) x = nodes ?q1 x" if "x < pos * ?S + 4" for x
      using that S(1) by (intro IH(2)) (simp add: distrib_right)
    ultimately have "node_token (mark_skipped ?q1 (pos + 1)) pos = node_token ?q1 pos"
      unfolding node_token_def SQ_GET_def by (auto intro!: get32_cong)
    then have head: "node_token (mark_skipped ?q1 (pos + 1)) pos = TOKEN_SKIPPED"
      by (simp add: set_token_same)
    have "pos * ?S \<le> (pos + 1) * ?S" using S by (intro mult_right_mono) auto
    then have fr: "nodes (mark_skipped ?q1 (pos + 1)) x = nodes q x"
      if "x < pos * ?S \<or> (ele_count q + 1) * ?S \<le> x" for x
    proof -
      have "x < (pos + 1) * ?S \<or> (ele_count q + 1) * ?S \<le> x"
        using that \<open>pos * ?S \<le> (pos + 1) * ?S\<close> by linarith
      then show ?thesis using IH(2) [of x] out1 [OF that] by simp
    qed
    have eq: "mark_skipped ?q1 (pos + 1) = q\<lparr>nodes := nodes (mark_skipped ?q1 (pos + 1))\<rparr>"
      by (subst IH(1)) (simp add: set_token_def)
    have tok: "node_token (mark_skipped ?q1 (pos + 1)) i = TOKEN_SKIPPED" if "pos \<le> i" "i \<le> ele_count q" for i
      using IH(3) [of i] head that by (cases "i = pos") auto
    show ?thesis unfolding rec using eq fr tok by blast
  qed
qed

lemma ring_decode_all_skipped:
  assumes "shape_wf q" "0 \<le> pos" "0 \<le> k" "pos + k = ele_count q + 1"
    and "\<And>i. pos \<le> i \<Longrightarrow> i \<le> ele_count q \<Longrightarrow> node_token q i = TOKEN_SKIPPED"
  shows "ring_decode q pos k = Some []"
  using assms(2-)
proof (induction "nat k" arbitrary: pos k)
  case 0
  then show ?case by simp
next
  case (Suc n)
  have k: "0 < k" using Suc.hyps by simp
  have tok: "node_token q pos = TOKEN_SKIPPED" using Suc.prems k by simp
  show ?case
  proof (cases "k = 1")
    case True
    with tok show ?thesis by (simp add: ring_decode_skip)
  next
    case False
    with Suc.prems k have "(pos + 1) mod (ele_count q + 1) = pos + 1"
      by (intro mod_pos_pos_trivial) auto
    with Suc tok k False show ?thesis
      using Suc.hyps(1) [of "k - 1" "pos + 1"] by (simp add: ring_decode_skip)
  qed
qed

section \<open>Writing an item\<close>

lemma sq_put_write_item:
  fixes tv :: "u32 \<times> u32"
  assumes "shape_wf q" "0 \<le> idx" "idx + needed (SQ_NODE_SIZE q) (int (length bs)) \<le> ele_count q + 1"
    "bs \<noteq> []" "int (length bs) \<le> MAX_SQ_DATA_LENGTH"
  defines "q' \<equiv> sq_put_write q idx bs tv" and "n \<equiv> needed (SQ_NODE_SIZE q) (int (length bs))"
  shows "ring_decode q' idx n = Some [(bs, tv)]"
    and "q' = q\<lparr>nodes := nodes q'\<rparr>"
    and "\<And>x. x < idx * SQ_NODE_SIZE q \<or> (idx + n) * SQ_NODE_SIZE q \<le> x \<Longrightarrow> nodes q' x = nodes q x"
proof -
  let ?S = "SQ_NODE_SIZE q" and ?o = "SQ_GET q idx" and ?L = "int (length bs)"
  note b = shape_wf_bounds [OF assms(1)]
  have n: "0 < n" "?L + 16 \<le> n * ?S" using needed_props [OF b(4)] n_def by auto
  show eq: "q' = q\<lparr>nodes := nodes q'\<rparr>" by (simp add: q'_def sq_put_write_def Let_def)
  have nodes': "nodes q' = put32 (write_bytes (put32 (put32 (put32 (nodes q) (?o + 4) (word_of_int ?L))
      (?o + 8) (fst tv)) (?o + 12) (snd tv)) (?o + 16) bs) ?o TOKEN_HAS_DATA"
    by (simp add: q'_def sq_put_write_def Let_def SQ_NODE_HEAD_SIZE_def)
  show "nodes q' x = nodes q x" if "x < idx * ?S \<or> (idx + n) * ?S \<le> x" for x
  proof -
    have "?o + 16 + ?L \<le> (idx + n) * ?S" using n by (simp add: SQ_GET_def algebra_simps)
    with that have "x < ?o \<or> ?o + 16 + ?L \<le> x" by (auto simp: SQ_GET_def)
    then show ?thesis by (auto simp: nodes' put32_out write_bytes_out)
  qed
  have sz: "SQ_GET q' idx = ?o" "SQ_NODE_SIZE q' = ?S" "ele_count q' = ele_count q" "shape_wf q'"
    using assms(1) by (subst eq, simp add: SQ_GET_def SQ_NODE_SIZE_def shape_wf_def)+
  have dl: "sint (word_of_int ?L :: u32) = ?L"
    using assms(5) by (intro sint_of_small) (simp_all add: MAX_SQ_DATA_LENGTH_def)
  have f: "node_token q' idx = TOKEN_HAS_DATA" "node_datalen q' idx = word_of_int ?L"
    "node_time q' idx = tv" "node_data q' idx (length bs) = bs"
    by (simp_all add: node_token_def node_datalen_def node_time_def node_data_def sz nodes' mem_simps
        SQ_NODE_HEAD_SIZE_def)
  have "ring_decode q' idx n = map_option ((#) (node_data q' idx (nat ?L), node_time q' idx))
     (ring_decode q' ((idx + n) mod (ele_count q' + 1)) (n - n))"
    using assms(3-5) f(1,2) dl sz by (intro ring_decode_item) (auto simp: n_def)
  then show "ring_decode q' idx n = Some [(bs, tv)]" by (simp add: f)
qed

section \<open>sq_put appends\<close>

text \<open>The plan of an attempt: where the item goes and how much room is left.\<close>

lemma sq_put_plan_cases:
  assumes "ring_wf q" "0 < d" "d \<le> MAX_SQ_DATA_LENGTH" "sq_put_plan q d = PutAt old idx new"
  defines "n \<equiv> needed (SQ_NODE_SIZE q) d"
  shows "old = tail_pos q" "ring_used q + n + 10 \<le> ele_count q" "0 < n"
    and "(idx = tail_pos q \<and> new = tail_pos q + n \<and> new \<le> ele_count q)
       \<or> (idx = 0 \<and> new = n \<and> tail_pos q \<noteq> 0 \<and> n < head_pos q \<and> head_pos q \<le> tail_pos q)"
proof -
  note b = ring_wf_bounds [OF assms(1)] and sb = shape_wf_bounds [OF ring_wf_bounds(5) [OF assms(1)]]
  have nr: "SQ_NUM_NEEDED_NODES q d = n" using assms b by (simp add: SQ_NUM_NEEDED_NODES_eq n_def)
  show n: "0 < n" using needed_props(1) sb(4) assms(2) n_def by simp
  have tl: "SQ_ADD_TAIL q n = (tail_pos q + n) mod (ele_count q + 1)"
    using n by (simp add: SQ_ADD_TAIL_eq [OF assms(1)])
  have plan: "sq_put_plan q d = (if ele_count q - ring_used q < n + 10 then PutFull
     else if (tail_pos q + n) mod (ele_count q + 1) < tail_pos q
       then (if head_pos q - 1 < n then PutFull else PutAt (tail_pos q) 0 n)
       else PutAt (tail_pos q) (tail_pos q) ((tail_pos q + n) mod (ele_count q + 1)))"
    by (simp add: sq_put_plan_def nr tl SQ_EMPTY_NODES_eq [OF assms(1)] RESERVE_BLOCK_COUNT_def Let_def)
  show "old = tail_pos q" "ring_used q + n + 10 \<le> ele_count q"
    using assms(4) by (auto simp: plan split: if_splits)
  then have nN: "n < ele_count q + 1" using ring_used_bounds(1) [OF assms(1)] by linarith
  have wrap: "(tail_pos q + n) mod (ele_count q + 1) =
      (if tail_pos q + n \<le> ele_count q then tail_pos q + n else tail_pos q + n - (ele_count q + 1))"
  proof (cases "tail_pos q + n \<le> ele_count q")
    case False
    then have "(tail_pos q + n - (ele_count q + 1)) mod (ele_count q + 1) = tail_pos q + n - (ele_count q + 1)"
      using b nN by (intro mod_pos_pos_trivial) auto
    with False show ?thesis by simp
  qed (use b n in \<open>simp add: mod_pos_pos_trivial\<close>)
  show "(idx = tail_pos q \<and> new = tail_pos q + n \<and> new \<le> ele_count q)
       \<or> (idx = 0 \<and> new = n \<and> tail_pos q \<noteq> 0 \<and> n < head_pos q \<and> head_pos q \<le> tail_pos q)"
  proof (cases "tail_pos q + n \<le> ele_count q")
    case True
    with assms(4) n show ?thesis by (auto simp: plan wrap split: if_splits)
  next
    case False
    with nN have lt: "(tail_pos q + n) mod (ele_count q + 1) < tail_pos q" using wrap by simp
    have ht: "head_pos q \<le> tail_pos q"
    proof (rule ccontr)
      assume "\<not> head_pos q \<le> tail_pos q"
      then have "(tail_pos q - head_pos q + (ele_count q + 1)) mod (ele_count q + 1) =
          tail_pos q - head_pos q + (ele_count q + 1)"
        using b by (intro mod_pos_pos_trivial) auto
      then have "ring_used q = tail_pos q - head_pos q + (ele_count q + 1)" by (simp add: ring_used_def)
      with \<open>ring_used q + n + 10 \<le> ele_count q\<close> False b show False by linarith
    qed
    from lt assms(4) have e: "idx = 0" "new = n" "n < head_pos q" by (auto simp: plan split: if_splits)
    then have "tail_pos q \<noteq> 0" using ht n by linarith
    with e ht show ?thesis by simp
  qed
qed

lemma node_span_outside:
  fixes S i x a c :: int
  assumes "17 \<le> S" "i * S \<le> x" "x < (i + 1) * S"
  shows "c \<le> i \<Longrightarrow> c * S \<le> x" "i < a \<Longrightarrow> x < a * S"
proof -
  show "c * S \<le> x" if "c \<le> i"
    using assms mult_right_mono [OF that, of S] by linarith
  show "x < a * S" if "i < a"
    using assms mult_right_mono [of "i + 1" a S] that by linarith
qed

lemma cyc_span_outside:
  fixes t i n h N :: int
  assumes "t \<le> i" "i < t + n" "(t - h) mod N + n \<le> N" "0 < N"
  shows "(t - h) mod N \<le> (i - h) mod N"
  using cyc_add [of "i - t" "t - h" N] assms by simp

lemma cyc_interval:
  fixes i h t N :: int
  assumes "0 \<le> i" "i < N" "0 \<le> h" "h \<le> t" "t < N" "(i - h) mod N < t - h"
  shows "h \<le> i \<and> i < t"
proof (cases "h \<le> i")
  case True
  with assms show ?thesis by (simp add: mod_pos_pos_trivial)
next
  case False
  then have "(i - h + N) mod N = i - h + N" using assms by (intro mod_pos_pos_trivial) auto
  with assms False show ?thesis by simp
qed

text \<open>
  The effect of a successful put on the header: nothing but the tail and the bytes of the
  reserved nodes changes, in one of two places.
\<close>

definition put_effect :: "shm \<Rightarrow> byte list \<Rightarrow> u32 \<times> u32 \<Rightarrow> int \<Rightarrow> int \<Rightarrow> shm \<Rightarrow> bool" where
  "put_effect q bs tv idx n q' \<longleftrightarrow>
     q' = q\<lparr>tail_pos := idx + n, nodes := nodes q'\<rparr> \<and> 0 < n \<and> ring_used q + n + 10 \<le> ele_count q \<and>
     ring_decode q' idx n = Some [(bs, tv)] \<and>
     (idx = tail_pos q \<and> tail_pos q + n \<le> ele_count q \<and>
        (\<forall>x. x < tail_pos q * SQ_NODE_SIZE q \<or> (tail_pos q + n) * SQ_NODE_SIZE q \<le> x \<longrightarrow> nodes q' x = nodes q x)
      \<or> idx = 0 \<and> n < head_pos q \<and> head_pos q \<le> tail_pos q \<and>
        (\<forall>x. x < 0 \<or> n * SQ_NODE_SIZE q \<le> x \<and> x < tail_pos q * SQ_NODE_SIZE q
             \<or> (ele_count q + 1) * SQ_NODE_SIZE q \<le> x \<longrightarrow> nodes q' x = nodes q x) \<and>
        (\<forall>i. tail_pos q \<le> i \<and> i \<le> ele_count q \<longrightarrow> node_token q' i = TOKEN_SKIPPED))"

lemma sq_put_effect:
  assumes wf: "ring_wf q" and put: "sq_put_ring [] q bs tv = (0, q')"
  obtains idx where "put_effect q bs tv idx (needed (SQ_NODE_SIZE q) (int (length bs))) q'"
proof -
  let ?L = "int (length bs)" and ?N = "ele_count q + 1" and ?S = "SQ_NODE_SIZE q"
  let ?h = "head_pos q" and ?t = "tail_pos q"
  define n where "n = needed ?S ?L"
  note b = ring_wf_bounds [OF wf] and sb = shape_wf_bounds [OF ring_wf_bounds(5) [OF wf]]
  from put have L: "bs \<noteq> []" "?L \<le> MAX_SQ_DATA_LENGTH" "0 < ?L"
    by (auto simp: sq_put_ring_def split: if_splits)
  from put L obtain old idx new where plan: "sq_put_plan q ?L = PutAt old idx new"
    by (auto simp: sq_put_ring_def split: put_plan.splits if_splits)
  note pc = sq_put_plan_cases [OF wf L(3,2) plan, folded n_def]
  define q1 where "q1 = q\<lparr>tail_pos := new\<rparr>"
  define q2 where "q2 = (if idx = 0 \<and> ?t \<noteq> 0 then mark_skipped q1 ?t else q1)"
  have q': "q' = sq_put_write q2 idx bs tv"
    using put plan L pc(1) by (auto simp: sq_put_ring_def q1_def q2_def CAS32_tail_def Let_def)
  have sh1: "shape_wf q1" "SQ_NODE_SIZE q1 = ?S" "ele_count q1 = ele_count q"
    using b(5) by (simp_all add: q1_def shape_wf_def SQ_NODE_SIZE_def)
  have ms: "mark_skipped q1 ?t = q1\<lparr>nodes := nodes (mark_skipped q1 ?t)\<rparr>"
    "\<And>x. x < ?t * ?S \<or> ?N * ?S \<le> x \<Longrightarrow> nodes (mark_skipped q1 ?t) x = nodes q1 x"
    "\<And>i. ?t \<le> i \<Longrightarrow> i \<le> ele_count q \<Longrightarrow> node_token (mark_skipped q1 ?t) i = TOKEN_SKIPPED"
    using mark_skipped_frame [OF sh1(1), of ?t] b sh1 by auto
  have q2eq: "q2 = q1\<lparr>nodes := nodes q2\<rparr>" using ms(1) by (simp add: q2_def)
  have sh2: "shape_wf q2" "SQ_NODE_SIZE q2 = ?S" "ele_count q2 = ele_count q"
    using sh1 by (subst q2eq, simp add: shape_wf_def SQ_NODE_SIZE_def)+
  have fits: "idx + n \<le> ?N" "0 \<le> idx" and new: "new = idx + n" using pc b by auto
  note w = sq_put_write_item [where tv = tv, OF sh2(1) fits(2) _ L(1,2), unfolded sh2, folded n_def q', OF fits(1)]
  have eq: "q' = q\<lparr>tail_pos := idx + n, nodes := nodes q'\<rparr>"
    by (subst w(2), subst q2eq) (simp add: q1_def new)
  have szq: "SQ_NODE_SIZE q' = ?S" by (subst eq) (simp add: SQ_NODE_SIZE_def)
  from pc(4) have "put_effect q bs tv idx n q'"
  proof
    assume a: "idx = ?t \<and> new = ?t + n \<and> new \<le> ele_count q"
    then have "q2 = q1" by (auto simp: q2_def)
    with a eq w(1,3) pc(2,3) show ?thesis by (simp add: put_effect_def q1_def)
  next
    assume a: "idx = 0 \<and> new = n \<and> ?t \<noteq> 0 \<and> n < ?h \<and> ?h \<le> ?t"
    have wr: "nodes q' x = nodes (mark_skipped q1 ?t) x" if "x < 0 \<or> n * ?S \<le> x" for x
      using w(3) [of x] that a by (simp add: q2_def)
    have nn: "0 \<le> n * ?S" "n * ?S \<le> ?t * ?S" "?t * ?S \<le> ?N * ?S"
      using a b sb(4) pc(3) by (auto intro!: mult_right_mono)
    have fr: "nodes q' x = nodes q x"
      if "x < 0 \<or> n * ?S \<le> x \<and> x < ?t * ?S \<or> ?N * ?S \<le> x" for x
    proof -
      have "x < 0 \<or> n * ?S \<le> x" "x < ?t * ?S \<or> ?N * ?S \<le> x" using that nn by linarith+
      then show ?thesis using wr ms(2) by (simp add: q1_def)
    qed
    have tok: "node_token q' i = TOKEN_SKIPPED" if i: "?t \<le> i" "i \<le> ele_count q" for i
    proof -
      have "n * ?S \<le> i * ?S" using i a sb(4) by (intro mult_right_mono) auto
      then have "get32 (nodes q') (i * ?S) = get32 (nodes (mark_skipped q1 ?t)) (i * ?S)"
        by (intro get32_cong wr) auto
      moreover have "SQ_NODE_SIZE (mark_skipped q1 ?t) = ?S"
        by (subst ms(1)) (simp add: SQ_NODE_SIZE_def q1_def)
      ultimately show ?thesis
        using ms(3) [OF i] szq by (simp add: node_token_def SQ_GET_def)
    qed
    show ?thesis using a eq w(1) pc(2,3) fr tok unfolding put_effect_def by blast
  qed
  then show thesis using that n_def by blast
qed

text \<open>What follows for the shape, and that the nodes of the used span and the free nodes are kept.\<close>

lemma put_effect_shape:
  assumes "put_effect q bs tv idx n q'" "ring_wf q"
  shows "ring_wf q'" "same_shape q q'" "head_pos q' = head_pos q" "tail_pos q' = idx + n"
    "ele_count q' = ele_count q" "SQ_NODE_SIZE q' = SQ_NODE_SIZE q"
proof -
  have eq: "q' = q\<lparr>tail_pos := idx + n, nodes := nodes q'\<rparr>" using assms by (simp add: put_effect_def)
  show f: "head_pos q' = head_pos q" "tail_pos q' = idx + n" "ele_count q' = ele_count q"
    "SQ_NODE_SIZE q' = SQ_NODE_SIZE q" "same_shape q q'"
    by (subst eq, simp add: same_shape_def SQ_NODE_SIZE_def)+
  have "0 \<le> idx + n \<and> idx + n \<le> ele_count q"
    using assms by (auto simp: put_effect_def ring_wf_def)
  then show "ring_wf q'" using assms(2) f by (simp add: ring_wf_def shape_wf_def same_shape_def)
qed

lemma put_effect_used:
  assumes "put_effect q bs tv idx n q'" "ring_wf q"
  shows "ring_used q' = (if idx = tail_pos q then ring_used q + n
    else ring_used q + (ele_count q + 1 - tail_pos q) + n)"
proof -
  let ?N = "ele_count q + 1" and ?h = "head_pos q" and ?t = "tail_pos q"
  note b = ring_wf_bounds [OF assms(2)] and sh = put_effect_shape [OF assms]
  from assms(1) have n: "0 < n" "ring_used q + n + 10 \<le> ele_count q" by (auto simp: put_effect_def)
  show ?thesis
  proof (cases "idx = ?t")
    case True
    then show ?thesis
      using cyc_add [of n "?t - ?h" ?N] n b sh ring_used_bounds(1) [OF assms(2)]
      by (simp add: ring_used_def algebra_simps)
  next
    case False
    with assms(1) have a: "idx = 0" "n < ?h" "?h \<le> ?t" by (auto simp: put_effect_def)
    have u: "ring_used q = ?t - ?h" using a b by (simp add: ring_used_def mod_pos_pos_trivial)
    have "(n - ?h) mod ?N = (n - ?h + ?N) mod ?N" by simp
    also have "\<dots> = n - ?h + ?N" using a b n by (intro mod_pos_pos_trivial) auto
    finally show ?thesis using a sh u False by (simp add: ring_used_def)
  qed
qed

text \<open>A node that the put leaves alone: one of the used span, or one that stays free.\<close>

lemma put_effect_node_kept:
  assumes pe: "put_effect q bs tv idx n q'" and wf: "ring_wf q" and i: "0 \<le> i" "i \<le> ele_count q"
    and sp: "(i - head_pos q) mod (ele_count q + 1) < ring_used q
       \<or> ring_used q' \<le> (i - head_pos q) mod (ele_count q + 1)"
    and x: "i * SQ_NODE_SIZE q \<le> x" "x < (i + 1) * SQ_NODE_SIZE q"
  shows "nodes q' x = nodes q x"
proof -
  let ?N = "ele_count q + 1" and ?h = "head_pos q" and ?t = "tail_pos q" and ?S = "SQ_NODE_SIZE q"
  note b = ring_wf_bounds [OF wf] and sb = shape_wf_bounds [OF ring_wf_bounds(5) [OF wf]]
  note ns = node_span_outside(1) [OF sb(4) x] node_span_outside(2) [OF sb(4) x]
  from pe have n: "0 < n" "ring_used q + n + 10 \<le> ele_count q" by (auto simp: put_effect_def)
  show ?thesis
  proof (cases "idx = ?t \<and> ?t + n \<le> ele_count q")
    case True
    have "(i - ?h) mod ?N = ring_used q + (i - ?t)" if "?t \<le> i" "i < ?t + n"
      using cyc_add [of "i - ?t" "?t - ?h" ?N] that n b by (simp add: ring_used_def)
    moreover have "ring_used q' = ring_used q + n" using put_effect_used [OF pe wf] True by simp
    ultimately have "\<not> (?t \<le> i \<and> i < ?t + n)" using sp by auto
    then have "x < ?t * ?S \<or> (?t + n) * ?S \<le> x" using ns [of "?t + n"] ns [of ?t] by auto
    moreover have "?t = 0 \<Longrightarrow> ?h \<le> 0 \<Longrightarrow> \<not> n < ?h" using n by simp
    ultimately show ?thesis using pe True b n unfolding put_effect_def by auto
  next
    case False
    with pe have a: "idx = 0" "n < ?h" "?h \<le> ?t" "?t \<noteq> 0"
      "\<And>x. x < 0 \<or> n * ?S \<le> x \<and> x < ?t * ?S \<or> ?N * ?S \<le> x \<Longrightarrow> nodes q' x = nodes q x"
      by (auto simp: put_effect_def)
    have u: "ring_used q = ?t - ?h" using a b by (simp add: ring_used_def mod_pos_pos_trivial)
    have u': "ring_used q' = n - ?h + ?N" using put_effect_used [OF pe wf] a u by simp
    have "n \<le> i \<and> i < ?t"
    proof (cases "?h \<le> i")
      case True
      then have "(i - ?h) mod ?N = i - ?h" using b i by (simp add: mod_pos_pos_trivial)
      with sp u u' True a i n(1) show ?thesis by auto
    next
      case False
      then have "(i - ?h + ?N) mod ?N = i - ?h + ?N" using b i by (intro mod_pos_pos_trivial) auto
      then have "(i - ?h) mod ?N = i - ?h + ?N" by simp
      with sp u u' False a b i show ?thesis by auto
    qed
    then show ?thesis using ns a(5) by auto
  qed
qed

lemma sq_put_refines:
  assumes wf: "ring_wf q" and it: "ring_items q = Some xs" and put: "sq_put_ring [] q bs tv = (0, q')"
  shows "ring_wf q'" "ring_items q' = Some (xs @ [(bs, tv)])"
proof -
  let ?N = "ele_count q + 1" and ?h = "head_pos q" and ?t = "tail_pos q" and ?u = "ring_used q"
  obtain idx n where pe: "put_effect q bs tv idx n q'" using sq_put_effect [OF wf put] by blast
  note b = ring_wf_bounds [OF wf] and sh = put_effect_shape [OF pe wf]
  show "ring_wf q'" by (rule sh(1))
  have tl: "(?h + ?u) mod ?N = ?t" using b by (simp add: ring_used_def mod_simps)
  have "agree_on q q' ?h ?u"
    unfolding agree_on_def using put_effect_node_kept [OF pe wf] by blast
  then have dec: "ring_decode q' ?h ?u = Some xs"
    using ring_decode_frame [OF sh(2) b(5,1,2)] it ring_used_bounds(2) [OF wf] by (simp add: ring_items_def)
  have w: "ring_decode q' idx n = Some [(bs, tv)]" using pe by (simp add: put_effect_def)
  have ap: "ring_decode q' ?h (?u + k) = Some (xs @ ys)" if "ring_decode q' ?t k = Some ys" for k ys
    using that dec tl sh b ring_wf_bounds(5) [OF sh(1)] by (intro ring_decode_append) auto
  show "ring_items q' = Some (xs @ [(bs, tv)])"
  proof (cases "idx = ?t")
    case True
    then show ?thesis using ap [of n] w put_effect_used [OF pe wf] sh by (simp add: ring_items_def)
  next
    case False
    with pe have a: "idx = 0" "\<And>i. ?t \<le> i \<Longrightarrow> i \<le> ele_count q \<Longrightarrow> node_token q' i = TOKEN_SKIPPED"
      by (auto simp: put_effect_def)
    have "ring_decode q' ?t (?N - ?t) = Some []"
      using ring_wf_bounds(5) [OF sh(1)] b sh a(2) by (intro ring_decode_all_skipped) auto
    then have "ring_decode q' ?t (?N - ?t + n) = Some [(bs, tv)]"
      using ring_decode_append [of q' ?t "?N - ?t" "[]" n "[(bs, tv)]"] w a(1) sh b ring_wf_bounds(5) [OF sh(1)]
      by simp
    from ap [OF this] have "ring_decode q' ?h (?u + (?N - ?t + n)) = Some (xs @ [(bs, tv)])" .
    moreover have "ring_used q' = ?u + (?N - ?t + n)" using put_effect_used [OF pe wf] False by simp
    ultimately show ?thesis using sh by (simp add: ring_items_def)
  qed
qed

section \<open>Clearing consumed nodes\<close>

lemma token_bytes_apart:
  fixes S i j :: int
  assumes "17 \<le> S" "i \<noteq> j" "j * S \<le> x" "x < j * S + 4"
  shows "x < i * S \<or> i * S + 4 \<le> x"
  using node_span_outside(1) [of S j x i] node_span_outside(2) [of S j x "i + 1"]
    node_span_outside(1) [of S j x "i + 1"] node_span_outside(2) [of S j x i] assms
  by (cases "i < j") (auto simp: algebra_simps)

definition in_span :: "shm \<Rightarrow> int \<Rightarrow> int \<Rightarrow> int \<Rightarrow> bool" where
  "in_span q pos stop i \<longleftrightarrow>
     0 \<le> i \<and> i \<le> ele_count q \<and> (i - pos) mod (ele_count q + 1) < (stop - pos) mod (ele_count q + 1)"

lemma in_span_step:
  assumes "0 < ele_count q" "pos \<noteq> stop" "0 \<le> pos" "pos \<le> ele_count q" "0 \<le> stop" "stop \<le> ele_count q"
  shows "in_span q pos stop i \<longleftrightarrow> i = pos \<or> in_span q ((pos + 1) mod (ele_count q + 1)) stop i"
proof -
  let ?N = "ele_count q + 1" and ?p = "(pos + 1) mod (ele_count q + 1)"
  have d: "0 < (stop - pos) mod ?N" using assms by (intro cyc_pos) auto
  have d1: "(stop - ?p) mod ?N = (stop - pos) mod ?N - 1"
    using d assms cyc_dist_move [of 1 stop pos ?N] by simp
  show ?thesis
  proof (cases "0 \<le> i \<and> i \<le> ele_count q \<and> i \<noteq> pos")
    case True
    then have "0 < (i - pos) mod ?N" using assms by (intro cyc_pos) auto
    then have "(i - ?p) mod ?N = (i - pos) mod ?N - 1"
      using assms cyc_dist_move [of 1 i pos ?N] by simp
    with True d1 show ?thesis by (auto simp: in_span_def)
  next
    case False
    with d assms show ?thesis by (auto simp: in_span_def)
  qed
qed

lemma clear_nodes_frame:
  assumes "shape_wf q" "0 \<le> pos" "pos \<le> ele_count q" "0 \<le> stop" "stop \<le> ele_count q"
  shows "clear_nodes q pos stop = q\<lparr>nodes := nodes (clear_nodes q pos stop)\<rparr>
    \<and> (\<forall>x. (\<forall>i. in_span q pos stop i \<longrightarrow> x < i * SQ_NODE_SIZE q \<or> i * SQ_NODE_SIZE q + 4 \<le> x) \<longrightarrow>
          nodes (clear_nodes q pos stop) x = nodes q x)
    \<and> (\<forall>i. in_span q pos stop i \<longrightarrow> node_token (clear_nodes q pos stop) i = TOKEN_NO_DATA)"
  using assms
proof (induction q pos stop rule: clear_nodes.induct)
  case (1 q pos stop)
  let ?q1 = "set_token q pos TOKEN_NO_DATA" and ?S = "SQ_NODE_SIZE q" and ?p = "(pos + 1) mod (ele_count q + 1)"
  note b = shape_wf_bounds [OF "1.prems"(1)]
  show ?case
  proof (cases "pos = stop")
    case True
    moreover have "\<not> in_span q stop stop i" for i
      using cyc_le(1) [OF b(1), of "i - stop"] by (simp add: in_span_def)
    ultimately show ?thesis by (simp add: clear_nodes.simps [of q stop])
  next
    case False
    have p: "SQ_ADD_POS q pos 1 = ?p" "0 \<le> ?p" "?p \<le> ele_count q"
      using "1.prems" cyc_le [OF b(1)] by (simp_all add: SQ_ADD_POS_eq)
    have rec: "clear_nodes q pos stop = clear_nodes ?q1 ?p stop"
      using False "1.prems" p(1) by (subst clear_nodes.simps) simp
    let ?r = "clear_nodes ?q1 ?p stop"
    note st = in_span_step [OF b(1) False "1.prems"(2-5)]
    have sp1: "in_span ?q1 = in_span q" by (intro ext) (simp add: in_span_def)
    have IH: "?r = ?q1\<lparr>nodes := nodes ?r\<rparr>"
      "\<And>x. (\<And>i. in_span q ?p stop i \<Longrightarrow> x < i * ?S \<or> i * ?S + 4 \<le> x) \<Longrightarrow> nodes ?r x = nodes ?q1 x"
      "\<And>i. in_span q ?p stop i \<Longrightarrow> node_token ?r i = TOKEN_NO_DATA"
      using "1.IH" False "1.prems" p by (auto simp: sp1 shape_wf_def)
    have szr: "SQ_NODE_SIZE ?r = ?S" by (subst IH(1)) (simp add: SQ_NODE_SIZE_def)
    have eq: "?r = q\<lparr>nodes := nodes ?r\<rparr>" by (subst IH(1)) (simp add: set_token_def)
    have fr: "nodes ?r x = nodes q x"
      if "\<And>i. in_span q pos stop i \<Longrightarrow> x < i * ?S \<or> i * ?S + 4 \<le> x" for x
      using that st IH(2) [of x] set_token_out [of x q pos TOKEN_NO_DATA] by (simp add: SQ_GET_def)
    have "node_token ?r pos = TOKEN_NO_DATA" if "\<not> in_span q ?p stop pos"
    proof -
      have "nodes ?r x = nodes ?q1 x" if x: "pos * ?S \<le> x" "x < pos * ?S + 4" for x
      proof (rule IH(2))
        fix i assume "in_span q ?p stop i"
        then have "i \<noteq> pos" using \<open>\<not> in_span q ?p stop pos\<close> by auto
        then show "x < i * ?S \<or> i * ?S + 4 \<le> x" by (rule token_bytes_apart [OF b(4) _ x])
      qed
      then have "get32 (nodes ?r) (pos * ?S) = get32 (nodes ?q1) (pos * ?S)" by (rule get32_cong)
      then show ?thesis
        using set_token_same [of q pos TOKEN_NO_DATA] by (simp add: node_token_def SQ_GET_def szr)
    qed
    then have "node_token ?r i = TOKEN_NO_DATA" if "in_span q pos stop i" for i
      using that st IH(3) by (cases "in_span q ?p stop i") auto
    with eq fr show ?thesis unfolding rec by blast
  qed
qed

section \<open>sq_get takes the oldest item\<close>

text \<open>What the undisturbed loop returns from a position behind which only skipped nodes lie.\<close>

lemma sq_get_loop_quiet:
  assumes "ring_wf q" "0 \<le> head" "head \<le> ele_count q" "k = (tail_pos q - head) mod (ele_count q + 1)"
    and "ring_decode q head k = Some xs" "nat k < length nows"
  shows "case xs of
      [] \<Rightarrow> sq_get_loop (map quiet nows) q rw head (head_pos q) buf_sz =
        Some (GetOut 0 [] None (if tail_pos q = head_pos q then q
                else clear_nodes (q\<lparr>head_pos := tail_pos q\<rparr>) (head_pos q) (tail_pos q)) 0)
    | (bs, tv) # ys \<Rightarrow> bs \<noteq> [] \<and> int (length bs) \<le> MAX_SQ_DATA_LENGTH \<and>
        (if buf_sz < int (length bs)
         then sq_get_loop (map quiet nows) q rw head (head_pos q) buf_sz =
              Some (GetOut (-2) [] (Some tv) q 0)
         else \<exists>d new. 0 < d \<and> d \<le> k \<and> new = (head + d) mod (ele_count q + 1) \<and>
              ring_decode q new (k - d) = Some ys \<and>
              sq_get_loop (map quiet nows) q rw head (head_pos q) buf_sz =
              Some (GetOut (int (length bs)) bs (Some tv)
                     (clear_nodes (q\<lparr>head_pos := new\<rparr>) (head_pos q) new) 0))"
  using assms
proof (induction nows arbitrary: head k rw)
  case Nil
  then show ?case by simp
next
  case (Cons now nows)
  let ?N = "ele_count q + 1"
  note wb = ring_wf_bounds [OF Cons.prems(1)]
  note sb = shape_wf_bounds [OF wb(5)]
  note m = cyc_le [OF sb(1)]
  have ne: "TOKEN_SKIPPED \<noteq> TOKEN_HAS_DATA" by (simp add: TOKEN_SKIPPED_def TOKEN_HAS_DATA_def)
  have q: "quiet now = \<lparr>ge_now = now, ge_recheck = (\<lambda>q. q), ge_cas = (\<lambda>q. q)\<rparr>" for now
    by (simp add: quiet_def)
  show ?case
  proof (cases "tail_pos q = head")
    case True
    with Cons.prems have "xs = []" by simp
    with True show ?thesis by (simp add: q CAS32_head_def)
  next
    case False
    have k: "0 < k" using False Cons.prems wb by (auto intro!: cyc_pos)
    from Cons.prems(5) k wb(5) show ?thesis
    proof (cases rule: ring_decode_cases)
      case skip
      let ?h = "(head + 1) mod ?N"
      have k': "(tail_pos q - ?h) mod ?N = k - 1"
        using k Cons.prems(4) cyc_dist_move [of 1 "tail_pos q" head ?N] sb by simp
      have step: "sq_get_loop (map quiet (now # nows)) q rw head (head_pos q) buf_sz =
          sq_get_loop (map quiet nows) q 0 ?h (head_pos q) buf_sz"
        using False skip(1) ne Cons.prems(2) wb(5) by (simp add: q SQ_ADD_POS_eq Let_def)
      have L: "nat (k - 1) < length nows" using Cons.prems(6) k by simp
      note IH = Cons.IH [OF Cons.prems(1) m(1) m(2) k' [symmetric] skip(2) L, of 0]
      show ?thesis
      proof (cases xs)
        case Nil
        with IH step show ?thesis by simp
      next
        case (Cons x ys)
        obtain bs tv where x: "x = (bs, tv)" by (cases x)
        show ?thesis
        proof (cases "buf_sz < int (length bs)")
          case True
          with IH step Cons x show ?thesis by simp
        next
          case False
          with IH Cons x obtain d where d: "0 < d" "d \<le> k - 1" "bs \<noteq> []" "int (length bs) \<le> MAX_SQ_DATA_LENGTH"
            "ring_decode q ((?h + d) mod ?N) (k - 1 - d) = Some ys"
            "sq_get_loop (map quiet nows) q 0 ?h (head_pos q) buf_sz =
              Some (GetOut (int (length bs)) bs (Some tv)
                (clear_nodes (q\<lparr>head_pos := (?h + d) mod ?N\<rparr>) (head_pos q) ((?h + d) mod ?N)) 0)"
            by auto
          have e: "(?h + d) mod ?N = (head + (d + 1)) mod ?N" by (simp add: mod_simps algebra_simps)
          have "ring_decode q ((head + (d + 1)) mod ?N) (k - (d + 1)) = Some ys"
            using d(5) e by (simp add: algebra_simps)
          then show ?thesis
            using d(1-4) d(6) [unfolded e] step Cons x False
            by (auto intro!: exI [of _ "d + 1"])
        qed
      qed
    next
      case (item n dl ys)
      have used: "SQ_USED_NODES2 q head = k"
        using Cons.prems wb by (simp add: SQ_USED_NODES2_eq)
      have len: "length (node_data q head (nat dl)) = nat dl" by (simp add: node_data_def)
      have pos: "SQ_ADD_POS q head n = (head + n) mod ?N"
        using Cons.prems(2) item wb(5) by (simp add: SQ_ADD_POS_eq)
      have "node_data q head (nat dl) \<noteq> []" using len item(5) by auto
      moreover have "sq_get_loop (map quiet (now # nows)) q rw head (head_pos q) buf_sz =
          (if buf_sz < dl then Some (GetOut (-2) [] (Some (node_time q head)) q 0)
           else Some (GetOut dl (node_data q head (nat dl)) (Some (node_time q head))
                 (clear_nodes (q\<lparr>head_pos := (head + n) mod ?N\<rparr>) (head_pos q) ((head + n) mod ?N)) 0))"
        using False item(1,5,8) used pos
        by (simp add: q CAS32_head_def Let_def item(2) [symmetric] item(4) [symmetric])
      ultimately show ?thesis
        using item len by (auto intro!: exI [of _ n])
    qed
  qed
qed

end
