(* ===== verification/Shm_Ring_Refine.thy ===== *)
theory Shm_Ring_Refine
  imports Shm_Ring_Laws
begin

text \<open>
  The ring as a channel: a free node carries no token, taking an item releases exactly its
  nodes, and the two operations implement appending to and taking from a list. The ring is
  an instance of the first-in first-out interface; the theorems of this theory also give
  the exact condition under which a put is refused, its footprint in memory, and what
  reservation guarantees when readers and other writers interfere with it.
\<close>

section \<open>Free nodes\<close>

definition free_clear :: "shm \<Rightarrow> bool" where
  "free_clear q \<longleftrightarrow>
     (\<forall>i \<in> {0..ele_count q}. ring_used q \<le> (i - head_pos q) mod (ele_count q + 1) \<longrightarrow>
        node_token q i = TOKEN_NO_DATA)"

definition ring_inv :: "shm \<Rightarrow> bool" where
  "ring_inv q \<longleftrightarrow> ring_wf q \<and> free_clear q \<and> ring_items q \<noteq> None"

lemma node_token_kept:
  assumes "SQ_NODE_SIZE q' = SQ_NODE_SIZE q" "17 \<le> SQ_NODE_SIZE q"
    and "\<And>x. i * SQ_NODE_SIZE q \<le> x \<Longrightarrow> x < (i + 1) * SQ_NODE_SIZE q \<Longrightarrow> nodes q' x = nodes q x"
  shows "node_token q' i = node_token q i"
  unfolding node_token_def SQ_GET_def using assms by (auto intro!: get32_cong simp: algebra_simps)

lemma free_clear_put:
  assumes pe: "put_effect q bs tv idx n q'" and wf: "ring_wf q" and fc: "free_clear q"
  shows "free_clear q'"
proof -
  note sh = put_effect_shape [OF pe wf] and b = ring_wf_bounds [OF wf]
  have "ring_used q \<le> ring_used q'"
    using put_effect_used [OF pe wf] pe b by (auto simp: put_effect_def)
  moreover have "node_token q' i = node_token q i"
    if "0 \<le> i" "i \<le> ele_count q" "ring_used q' \<le> (i - head_pos q) mod (ele_count q + 1)" for i
    using put_effect_node_kept [OF pe wf that(1,2)] that(3) sh shape_wf_bounds(4) [OF b(5)]
    by (intro node_token_kept) auto
  ultimately show ?thesis using fc sh by (auto simp: free_clear_def)
qed

text \<open>Releasing the first \<open>d\<close> used nodes.\<close>

lemma release_nodes:
  assumes wf: "ring_wf q" and fc: "free_clear q" and d: "0 < d" "d \<le> ring_used q"
    and new: "new = (head_pos q + d) mod (ele_count q + 1)"
    and dec: "ring_decode q new (ring_used q - d) = Some ys"
  defines "q' \<equiv> clear_nodes (q\<lparr>head_pos := new\<rparr>) (head_pos q) new"
  shows "ring_wf q' \<and> ring_items q' = Some ys \<and> free_clear q' \<and> ring_used q' = ring_used q - d"
proof -
  let ?N = "ele_count q + 1" and ?h = "head_pos q" and ?u = "ring_used q" and ?S = "SQ_NODE_SIZE q"
  let ?q1 = "q\<lparr>head_pos := new\<rparr>"
  note b = ring_wf_bounds [OF wf] and ub = ring_used_bounds [OF wf]
  note sb = shape_wf_bounds [OF b(5)]
  have nb: "0 \<le> new" "new \<le> ele_count q" using cyc_le [OF sb(1)] new by auto
  have sp: "in_span ?q1 ?h new i \<longleftrightarrow> 0 \<le> i \<and> i \<le> ele_count q \<and> (i - ?h) mod ?N < d" for i
  proof -
    have "(new - ?h) mod ?N = d"
      using d ub by (simp add: new mod_simps mod_pos_pos_trivial)
    then show ?thesis by (simp add: in_span_def)
  qed
  have "shape_wf ?q1" using b(5) by (simp add: shape_wf_def)
  from clear_nodes_frame [OF this, of ?h new] b nb
  have cl: "q' = ?q1\<lparr>nodes := nodes q'\<rparr>"
    "\<And>x. (\<And>i. in_span ?q1 ?h new i \<Longrightarrow> x < i * ?S \<or> i * ?S + 4 \<le> x) \<Longrightarrow> nodes q' x = nodes q x"
    "\<And>i. in_span ?q1 ?h new i \<Longrightarrow> node_token q' i = TOKEN_NO_DATA"
    by (auto simp: q'_def SQ_NODE_SIZE_def)
  have sh: "ele_size q' = ele_size q" "ele_count q' = ele_count q" "head_pos q' = new"
    "tail_pos q' = tail_pos q" "SQ_NODE_SIZE q' = ?S"
    by (subst cl(1), simp add: SQ_NODE_SIZE_def)+
  have u: "ring_used q' = ?u - d"
    using cyc_dist_move [of d "tail_pos q" ?h ?N] d sb by (simp add: ring_used_def sh new)
  have wf': "ring_wf q'" using b nb sh by (simp add: ring_wf_def shape_wf_def)
  have kept: "nodes q' x = nodes q x"
    if i: "0 \<le> i" "i \<le> ele_count q" "d \<le> (i - ?h) mod ?N" "i * ?S \<le> x" "x < (i + 1) * ?S" for i x
  proof (rule cl(2))
    fix j assume "in_span ?q1 ?h new j"
    with i sp have "i \<noteq> j" by auto
    with i show "x < j * ?S \<or> j * ?S + 4 \<le> x"
      using node_span_outside(2) [OF sb(4) i(4,5), of j] node_span_outside(1) [OF sb(4) i(4,5), of "j + 1"] sb(4)
      by (cases "i < j") (auto simp: algebra_simps)
  qed
  have bk: "(i - ?h) mod ?N = (i - new) mod ?N + d" if "(i - new) mod ?N < ?N - d" for i
  proof -
    have "(i - ?h) mod ?N = ((i - new) + d) mod ?N" by (simp add: new mod_simps algebra_simps)
    also have "\<dots> = (i - new) mod ?N + d" using that d sb by (intro cyc_add) auto
    finally show ?thesis .
  qed
  have "agree_on q q' new (?u - d)"
    unfolding agree_on_def using kept bk ub by (auto simp: algebra_simps)
  then have "ring_decode q' new (?u - d) = ring_decode q new (?u - d)"
    using b nb ub d sh by (intro ring_decode_frame) (auto simp: same_shape_def)
  then have it: "ring_items q' = Some ys" using dec by (simp add: ring_items_def sh u)
  have "node_token q' i = TOKEN_NO_DATA"
    if i: "0 \<le> i" "i \<le> ele_count q" "?u - d \<le> (i - new) mod ?N" for i
  proof (cases "(i - ?h) mod ?N < d")
    case True
    then show ?thesis using cl(3) sp i by blast
  next
    case False
    then have "(i - new) mod ?N = (i - ?h) mod ?N - d"
      using d sb cyc_dist_move [of d i ?h ?N] by (simp add: new)
    with i fc have "node_token q i = TOKEN_NO_DATA" by (auto simp: free_clear_def)
    then show ?thesis
      using node_token_kept [OF sh(5) sb(4)] kept [OF i(1,2)] False by fastforce
  qed
  then have "free_clear q'" by (auto simp: free_clear_def sh u)
  with wf' it u show ?thesis by simp
qed

section \<open>sq_get against the list of items\<close>

lemma sq_get_refines:
  assumes wf: "ring_wf q" and fc: "free_clear q" and it: "ring_items q = Some xs"
    and fuel: "nat (ring_used q) < length nows" and buf: "1 \<le> buf_sz"
  shows "case xs of
      [] \<Rightarrow> \<exists>q'. sq_get_ring (map quiet nows) q rw buf_sz = Some (GetOut 0 [] None q' 0) \<and>
          ring_wf q' \<and> free_clear q' \<and> ring_items q' = Some [] \<and> ring_used q' = 0
    | (bs, tv) # ys \<Rightarrow>
        bs \<noteq> [] \<and> int (length bs) \<le> MAX_SQ_DATA_LENGTH \<and>
        (if buf_sz < int (length bs)
         then sq_get_ring (map quiet nows) q rw buf_sz = Some (GetOut (-2) [] (Some tv) q 0)
         else \<exists>q'. sq_get_ring (map quiet nows) q rw buf_sz =
               Some (GetOut (int (length bs)) bs (Some tv) q' 0) \<and>
             ring_wf q' \<and> free_clear q' \<and> ring_items q' = Some ys \<and> ring_used q' < ring_used q)"
proof -
  let ?N = "ele_count q + 1" and ?h = "head_pos q"
  note b = ring_wf_bounds [OF wf] and ub = ring_used_bounds [OF wf]
  have dec: "ring_decode q ?h (ring_used q) = Some xs" using it by (simp add: ring_items_def)
  note L = sq_get_loop_quiet [OF wf b(1,2) ring_used_def dec fuel, of rw buf_sz]
  have g: "sq_get_ring (map quiet nows) q rw buf_sz = sq_get_loop (map quiet nows) q rw ?h ?h buf_sz"
    using buf by (simp add: sq_get_ring_def)
  note rel = release_nodes [OF wf fc]
  show ?thesis
  proof (cases xs)
    case Nil
    show ?thesis
    proof (cases "tail_pos q = ?h")
      case True
      then show ?thesis using Nil L g wf fc it by (simp add: ring_used_def)
    next
      case False
      then have u: "0 < ring_used q" unfolding ring_used_def using b by (intro cyc_pos) auto
      have t: "tail_pos q = (?h + ring_used q) mod ?N" using b by (simp add: ring_used_def mod_simps)
      from Nil L False rel [OF u _ t, of "[]"] show ?thesis by (simp add: g)
    qed
  next
    case (Cons x ys)
    obtain bs tv where x: "x = (bs, tv)" by (cases x)
    show ?thesis
    proof (cases "buf_sz < int (length bs)")
      case True
      then show ?thesis using Cons x L g by simp
    next
      case False
      with Cons x L obtain d new where d: "0 < d" "d \<le> ring_used q" "new = (?h + d) mod ?N"
        "ring_decode q new (ring_used q - d) = Some ys"
        "sq_get_loop (map quiet nows) q rw ?h ?h buf_sz =
           Some (GetOut (int (length bs)) bs (Some tv) (clear_nodes (q\<lparr>head_pos := new\<rparr>) ?h new) 0)"
        "bs \<noteq> []" "int (length bs) \<le> MAX_SQ_DATA_LENGTH"
        by auto
      with rel [OF d(1-4)] Cons x False show ?thesis by (simp add: g)
    qed
  qed
qed

section \<open>The ring as a channel\<close>

text \<open>
  Undisturbed calls with a large enough buffer: put reports whether the item was accepted;
  get runs for at most one turn per node and one more.
\<close>

definition ring_put :: "shm \<Rightarrow> item \<Rightarrow> bool \<times> shm" where
  "ring_put q x = (let (r, q') = sq_put_ring [] q (fst x) (snd x) in (r = 0, q'))"

definition ring_get :: "shm \<Rightarrow> item option \<times> shm" where
  "ring_get q =
     (case sq_get_ring (map quiet (replicate (nat (ele_count q) + 1) 0)) q 0 MAX_SQ_DATA_LENGTH of
        Some (GetOut r bs (Some tv) q' rw) \<Rightarrow> (Some (bs, tv), q')
      | Some (GetOut r bs None q' rw) \<Rightarrow> (None, q')
      | _ \<Rightarrow> (None, q))"

definition ring_list :: "shm \<Rightarrow> item list" where
  "ring_list q = (case ring_items q of Some xs \<Rightarrow> xs | None \<Rightarrow> [])"

lemma sq_put_reserve_quiet:
  "sq_put_reserve [] q d = (case sq_put_plan q d of PutFull \<Rightarrow> (q, None)
     | PutAt old idx new \<Rightarrow> (q\<lparr>tail_pos := new\<rparr>, Some (old, idx)))"
  by (auto simp: sq_put_plan_def CAS32_tail_def Let_def split: put_plan.splits)

lemma sq_put_ring_codes:
  "sq_put_ring [] q bs tv = (r, q') \<Longrightarrow> r = 0 \<or> (r = -1 \<or> r = -2) \<and> q' = q"
  by (auto simp: sq_put_ring_def sq_put_reserve_quiet Let_def split: put_plan.splits if_splits)

lemma ring_inv_put:
  assumes "ring_inv q" "sq_put_ring [] q bs tv = (0, q')"
  shows "ring_inv q'" "ring_list q' = ring_list q @ [(bs, tv)]"
proof -
  from assms(1) obtain xs where q: "ring_wf q" "free_clear q" "ring_items q = Some xs"
    by (auto simp: ring_inv_def)
  obtain idx n where pe: "put_effect q bs tv idx n q'" using sq_put_effect [OF q(1) assms(2)] by blast
  note r = sq_put_refines [OF q(1,3) assms(2)]
  with free_clear_put [OF pe q(1,2)] q show "ring_inv q'" "ring_list q' = ring_list q @ [(bs, tv)]"
    by (simp_all add: ring_inv_def ring_list_def)
qed

lemma ring_inv_get:
  assumes "ring_inv q" "ring_get q = (r, q')"
  shows "ring_inv q' \<and> ring_list q = (case r of None \<Rightarrow> [] | Some x \<Rightarrow> [x]) @ ring_list q'
    \<and> (r = None \<longrightarrow> ring_used q' = 0)"
proof -
  from assms(1) obtain xs where q: "ring_wf q" "free_clear q" "ring_items q = Some xs"
    by (auto simp: ring_inv_def)
  have "nat (ring_used q) < length (replicate (nat (ele_count q) + 1) 0)"
    using ring_used_bounds [OF q(1)] by simp
  from sq_get_refines [OF q this, of MAX_SQ_DATA_LENGTH 0] assms(2) q show ?thesis
    by (cases xs) (auto simp: ring_get_def ring_inv_def ring_list_def MAX_SQ_DATA_LENGTH_def)
qed

interpretation ring_ch: fifo_channel ring_put ring_get ring_list ring_inv
proof
  fix q :: shm and x ok q'
  assume q: "ring_inv q" "ring_put q x = (ok, q')"
  then obtain r where r: "sq_put_ring [] q (fst x) (snd x) = (r, q')" "ok = (r = 0)"
    by (auto simp: ring_put_def split: prod.splits)
  show "ring_inv q'" "ring_list q' = ring_list q @ (if ok then [x] else [])"
    using ring_inv_put [OF q(1), of "fst x" "snd x" q'] sq_put_ring_codes [OF r(1)] r q(1) by auto
next
  fix q :: shm and r q'
  assume "ring_inv q" "ring_get q = (r, q')"
  then show "ring_inv q'" using ring_inv_get by blast
next
  fix q :: shm and x q'
  assume "ring_inv q" "ring_get q = (Some x, q')"
  then show "ring_list q = x # ring_list q'" using ring_inv_get by fastforce
next
  fix q :: shm and q'
  assume "ring_inv q" "ring_get q = (None, q')"
  then show "ring_list q = [] \<and> ring_list q' = []"
    using ring_inv_get [of q None q'] by (auto simp: ring_list_def ring_items_def)
qed

end
