(* ===== verification/Shm_Signal.thy ===== *)
theory Shm_Signal
  imports Shm_Ring_Refine
begin

text \<open>
  Signalling and the public calls of \<^verbatim>\<open>shm_queue.c\<close>: the registration of reader
  processes, the event pipes, the complete \<^verbatim>\<open>sq_put\<close> with its signalling loop,
  \<^verbatim>\<open>sq_put_wait\<close>, \<^verbatim>\<open>sq_get\<close> on a handle and the usage counters. Whether
  a process lives, what \<^verbatim>\<open>mkfifo\<close> and \<^verbatim>\<open>open\<close> return and the clock
  are the fields of a world record. Message texts are not part of the state.
\<close>

unbundle bit_operations_syntax

section \<open>State\<close>

record sq_handle =
  qhead :: shm
  sig_idx :: int
  poll_fd :: int
  poll_fdset :: "int list"
  fifo_times :: "int list"
  sq_key :: int
  rw_conflict_time :: int
  sq_id :: int

record sq_world =
  proc_exists :: "int \<Rightarrow> bool"
  mkfifo_errno :: "int \<Rightarrow> int"
  open_fifo :: "int \<Rightarrow> bool \<Rightarrow> int"
  w_time :: int

definition is_pid_valid :: "sq_world \<Rightarrow> int \<Rightarrow> bool" where
  "is_pid_valid w pid \<longleftrightarrow> pid \<noteq> 0 \<and> proc_exists w pid"

definition E_EXIST :: int where "E_EXIST = 17"

definition create_fifo :: "sq_world \<Rightarrow> int \<Rightarrow> bool \<Rightarrow> int" where
  "create_fifo w idx is_reading =
     (if mkfifo_errno w idx \<noteq> 0 \<and> mkfifo_errno w idx \<noteq> E_EXIST then -1
      else let ret = open_fifo w idx is_reading in if ret = -1 then -2 else ret)"

section \<open>Signal mask\<close>

definition uint32_lt :: "int \<Rightarrow> int \<Rightarrow> bool" where
  "uint32_lt a b \<longleftrightarrow> a mod 2 ^ 32 < b mod 2 ^ 32"

definition mask_bit :: "shm \<Rightarrow> nat \<Rightarrow> bool" where
  "mask_bit q i \<longleftrightarrow> sigmask q ! (i div 8) AND push_bit (i mod 8) 1 \<noteq> 0"

definition sq_set_sig_on :: "shm \<Rightarrow> int \<Rightarrow> int \<times> shm" where
  "sq_set_sig_on q i =
     (if uint32_lt i (pidnum q) then
        (let k = nat i
         in (0, q\<lparr>sigmask := (sigmask q)[k div 8 := sigmask q ! (k div 8) OR push_bit (k mod 8) 1]\<rparr>))
      else (-1, q))"

definition sq_set_sig_off :: "shm \<Rightarrow> int \<Rightarrow> int \<times> shm" where
  "sq_set_sig_off q i =
     (if uint32_lt i (pidnum q) then
        (let k = nat i
         in (0, q\<lparr>sigmask := (sigmask q)[k div 8 := sigmask q ! (k div 8) AND NOT (push_bit (k mod 8) 1)]\<rparr>))
      else (-1, q))"

definition sq_sigon :: "sq_handle \<Rightarrow> int \<times> sq_handle" where
  "sq_sigon sq = (let (r, q) = sq_set_sig_on (qhead sq) (sig_idx sq)
                  in if r \<noteq> 0 then (-1, sq\<lparr>qhead := q\<rparr>) else (0, sq\<lparr>qhead := q\<rparr>))"

definition sq_sigoff :: "sq_handle \<Rightarrow> int \<times> sq_handle" where
  "sq_sigoff sq = (let (r, q) = sq_set_sig_off (qhead sq) (sig_idx sq)
                   in if r \<noteq> 0 then (-1, sq\<lparr>qhead := q\<rparr>) else (0, sq\<lparr>qhead := q\<rparr>))"

definition sq_get_shmid :: "sq_handle option \<Rightarrow> int" where
  "sq_get_shmid osq = (case osq of None \<Rightarrow> -1 | Some sq \<Rightarrow> sq_id sq)"

section \<open>Registered processes\<close>

text \<open>The two loops of \<^verbatim>\<open>verify_and_remove_bad_pids\<close>: the registered count shrinks past
  dead processes at the end; the rest of the dead ones are blanked.\<close>

fun drop_dead_tail :: "sq_world \<Rightarrow> nat \<Rightarrow> shm \<Rightarrow> nat \<times> shm" where
  "drop_dead_tail w 0 q = (0, q)"
| "drop_dead_tail w (Suc i) q =
     (if is_pid_valid w (pidset q ! i) then (Suc i, q)
      else drop_dead_tail w i ((snd (sq_set_sig_off q (int i)))\<lparr>pidnum := int i\<rparr>))"

fun blank_dead :: "sq_world \<Rightarrow> nat \<Rightarrow> shm \<Rightarrow> shm" where
  "blank_dead w 0 q = q"
| "blank_dead w (Suc i) q =
     (if is_pid_valid w (pidset q ! i) then blank_dead w i q
      else blank_dead w i ((snd (sq_set_sig_off q (int i)))\<lparr>pidset := (pidset q)[i := 0]\<rparr>))"

definition verify_and_remove_bad_pids :: "sq_world \<Rightarrow> shm \<Rightarrow> shm" where
  "verify_and_remove_bad_pids w q =
     (let q0 = (if pidnum q < 0 \<or> SQ_MAX_READER_PROC_NUM < pidnum q
                then q\<lparr>pidnum := SQ_MAX_READER_PROC_NUM\<rparr> else q);
          (n, q1) = drop_dead_tail w (nat (pidnum q0)) q0
      in blank_dead w (n - 1) q1)"

text \<open>Index of the first registered entry with the given pid.\<close>

fun find_pid :: "int list \<Rightarrow> nat \<Rightarrow> int \<Rightarrow> nat option" where
  "find_pid ps 0 pid = None"
| "find_pid [] (Suc n) pid = None"
| "find_pid (p # ps) (Suc n) pid = (if p = pid then Some 0 else map_option Suc (find_pid ps n pid))"

definition register_pid :: "shm \<Rightarrow> int \<Rightarrow> (nat \<times> shm) option" where
  "register_pid q pid =
     (case find_pid (pidset q) (nat (pidnum q)) pid of
        Some i \<Rightarrow> Some (i, q)
      | None \<Rightarrow>
          (case find_pid (pidset q) (nat (pidnum q)) 0 of
             Some i \<Rightarrow> Some (i, q\<lparr>pidset := (pidset q)[i := pid]\<rparr>)
           | None \<Rightarrow>
               if SQ_MAX_READER_PROC_NUM \<le> pidnum q then None
               else Some (nat (pidnum q), q\<lparr>pidnum := pidnum q + 1,
                                             pidset := (pidset q)[nat (pidnum q) := pid]\<rparr>)))"

definition sq_get_eventfd :: "sq_world \<Rightarrow> int \<Rightarrow> sq_handle \<Rightarrow> int \<times> sq_handle" where
  "sq_get_eventfd w pid sq =
     (if 0 \<le> sig_idx sq \<and> 0 < poll_fd sq then (poll_fd sq, sq)
      else
        (let q = verify_and_remove_bad_pids w (qhead sq)
         in case register_pid q pid of
              None \<Rightarrow> (-1, sq\<lparr>qhead := q\<rparr>)
            | Some (i, q') \<Rightarrow>
                (let fd = create_fifo w (int i) True
                 in if fd < 0 then (-1, sq\<lparr>qhead := q', sig_idx := -1, poll_fd := 0\<rparr>)
                    else (fd, sq\<lparr>qhead := q', sig_idx := int i, poll_fd := fd\<rparr>))))"

text \<open>The number of bytes asked of the pipe, or the error.\<close>

definition sq_consume_event_ext :: "sq_handle \<Rightarrow> int \<Rightarrow> int \<times> int option" where
  "sq_consume_event_ext sq nr_events =
     (let nr = (if nr_events \<le> 0 then 64 else if 1024 < nr_events then 1024 else nr_events)
      in if 0 < poll_fd sq then (0, Some nr) else (-1, None))"

definition sq_consume_event :: "sq_handle \<Rightarrow> int \<times> int option" where
  "sq_consume_event sq = sq_consume_event_ext sq 0"

section \<open>Signalling a process\<close>

text \<open>The returned code, the handle, and whether a byte was written to the pipe.\<close>

definition signal_process :: "sq_world \<Rightarrow> sq_handle \<Rightarrow> nat \<Rightarrow> int \<times> sq_handle \<times> bool" where
  "signal_process w sq i =
     (let sq1 =
        (if poll_fdset sq ! i \<le> 0 \<and> (fifo_times sq ! i = 0 \<or> fifo_times sq ! i + 60 \<le> w_time w)
         then sq\<lparr>fifo_times := (fifo_times sq)[i := w_time w],
                 poll_fdset := (poll_fdset sq)[i := create_fifo w (int i) False]\<rparr>
         else sq);
          q = qhead sq1
      in if 0 < poll_fdset sq1 ! i then
           (if siglock q ! i = 0 \<or> 10 < signr q ! i
            then (0, sq1\<lparr>qhead := q\<lparr>signr := (signr q)[i := 0], siglock := (siglock q)[i := 0]\<rparr>\<rparr>, True)
            else (0, sq1\<lparr>qhead := q\<lparr>signr := (signr q)[i := signr q ! i + 1]\<rparr>\<rparr>, False))
         else (-1, sq1, False))"

section \<open>sq_put and sq_put_wait\<close>

text \<open>The loop over the registered processes: \<open>k\<close> of them are left, \<open>nr\<close> were
  signalled. The result lists the processes signalled, in order.\<close>

fun signal_loop :: "sq_world \<Rightarrow> nat \<Rightarrow> nat \<Rightarrow> int \<Rightarrow> sq_handle \<Rightarrow> sq_handle \<times> nat list" where
  "signal_loop w 0 i nr sq = (sq, [])"
| "signal_loop w (Suc k) i nr sq =
     (if nr < sig_process_num (qhead sq) then
        (if pidset (qhead sq) ! i \<noteq> 0 \<and> mask_bit (qhead sq) i then
           (let (r, sq1, wr) = signal_process w sq i;
                sq2 = sq1\<lparr>qhead := snd (sq_set_sig_off (qhead sq1) (int i))\<rparr>;
                (sq3, is) = signal_loop w k (Suc i) (nr + 1) sq2
            in (sq3, i # is))
         else signal_loop w k (Suc i) nr sq)
      else (sq, []))"

definition sq_put :: "sq_world \<Rightarrow> (shm \<Rightarrow> shm) list \<Rightarrow> sq_handle \<Rightarrow> byte list \<Rightarrow> u32 \<times> u32
    \<Rightarrow> int \<times> sq_handle \<times> nat list" where
  "sq_put w envs sq bs tv =
     (let (r, q) = sq_put_ring envs (qhead sq) bs tv;
          sq1 = sq\<lparr>qhead := q\<rparr>
      in if r \<noteq> 0 then (r, sq1, [])
         else if sig_node_num q \<noteq> 0 \<and> sig_node_num q \<le> SQ_USED_NODES q then
           (let (sq2, is) = signal_loop w (nat (pidnum q)) 0 0 sq1 in (0, sq2, is))
         else (0, sq1, []))"

text \<open>
  A turn of the waiting loop: the clock (seconds, microseconds) after the attempt and what
  other processes do while this one sleeps. The list bounds the number of turns.
\<close>

definition tv_diff_ms :: "int \<times> int \<Rightarrow> int \<times> int \<Rightarrow> int" where
  "tv_diff_ms tv tv2 = (fst tv2 - fst tv) * 1000 + c_div (snd tv2 - snd tv) 1000"

fun sq_put_wait_loop :: "sq_world \<Rightarrow> ((int \<times> int) \<times> (shm \<Rightarrow> shm)) list \<Rightarrow> sq_handle \<Rightarrow> byte list
    \<Rightarrow> u32 \<times> u32 \<Rightarrow> int \<times> int \<Rightarrow> int \<Rightarrow> (int \<times> sq_handle \<times> nat list) option" where
  "sq_put_wait_loop w [] sq bs tv start time_ms = None"
| "sq_put_wait_loop w ((now, other) # turns) sq bs tv start time_ms =
     (let (r, sq1, is) = sq_put w [] sq bs tv
      in if r \<noteq> -2 then Some (r, sq1, is)
         else if time_ms < tv_diff_ms start now then Some (-2, sq1, is)
         else sq_put_wait_loop w turns (sq1\<lparr>qhead := other (qhead sq1)\<rparr>) bs tv start time_ms)"

definition sq_put_wait :: "sq_world \<Rightarrow> ((int \<times> int) \<times> (shm \<Rightarrow> shm)) list \<Rightarrow> sq_handle \<Rightarrow> byte list
    \<Rightarrow> u32 \<times> u32 \<Rightarrow> int \<times> int \<Rightarrow> int \<Rightarrow> (int \<times> sq_handle \<times> nat list) option" where
  "sq_put_wait w turns sq bs tv start time_ms =
     (if time_ms \<le> 0 then Some (sq_put w [] sq bs tv)
      else sq_put_wait_loop w turns sq bs tv start time_ms)"

section \<open>sq_get and usage\<close>

definition sq_get :: "get_env list \<Rightarrow> sq_handle \<Rightarrow> int
    \<Rightarrow> (int \<times> byte list \<times> (u32 \<times> u32) option \<times> sq_handle) option" where
  "sq_get envs sq buf_sz =
     (case sq_get_ring envs (qhead sq) (rw_conflict_time sq) buf_sz of
        Some (GetOut r bs tv q rw) \<Rightarrow> Some (r, bs, tv, sq\<lparr>qhead := q, rw_conflict_time := rw\<rparr>)
      | _ \<Rightarrow> None)"

definition sq_get_usage :: "sq_handle option \<Rightarrow> int" where
  "sq_get_usage osq =
     (case osq of None \<Rightarrow> 0
      | Some sq \<Rightarrow> (let q = qhead sq
          in if ele_count q \<noteq> 0 then c_div (to_i32 (SQ_USED_NODES q * 100)) (ele_count q) else 0))"

definition sq_get_used_blocks :: "sq_handle option \<Rightarrow> int" where
  "sq_get_used_blocks osq = (case osq of None \<Rightarrow> 0 | Some sq \<Rightarrow> SQ_USED_NODES (qhead sq))"

end
