(* ===== verification/Shm_Ring_Thms.thy ===== *)
theory Shm_Ring_Thms
  imports Shm_Ring_Refine
begin

text \<open>
  The properties of the ring: the refinement of put and get by a list, the history theorem
  of the channel interface, the exact refusal condition, the memory footprint, reservation
  under interference, and two weaknesses of the protocol.
\<close>

section \<open>A concrete ring\<close>

definition ring0 :: "int \<Rightarrow> shm" where
  "ring0 pos = \<lparr>ele_size = 16, ele_count = 30, head_pos = pos, tail_pos = pos, sig_node_num = 1,
     sig_process_num = 1, pidnum = 0, pidset = [], sigmask = [], siglock = [], signr = [],
     nodes = (\<lambda>x. 0)\<rparr>"

lemma ring0_inv: "0 \<le> pos \<Longrightarrow> pos \<le> 30 \<Longrightarrow> ring_inv (ring0 pos) \<and> ring_list (ring0 pos) = []"
  by (simp add: ring0_def ring_inv_def ring_list_def ring_items_def ring_used_def ring_wf_def shape_wf_def
      free_clear_def RESERVE_BLOCK_COUNT_def node_token_def get32_def TOKEN_NO_DATA_def)

section \<open>Put and get\<close>

text \<open>C1. A successful undisturbed put keeps the ring well formed and appends exactly the
  given bytes with their time to the stored items, in one piece, also when the item wraps.\<close>

theorem sq_put_appends:
  assumes "ring_inv q" "sq_put_ring [] q bs tv = (0, q')"
  shows "ring_inv q' \<and> ring_list q' = ring_list q @ [(bs, tv)]"
  using ring_inv_put [OF assms] by simp

lemma ring0_put: "sq_put_ring [] (ring0 28) [1, 2, 3] (7, 8) =
    (0, sq_put_write (ring0 28\<lparr>tail_pos := 29\<rparr>) 28 [1, 2, 3] (7, 8))"
  by (simp add: sq_put_ring_def MAX_SQ_DATA_LENGTH_def sq_put_plan_def SQ_NUM_NEEDED_NODES_def
      SQ_NODE_SIZE_def SQ_NODE_HEAD_SIZE_def ring0_def size_t_def to_i32_def SQ_EMPTY_NODES_def
      SQ_ADD_TAIL_def c_rem_def c_div_def RESERVE_BLOCK_COUNT_def CAS32_tail_def Let_def)

theorem sq_put_appends_witness:
  "ring_list (sq_put_write (ring0 28\<lparr>tail_pos := 29\<rparr>) 28 [1, 2, 3] (7, 8)) = [([1, 2, 3], 7, 8)]"
  using sq_put_appends [OF _ ring0_put] ring0_inv [of 28] by simp

text \<open>C2. An undisturbed get returns within the number of used nodes plus one turns. On an
  empty ring it returns 0; otherwise it copies the oldest item with its time and removes
  it, or, when the caller's buffer is too small, returns -2 and leaves the ring as it was.\<close>

theorem sq_get_takes_oldest:
  assumes "ring_inv q" "nat (ring_used q) < length nows" "1 \<le> buf_sz"
  shows "case ring_list q of
      [] \<Rightarrow> \<exists>q'. sq_get_ring (map quiet nows) q rw buf_sz = Some (GetOut 0 [] None q' 0)
          \<and> ring_inv q' \<and> ring_list q' = []
    | (bs, tv) # ys \<Rightarrow>
        (if buf_sz < int (length bs)
         then sq_get_ring (map quiet nows) q rw buf_sz = Some (GetOut (-2) [] (Some tv) q 0)
         else \<exists>q'. sq_get_ring (map quiet nows) q rw buf_sz =
               Some (GetOut (int (length bs)) bs (Some tv) q' 0) \<and> ring_inv q' \<and> ring_list q' = ys)"
proof -
  from assms(1) obtain xs where q: "ring_wf q" "free_clear q" "ring_items q = Some xs"
    by (auto simp: ring_inv_def)
  from sq_get_refines [OF q assms(2,3), of rw] q(3) show ?thesis
    by (auto simp: ring_inv_def ring_list_def split: list.splits)
qed

theorem sq_get_takes_oldest_witness:
  "\<exists>q'. sq_get_ring (map quiet [0, 0]) (snd (sq_put_ring [] (ring0 28) [1, 2, 3] (7, 8))) 0 3 =
       Some (GetOut 3 [1, 2, 3] (Some (7, 8)) q' 0) \<and> ring_list q' = []"
proof -
  let ?q = "sq_put_write (ring0 28\<lparr>tail_pos := 29\<rparr>) 28 [1, 2, 3] (7, 8)"
  note q = ring_inv_put [OF conjunct1 [OF ring0_inv] ring0_put, simplified]
  have "ring_list ?q = [([1, 2, 3], 7, 8)]" using q(2) ring0_inv [of 28] by simp
  moreover have "ring_used ?q = 1" by (simp add: ring_used_def sq_put_write_def ring0_def Let_def)
  ultimately show ?thesis
    using sq_get_takes_oldest [OF q(1), of "[0, 0]" 3 0] by (auto simp: ring0_put)
qed

text \<open>C3. For every history of undisturbed puts and gets on an empty ring, what was
  delivered followed by what is still stored is exactly what was accepted, in order.\<close>

theorem ring_history_fifo:
  assumes "ring_inv q" "ring_list q = []" "ring_ch.run_chan q ops [] [] = (q', accepted, delivered)"
  shows "delivered @ ring_list q' = accepted"
  using ring_ch.run_chan_fifo [OF assms(1,3)] assms(2) by simp

theorem ring_history_fifo_witness:
  "\<exists>q' acc out. ring_ch.run_chan (ring0 28) [ChanPut ([1], 0, 0), ChanGet, ChanPut ([2], 0, 0)] [] []
      = (q', acc, out) \<and> out @ ring_list q' = acc"
proof -
  obtain q' acc out where
    r: "ring_ch.run_chan (ring0 28) [ChanPut ([1], 0, 0), ChanGet, ChanPut ([2], 0, 0)] [] [] = (q', acc, out)"
    by (cases "ring_ch.run_chan (ring0 28) [ChanPut ([1], 0, 0), ChanGet, ChanPut ([2], 0, 0)] [] []")
  show ?thesis using ring_history_fifo [OF _ _ r] ring0_inv [of 28] r by auto
qed

section \<open>Refusal, room and footprint\<close>

lemma tail_wrap:
  assumes "ring_wf q" "0 < n" "n \<le> ele_count q"
  shows "(tail_pos q + n) mod (ele_count q + 1) < tail_pos q \<longleftrightarrow> ele_count q < tail_pos q + n"
proof (cases "tail_pos q + n \<le> ele_count q")
  case True
  with assms ring_wf_bounds [OF assms(1)] show ?thesis by (simp add: mod_pos_pos_trivial)
next
  case False
  have "(tail_pos q + n - (ele_count q + 1)) mod (ele_count q + 1) = tail_pos q + n - (ele_count q + 1)"
    using False ring_wf_bounds [OF assms(1)] assms by (intro mod_pos_pos_trivial) auto
  then have "(tail_pos q + n) mod (ele_count q + 1) = tail_pos q + n - (ele_count q + 1)" by simp
  with False assms show ?thesis by simp
qed

text \<open>The return code of an undisturbed put, exactly: -1 for an empty or too long
  record, -2 when fewer than ten nodes would stay free or a wrapped record does not fit
  below the head, else 0; a refused put changes nothing.\<close>

lemma sq_put_code:
  assumes "ring_wf q"
  shows "let n = needed (SQ_NODE_SIZE q) (int (length bs)) in
     fst (sq_put_ring [] q bs tv) =
       (if bs = [] \<or> 32 * 1024 * 1024 < int (length bs) then -1
        else if ele_count q < ring_used q + n + 10 \<or> ele_count q < tail_pos q + n \<and> head_pos q \<le> n then -2
        else 0) \<and>
     (fst (sq_put_ring [] q bs tv) \<noteq> 0 \<longrightarrow> snd (sq_put_ring [] q bs tv) = q)"
proof -
  define n where "n = needed (SQ_NODE_SIZE q) (int (length bs))"
  note b = ring_wf_bounds [OF assms] and sb = shape_wf_bounds [OF ring_wf_bounds(5) [OF assms]]
  have n0: "0 < n" using needed_props(1) [OF sb(4)] n_def by simp
  show ?thesis
  proof (cases "bs = [] \<or> 32 * 1024 * 1024 < int (length bs)")
    case True
    then show ?thesis by (auto simp: sq_put_ring_def MAX_SQ_DATA_LENGTH_def)
  next
    case False
    then have nr: "SQ_NUM_NEEDED_NODES q (int (length bs)) = n"
      using b by (simp add: SQ_NUM_NEEDED_NODES_eq n_def MAX_SQ_DATA_LENGTH_def)
    have w: "SQ_ADD_TAIL q n < tail_pos q \<longleftrightarrow> ele_count q < tail_pos q + n"
      if "ring_used q + n + 10 \<le> ele_count q"
      using that n0 ring_used_bounds(1) [OF assms] tail_wrap [OF assms n0] by (simp add: SQ_ADD_TAIL_eq [OF assms])
    have "sq_put_plan q (int (length bs)) = PutFull \<longleftrightarrow>
        ele_count q < ring_used q + n + 10 \<or> ele_count q < tail_pos q + n \<and> head_pos q \<le> n"
      unfolding sq_put_plan_def Let_def nr SQ_EMPTY_NODES_eq [OF assms] RESERVE_BLOCK_COUNT_def
      using w n0 by auto
    with False show ?thesis
      unfolding n_def [symmetric] Let_def
      by (auto simp: sq_put_ring_def sq_put_reserve_quiet MAX_SQ_DATA_LENGTH_def Let_def
          split: put_plan.splits)
  qed
qed

lemma sq_put_code_example:
  "fst (sq_put_ring [] (ring0 16) (replicate 400 0) (0, 0)) = 0 \<and>
   fst (sq_put_ring [] (ring0 16) (replicate 900 0) (0, 0)) = -2"
  using sq_put_code [of "ring0 16" "replicate 400 0" "(0, 0)"] sq_put_code [of "ring0 16" "replicate 900 0" "(0, 0)"]
  by (simp add: ring0_def ring_wf_def shape_wf_def RESERVE_BLOCK_COUNT_def needed_def SQ_NODE_SIZE_def
      SQ_NODE_HEAD_SIZE_def ring_used_def)



text \<open>C8. A record that needs more than half of the ring can be refused for ever: on an empty
  ring whose tail is in the middle, a put fails with -2 even though the record and the ten
  reserved nodes fit into the ring, and no get can change that.\<close>

theorem sq_put_stuck_on_empty:
  assumes "ring_wf q" "tail_pos q = head_pos q" "bs \<noteq> []" "int (length bs) \<le> MAX_SQ_DATA_LENGTH"
    and "ele_count q - tail_pos q < needed (SQ_NODE_SIZE q) (int (length bs))"
    and "tail_pos q \<le> needed (SQ_NODE_SIZE q) (int (length bs))"
    and "1 \<le> buf_sz"
  shows "sq_put_ring [] q bs tv = (-2, q)
    \<and> sq_get_ring (quiet now # nows) q rw buf_sz = Some (GetOut 0 [] None q 0)"
proof -
  let ?n = "needed (SQ_NODE_SIZE q) (int (length bs))"
  note b = ring_wf_bounds [OF assms(1)] and sb = shape_wf_bounds [OF ring_wf_bounds(5) [OF assms(1)]]
  have n0: "0 < ?n" using needed_props(1) [OF sb(4)] by simp
  have nr: "SQ_NUM_NEEDED_NODES q (int (length bs)) = ?n"
    using b assms by (simp add: SQ_NUM_NEEDED_NODES_eq)
  have "ring_used q = 0" using assms(2) by (simp add: ring_used_def)
  then have "sq_put_plan q (int (length bs)) = PutFull"
    unfolding sq_put_plan_def Let_def nr SQ_EMPTY_NODES_eq [OF assms(1)] RESERVE_BLOCK_COUNT_def
    using tail_wrap [OF assms(1) n0] assms n0 by (auto simp: SQ_ADD_TAIL_eq [OF assms(1)])
  then show ?thesis
    using assms by (auto simp: sq_put_ring_def sq_put_reserve_quiet sq_get_ring_def)
qed

theorem sq_put_stuck_on_empty_witness:
  "sq_put_ring [] (ring0 15) (replicate 500 0) (0, 0) = (-2, ring0 15) \<and>
   needed 32 500 + RESERVE_BLOCK_COUNT \<le> ele_count (ring0 15)"
proof -
  have "ring_wf (ring0 15)" using ring0_inv [of 15] by (simp add: ring_inv_def)
  moreover have "SQ_NODE_SIZE (ring0 15) = 32" "tail_pos (ring0 15) = 15" "head_pos (ring0 15) = 15"
    "ele_count (ring0 15) = 30"
    by (simp_all add: ring0_def SQ_NODE_SIZE_def SQ_NODE_HEAD_SIZE_def)
  ultimately show ?thesis
    using sq_put_stuck_on_empty [of "ring0 15" "replicate 500 0" 1 "(0, 0)"]
    by (simp add: MAX_SQ_DATA_LENGTH_def needed_def RESERVE_BLOCK_COUNT_def)
qed

section \<open>Reservation under interference\<close>

text \<open>
  What other processes may do between the reads of an attempt and its compare-and-swap:
  move the tail anywhere (another writer), or leave the tail and consume some of the used
  nodes (readers).
\<close>

definition other_processes :: "(shm \<Rightarrow> shm) \<Rightarrow> bool" where
  "other_processes e \<longleftrightarrow> (\<forall>q. ring_wf q \<longrightarrow> ring_wf (e q) \<and> same_shape q (e q)
     \<and> (tail_pos (e q) = tail_pos q \<longrightarrow> ring_used (e q) \<le> ring_used q))"

definition reserved_free :: "shm \<Rightarrow> int \<Rightarrow> int \<Rightarrow> int \<Rightarrow> bool" where
  "reserved_free q old idx n \<longleftrightarrow>
     (let used = (old - head_pos q) mod (ele_count q + 1)
      in tail_pos q = idx + n \<and> 0 \<le> idx \<and> idx + n \<le> ele_count q \<and>
         (\<forall>i \<in> {idx..<idx + n}. used \<le> (i - head_pos q) mod (ele_count q + 1)) \<and>
         (idx = old \<or> idx = 0 \<and> (\<forall>i \<in> {old..ele_count q}. used \<le> (i - head_pos q) mod (ele_count q + 1))))"

lemma plan_safe_later:
  assumes wf: "ring_wf q" "ring_wf p" and ss: "same_shape q p" and t: "tail_pos p = tail_pos q"
    and u: "ring_used p \<le> ring_used q" and d: "0 < d" "d \<le> MAX_SQ_DATA_LENGTH"
    and plan: "sq_put_plan q d = PutAt old idx new"
  shows "reserved_free (p\<lparr>tail_pos := new\<rparr>) old idx (needed (SQ_NODE_SIZE q) d)"
    "ring_wf (p\<lparr>tail_pos := new\<rparr>)"
proof -
  let ?N = "ele_count q + 1" and ?h = "head_pos p" and ?t = "tail_pos q" and ?u = "ring_used p"
  define n where "n = needed (SQ_NODE_SIZE q) d"
  note pc = sq_put_plan_cases [OF wf(1) d plan, folded n_def]
  note b = ring_wf_bounds [OF wf(1)] ring_wf_bounds [OF wf(2)]
  have N: "ele_count p = ele_count q" using ss by (simp add: same_shape_def)
  have ud: "?u = (?t - ?h) mod ?N" by (simp add: ring_used_def t N)
  note ub = ring_used_bounds [OF wf(2)]
  show wf': "ring_wf (p\<lparr>tail_pos := new\<rparr>)"
    using wf(2) pc(3,4) b by (auto simp: ring_wf_def shape_wf_def N)
  show "reserved_free (p\<lparr>tail_pos := new\<rparr>) old idx n"
    using pc(4)
  proof
    assume a: "idx = ?t \<and> new = ?t + n \<and> new \<le> ele_count q"
    have "?u \<le> (i - ?h) mod ?N" if "?t \<le> i" "i < ?t + n" for i
      using cyc_span_outside [of ?t i n ?h ?N] that pc(2) u b by (simp add: ud)
    then show ?thesis
      using a pc(1,2) u b by (auto simp: reserved_free_def N ud Let_def)
  next
    assume a: "idx = 0 \<and> new = n \<and> ?t \<noteq> 0 \<and> n < head_pos q \<and> head_pos q \<le> ?t"
    have uq: "ring_used q = ?t - head_pos q" using a b by (simp add: ring_used_def mod_pos_pos_trivial)
    have h: "head_pos q \<le> ?h \<and> ?h \<le> ?t"
    proof (cases "?h \<le> ?t")
      case True
      then have "?u = ?t - ?h" using b by (simp add: ud mod_pos_pos_trivial)
      with True u uq show ?thesis by simp
    next
      case False
      then have "(?t - ?h + ?N) mod ?N = ?t - ?h + ?N" using b N by (intro mod_pos_pos_trivial) auto
      then have "?u = ?t - ?h + ?N" by (simp add: ud)
      with u uq a b N show ?thesis by simp
    qed
    have up: "?u = ?t - ?h" using h b by (simp add: ud mod_pos_pos_trivial)
    have low: "(i - ?h) mod ?N = i - ?h + ?N" if "0 \<le> i" "i < ?h" for i
    proof -
      have "(i - ?h + ?N) mod ?N = i - ?h + ?N" using that b N by (intro mod_pos_pos_trivial) auto
      then show ?thesis by simp
    qed
    have high: "(i - ?h) mod ?N = i - ?h" if "?t \<le> i" "i \<le> ele_count q" for i
      using that h b by (intro mod_pos_pos_trivial) auto
    show ?thesis
      using a pc(1,3) h up b low high N by (auto simp: reserved_free_def ud [symmetric] Let_def)
  qed
qed

lemma plan_at_now:
  assumes "ring_wf q" "0 < d" "d \<le> MAX_SQ_DATA_LENGTH" "sq_put_plan q d = PutAt old idx new"
  shows "old = tail_pos q"
  using sq_put_plan_cases(1) [OF assms] .



section \<open>A writer that never finishes\<close>

text \<open>C10. When a writer stopped after reserving two nodes or more and before writing the
  first token, every later get returns 0 and leaves the head where it is, whatever the
  clock shows and however often it is called: the conflict time is cleared when the first
  node is skipped and started again at the second, which ends the call.\<close>

theorem sq_get_blocked_by_crashed_writer:
  assumes "ring_wf q" "2 \<le> ring_used q" "1 \<le> buf_sz"
    and "node_token q (head_pos q) = TOKEN_NO_DATA"
    and "node_token q ((head_pos q + 1) mod (ele_count q + 1)) = TOKEN_NO_DATA"
  shows "\<exists>rw'. sq_get_ring (quiet t1 # quiet t2 # es) q rw buf_sz = Some (GetOut 0 [] None q rw')"
proof -
  let ?N = "ele_count q + 1"
  note b = ring_wf_bounds [OF assms(1)] and sb = shape_wf_bounds [OF ring_wf_bounds(5) [OF assms(1)]]
  have ne: "tail_pos q \<noteq> head_pos q" using assms(2) by (auto simp: ring_used_def)
  have ne1: "tail_pos q \<noteq> (head_pos q + 1) mod ?N"
  proof
    assume "tail_pos q = (head_pos q + 1) mod ?N"
    then have "ring_used q = 1 mod ?N" by (simp add: ring_used_def mod_simps)
    with assms(2) sb show False by simp
  qed
  have tok: "TOKEN_NO_DATA \<noteq> TOKEN_HAS_DATA" "TOKEN_NO_DATA \<noteq> TOKEN_SKIPPED"
    by (simp_all add: TOKEN_NO_DATA_def TOKEN_HAS_DATA_def TOKEN_SKIPPED_def)
  have p: "SQ_ADD_POS q (head_pos q) 1 = (head_pos q + 1) mod ?N" using b by (simp add: SQ_ADD_POS_eq)
  have q: "quiet now = \<lparr>ge_now = now, ge_recheck = (\<lambda>q. q), ge_cas = (\<lambda>q. q)\<rparr>" for now
    by (simp add: quiet_def)
  show ?thesis
    using assms ne ne1 tok by (simp add: sq_get_ring_def q p SQ_MAX_CONFLICT_TIME_MS_def Let_def)
qed

theorem sq_get_blocked_by_crashed_writer_witness:
  "\<exists>rw'. sq_get_ring [quiet 100000, quiet 100001] (ring0 5\<lparr>tail_pos := 8\<rparr>) 500 64 =
     Some (GetOut 0 [] None (ring0 5\<lparr>tail_pos := 8\<rparr>) rw')"
proof -
  have "ring_wf (ring0 5\<lparr>tail_pos := 8\<rparr>)"
    by (simp add: ring_wf_def shape_wf_def ring0_def RESERVE_BLOCK_COUNT_def)
  moreover have "2 \<le> ring_used (ring0 5\<lparr>tail_pos := 8\<rparr>)" by (simp add: ring_used_def ring0_def)
  moreover have "node_token (ring0 5\<lparr>tail_pos := 8\<rparr>) i = TOKEN_NO_DATA" for i
    by (simp add: node_token_def ring0_def get32_def TOKEN_NO_DATA_def)
  ultimately show ?thesis
    using sq_get_blocked_by_crashed_writer [of "ring0 5\<lparr>tail_pos := 8\<rparr>" 64 100000 100001 "[]" 500] by simp
qed

end
