(* ===== verification/Shm_Signal_Thms.thy ===== *)
theory Shm_Signal_Thms
  imports Shm_Signal Shm_Ring_Thms
begin

text \<open>
  Properties of registration, signalling, waiting and usage: dead readers are removed and
  live ones keep their slot, a put signals each armed reader at most once and disarms it, a
  stuck pipe lock is broken after eleven attempts, a waiting put ends exactly by success,
  error or time-out, and the usage figure can reach 100.
\<close>

section \<open>Mask bits\<close>

lemma mask_bit_iff: "mask_bit q i \<longleftrightarrow> bit (sigmask q ! (i div 8)) (i mod 8)"
  by (simp add: mask_bit_def push_bit_of_1 and_exp_eq_0_iff_not_bit)

lemma sig_off_fields [simp]:
  "pidnum (snd (sq_set_sig_off q i)) = pidnum q" "pidset (snd (sq_set_sig_off q i)) = pidset q"
  "length (sigmask (snd (sq_set_sig_off q i))) = length (sigmask q)"
  "sig_process_num (snd (sq_set_sig_off q i)) = sig_process_num q"
  by (simp_all add: sq_set_sig_off_def Let_def)

definition same_ring :: "shm \<Rightarrow> shm \<Rightarrow> bool" where
  "same_ring q q' \<longleftrightarrow> q' = q\<lparr>pidnum := pidnum q', pidset := pidset q', sigmask := sigmask q',
     siglock := siglock q', signr := signr q'\<rparr>"

lemma same_ring_trans: "same_ring a b \<Longrightarrow> same_ring b c \<Longrightarrow> same_ring a c"
  unfolding same_ring_def by (cases a, cases b, cases c) simp

lemma same_ring_refl [simp]: "same_ring q q"
  by (simp add: same_ring_def)

lemma same_ring_sig_off [simp]: "same_ring q (snd (sq_set_sig_off q i))"
  by (simp add: same_ring_def sq_set_sig_off_def Let_def)

lemma uint32_lt_small: "0 \<le> a \<Longrightarrow> a < 2 ^ 32 \<Longrightarrow> 0 \<le> b \<Longrightarrow> b < 2 ^ 32 \<Longrightarrow> uint32_lt a b \<longleftrightarrow> a < b"
  by (simp add: uint32_lt_def)

lemma div_mod_8_eq: "i div 8 = j div 8 \<Longrightarrow> i mod 8 = j mod 8 \<Longrightarrow> i = (j :: nat)"
  by (metis div_mult_mod_eq)

lemma bit_cleared:
  "n < 8 \<Longrightarrow> bit (w AND NOT (push_bit k 1) :: byte) n \<longleftrightarrow> bit w n \<and> n \<noteq> k"
  by (auto simp: bit_simps)

lemma mask_bit_off:
  assumes "int i < pidnum q" "pidnum q \<le> 64" "length (sigmask q) = 8" "j < 64"
  shows "mask_bit (snd (sq_set_sig_off q (int i))) j \<longleftrightarrow> mask_bit q j \<and> j \<noteq> i"
proof -
  have "uint32_lt (int i) (pidnum q)" using assms by (intro uint32_lt_small [THEN iffD2]) auto
  then have m: "sigmask (snd (sq_set_sig_off q (int i))) =
      (sigmask q)[i div 8 := sigmask q ! (i div 8) AND NOT (push_bit (i mod 8) 1)]"
    by (simp add: sq_set_sig_off_def Let_def)
  have "i div 8 < 8" using assms by simp
  show ?thesis
  proof (cases "j div 8 = i div 8")
    case True
    then have "(j mod 8 = i mod 8) = (j = i)" using div_mod_8_eq [of j i] by blast
    moreover have "sigmask (snd (sq_set_sig_off q (int i))) ! (j div 8) =
        sigmask q ! (j div 8) AND NOT (push_bit (i mod 8) 1)"
      unfolding m True using assms(3) \<open>i div 8 < 8\<close> by (subst nth_list_update_eq) simp_all
    moreover have "bit (sigmask q ! (j div 8) AND NOT (push_bit (i mod 8) 1)) (j mod 8) \<longleftrightarrow>
        bit (sigmask q ! (j div 8)) (j mod 8) \<and> j mod 8 \<noteq> i mod 8"
      by (rule bit_cleared) simp
    ultimately show ?thesis unfolding mask_bit_iff by simp
  next
    case False
    then have "j \<noteq> i" by auto
    moreover have "sigmask (snd (sq_set_sig_off q (int i))) ! (j div 8) = sigmask q ! (j div 8)"
      unfolding m using False by (subst nth_list_update_neq) simp_all
    ultimately show ?thesis unfolding mask_bit_iff by simp
  qed
qed

section \<open>Registered processes\<close>

lemma drop_dead_tail_spec:
  "drop_dead_tail w n q = (m, q') \<Longrightarrow>
     m \<le> n \<and> same_ring q q' \<and> pidset q' = pidset q \<and> pidnum q' = (if m = n then pidnum q else int m) \<and>
     (\<forall>i. m \<le> i \<and> i < n \<longrightarrow> \<not> is_pid_valid w (pidset q ! i)) \<and>
     (0 < m \<longrightarrow> is_pid_valid w (pidset q ! (m - 1)))"
proof (induction w n q rule: drop_dead_tail.induct)
  case (2 w i q)
  show ?case
  proof (cases "is_pid_valid w (pidset q ! i)")
    case False
    let ?q = "(snd (sq_set_sig_off q (int i)))\<lparr>pidnum := int i\<rparr>"
    from False 2 have IH: "m \<le> i \<and> same_ring ?q q' \<and> pidset q' = pidset ?q \<and>
        pidnum q' = (if m = i then pidnum ?q else int m) \<and>
        (\<forall>j. m \<le> j \<and> j < i \<longrightarrow> \<not> is_pid_valid w (pidset ?q ! j)) \<and>
        (0 < m \<longrightarrow> is_pid_valid w (pidset ?q ! (m - 1)))" by simp
    have "same_ring q ?q" by (simp add: same_ring_def sq_set_sig_off_def Let_def)
    with IH False show ?thesis using same_ring_trans less_antisym by (auto simp: less_Suc_eq)
  qed (use 2 in auto)
qed simp

lemma blank_dead_spec:
  "n \<le> length (pidset q) \<Longrightarrow> same_ring q (blank_dead w n q) \<and> pidnum (blank_dead w n q) = pidnum q \<and>
     length (pidset (blank_dead w n q)) = length (pidset q) \<and>
     (\<forall>i < length (pidset q). pidset (blank_dead w n q) ! i =
        (if i < n \<and> \<not> is_pid_valid w (pidset q ! i) then 0 else pidset q ! i))"
proof (induction w n q rule: blank_dead.induct)
  case (2 w i q)
  show ?case
  proof (cases "is_pid_valid w (pidset q ! i)")
    case False
    let ?q = "(snd (sq_set_sig_off q (int i)))\<lparr>pidset := (pidset q)[i := 0]\<rparr>"
    have "same_ring q ?q" by (simp add: same_ring_def sq_set_sig_off_def Let_def)
    with 2 False show ?thesis using same_ring_trans
      by (auto simp: nth_list_update less_Suc_eq)
  qed (use 2 in \<open>auto simp: less_Suc_eq\<close>)
qed simp


definition pids4 :: shm where
  "pids4 = (ring0 5)\<lparr>pidnum := 4, pidset := [7, 8, 9, 10] @ replicate 60 0, sigmask := replicate 8 255\<rparr>"

definition world89 :: sq_world where
  "world89 = \<lparr>proc_exists = (\<lambda>p. p = 8 \<or> p = 9), mkfifo_errno = (\<lambda>_. 0), open_fifo = (\<lambda>i r. 5 + i), w_time = 1000\<rparr>"


section \<open>Signalling\<close>

lemma signal_process_fields:
  assumes "signal_process w sq i = (r, sq', wr)"
  shows "same_ring (qhead sq) (qhead sq')" "pidset (qhead sq') = pidset (qhead sq)"
    "pidnum (qhead sq') = pidnum (qhead sq)" "sigmask (qhead sq') = sigmask (qhead sq)"
    "sig_process_num (qhead sq') = sig_process_num (qhead sq)"
  using assms by (auto simp: signal_process_def Let_def same_ring_def split: if_splits)

text \<open>
  What a signalling loop did: it signalled the processes \<open>js\<close>, between \<open>lo\<close> and
  \<open>hi\<close>, at most \<open>limit\<close> of them, each registered and armed, and disarmed exactly
  these.
\<close>

definition signalled :: "shm \<Rightarrow> shm \<Rightarrow> nat list \<Rightarrow> nat \<Rightarrow> nat \<Rightarrow> int \<Rightarrow> bool" where
  "signalled q q' js lo hi limit \<longleftrightarrow>
     same_ring q q' \<and> pidset q' = pidset q \<and> pidnum q' = pidnum q \<and> length (sigmask q') = 8 \<and>
     (js \<noteq> [] \<longrightarrow> int (length js) \<le> limit) \<and> distinct js \<and>
     (\<forall>j \<in> set js. lo \<le> j \<and> j < hi \<and> pidset q ! j \<noteq> 0 \<and> mask_bit q j) \<and>
     (\<forall>j \<in> {0..<64}. mask_bit q' j \<longleftrightarrow> mask_bit q j \<and> j \<notin> set js)"

lemma signalled_none: "length (sigmask q) = 8 \<Longrightarrow> signalled q q [] lo hi limit"
  by (simp add: signalled_def)

lemma signalled_skip: "signalled q q' js (Suc lo) hi limit \<Longrightarrow> signalled q q' js lo hi limit"
  unfolding signalled_def using Suc_leD by blast

lemma signalled_step:
  assumes s: "signalled q2 q' js (Suc i) hi (limit - 1)" and r: "same_ring q q2" "pidset q2 = pidset q"
    "pidnum q2 = pidnum q" and m: "\<And>j. j < 64 \<Longrightarrow> mask_bit q2 j \<longleftrightarrow> mask_bit q j \<and> j \<noteq> i"
    and i: "0 < limit" "i < hi" "hi \<le> 64" "pidset q ! i \<noteq> 0" "mask_bit q i"
  shows "signalled q q' (i # js) i hi limit"
proof -
  have J: "Suc i \<le> j \<and> j < hi \<and> pidset q ! j \<noteq> 0 \<and> mask_bit q2 j" if "j \<in> set js" for j
    using s r(2) that unfolding signalled_def by auto
  have J': "i \<le> j \<and> j < hi \<and> pidset q ! j \<noteq> 0 \<and> mask_bit q j" if "j \<in> set js" for j
    using J [OF that] m [of j] i(3) by auto
  have M: "mask_bit q' j \<longleftrightarrow> mask_bit q j \<and> j \<notin> set (i # js)" if "j \<in> {0..<64}" for j
    using s m [of j] that unfolding signalled_def by auto
  have L: "int (length (i # js)) \<le> limit"
    using s i(1) unfolding signalled_def by (cases js) auto
  have "i \<notin> set js" using J [of i] by auto
  then have D: "distinct (i # js)" using s unfolding signalled_def by simp
  show ?thesis
    unfolding signalled_def
    using s r same_ring_trans [OF r(1), of q'] J' M L D i
    by (auto simp: signalled_def)
qed

lemma signal_loop_spec:
  assumes "signal_loop w k i nr sq = (sq', js)" "int (i + k) \<le> pidnum (qhead sq)" "pidnum (qhead sq) \<le> 64"
    "length (sigmask (qhead sq)) = 8"
  shows "signalled (qhead sq) (qhead sq') js i (i + k) (sig_process_num (qhead sq) - nr)"
  using assms
proof (induction k arbitrary: i nr sq sq' js)
  case 0
  then show ?case by (simp add: signalled_none)
next
  case (Suc k)
  let ?q = "qhead sq"
  consider "\<not> nr < sig_process_num ?q"
    | "nr < sig_process_num ?q" "\<not> (pidset ?q ! i \<noteq> 0 \<and> mask_bit ?q i)"
    | "nr < sig_process_num ?q" "pidset ?q ! i \<noteq> 0" "mask_bit ?q i" by blast
  then show ?case
  proof cases
    case 1
    with Suc.prems show ?thesis by (auto simp: signalled_none)
  next
    case 2
    then have "signal_loop w k (Suc i) nr sq = (sq', js)" using Suc.prems(1) by auto
    from Suc.IH [OF this] Suc.prems have "signalled ?q (qhead sq') js (Suc i) (i + Suc k) (sig_process_num ?q - nr)"
      by simp
    then show ?thesis by (rule signalled_skip)
  next
    case 3
    obtain r sq1 wr where s: "signal_process w sq i = (r, sq1, wr)" by (cases "signal_process w sq i")
    note f = signal_process_fields [OF s]
    define sq2 where "sq2 = sq1\<lparr>qhead := snd (sq_set_sig_off (qhead sq1) (int i))\<rparr>"
    obtain sq3 is3 where l: "signal_loop w k (Suc i) (nr + 1) sq2 = (sq3, is3)"
      by (cases "signal_loop w k (Suc i) (nr + 1) sq2")
    have e: "sq' = sq3" "js = i # is3" using Suc.prems(1) 3 s l by (auto simp: sq2_def Let_def)
    have p2: "pidnum (qhead sq2) = pidnum ?q" "pidset (qhead sq2) = pidset ?q"
      "length (sigmask (qhead sq2)) = 8" "sig_process_num (qhead sq2) = sig_process_num ?q"
      using f Suc.prems(4) by (simp_all add: sq2_def)
    have mb: "mask_bit (qhead sq2) j \<longleftrightarrow> mask_bit ?q j \<and> j \<noteq> i" if "j < 64" for j
    proof -
      have "mask_bit (qhead sq1) j = mask_bit ?q j" by (simp only: mask_bit_def f(4))
      then show ?thesis
        using mask_bit_off [of i "qhead sq1" j] that f(3,4) Suc.prems(2-4) by (simp add: sq2_def)
    qed
    have "same_ring ?q (qhead sq2)" using same_ring_trans [OF f(1)] by (simp add: sq2_def)
    moreover have "signalled (qhead sq2) (qhead sq3) is3 (Suc i) (i + Suc k) (sig_process_num ?q - nr - 1)"
      using Suc.IH [OF l] p2 Suc.prems by (simp add: algebra_simps)
    ultimately show ?thesis
      unfolding e using p2 mb 3 Suc.prems by (intro signalled_step [where ?q2.0 = "qhead sq2"]) auto
  qed
qed


definition handle0 :: "shm \<Rightarrow> sq_handle" where
  "handle0 q = \<lparr>qhead = q, sig_idx = -1, poll_fd = 0, poll_fdset = replicate 64 0,
     fifo_times = replicate 64 0, sq_key = 7, rw_conflict_time = 0, sq_id = 1\<rparr>"

definition ring_sig :: shm where
  "ring_sig = (ring0 5)\<lparr>pidnum := 2, pidset := 8 # 9 # replicate 62 0, sigmask := 2 # replicate 7 0,
     siglock := replicate 64 0, signr := replicate 64 0\<rparr>"

lemma ring_sig_put:
  "sq_put_ring [] ring_sig [1, 2] (3, 4) = (0, sq_put_write (ring_sig\<lparr>tail_pos := 6\<rparr>) 5 [1, 2] (3, 4))"
  by (simp add: sq_put_ring_def MAX_SQ_DATA_LENGTH_def sq_put_plan_def SQ_NUM_NEEDED_NODES_def
      SQ_NODE_SIZE_def SQ_NODE_HEAD_SIZE_def ring_sig_def ring0_def size_t_def to_i32_def SQ_EMPTY_NODES_def
      SQ_ADD_TAIL_def c_rem_def c_div_def RESERVE_BLOCK_COUNT_def CAS32_tail_def Let_def)


section \<open>A stuck pipe lock\<close>

definition signal_again :: "sq_world \<Rightarrow> nat \<Rightarrow> sq_handle \<Rightarrow> sq_handle" where
  "signal_again w i sq = fst (snd (signal_process w sq i))"

lemma signal_stuck_step:
  assumes "0 < poll_fdset sq ! i" "siglock (qhead sq) ! i \<noteq> 0" "signr (qhead sq) ! i \<le> 10"
    "i < length (signr (qhead sq))"
  shows "signal_process w sq i = (0, signal_again w i sq, False)"
    "signr (qhead (signal_again w i sq)) ! i = signr (qhead sq) ! i + 1"
    "poll_fdset (signal_again w i sq) = poll_fdset sq"
    "siglock (qhead (signal_again w i sq)) = siglock (qhead sq)"
    "length (signr (qhead (signal_again w i sq))) = length (signr (qhead sq))"
  using assms by (simp_all add: signal_process_def signal_again_def Let_def)

text \<open>A pipe lock that its owner never released is broken: with \<open>k\<close> writers counted as
  waiting, the next \<open>11 - k\<close> signalling attempts write nothing, and the one after them
  writes, clears the count and releases the lock.\<close>

lemma stuck_lock_broken:
  assumes "0 < poll_fdset sq ! i" "siglock (qhead sq) ! i \<noteq> 0" "0 \<le> signr (qhead sq) ! i"
    "signr (qhead sq) ! i \<le> 11" "i < length (signr (qhead sq))" "i < length (siglock (qhead sq))"
  defines "n \<equiv> nat (11 - signr (qhead sq) ! i)"
  shows "(\<forall>m < n. snd (snd (signal_process w ((signal_again w i ^^ m) sq) i)) = False)
    \<and> snd (snd (signal_process w ((signal_again w i ^^ n) sq) i)) = True
    \<and> siglock (qhead ((signal_again w i ^^ Suc n) sq)) ! i = 0
    \<and> signr (qhead ((signal_again w i ^^ Suc n) sq)) ! i = 0"
proof -
  have st: "signr (qhead ((signal_again w i ^^ m) sq)) ! i = signr (qhead sq) ! i + int m
     \<and> poll_fdset ((signal_again w i ^^ m) sq) = poll_fdset sq
     \<and> siglock (qhead ((signal_again w i ^^ m) sq)) = siglock (qhead sq)
     \<and> length (signr (qhead ((signal_again w i ^^ m) sq))) = length (signr (qhead sq))" if "m \<le> n" for m
    using that
  proof (induction m)
    case (Suc m)
    then have "signr (qhead sq) ! i + int m \<le> 10" by (simp add: n_def)
    with Suc assms signal_stuck_step [of "(signal_again w i ^^ m) sq" i w] show ?case by simp
  qed simp
  have "\<not> snd (snd (signal_process w ((signal_again w i ^^ m) sq) i))" if "m < n" for m
  proof -
    have "signr (qhead sq) ! i + int m \<le> 10" using that by (simp add: n_def)
    with st [of m] that assms signal_stuck_step(1) [of "(signal_again w i ^^ m) sq" i w] show ?thesis by simp
  qed
  moreover have "signr (qhead sq) ! i + int n = 11" using assms by (simp add: n_def)
  then have "snd (snd (signal_process w ((signal_again w i ^^ n) sq) i))
     \<and> siglock (qhead ((signal_again w i ^^ Suc n) sq)) ! i = 0
     \<and> signr (qhead ((signal_again w i ^^ Suc n) sq)) ! i = 0"
    using st [of n] assms(1,5,6) by (simp add: signal_again_def signal_process_def Let_def)
  ultimately show ?thesis by simp
qed

lemma stuck_lock_broken_example:
  "let sq = (handle0 (ring_sig\<lparr>siglock := replicate 64 1\<rparr>))\<lparr>poll_fdset := replicate 64 9\<rparr>
   in snd (snd (signal_process world89 ((signal_again world89 0 ^^ 11) sq) 0)) = True"
  using stuck_lock_broken [of "(handle0 (ring_sig\<lparr>siglock := replicate 64 1\<rparr>))\<lparr>poll_fdset := replicate 64 9\<rparr>" 0 world89]
  by (simp add: handle0_def ring_sig_def)

section \<open>Waiting put\<close>

text \<open>The handle before attempt \<open>k\<close> of a waiting put.\<close>

fun put_wait_state :: "sq_world \<Rightarrow> ((int \<times> int) \<times> (shm \<Rightarrow> shm)) list \<Rightarrow> sq_handle \<Rightarrow> byte list
    \<Rightarrow> u32 \<times> u32 \<Rightarrow> nat \<Rightarrow> sq_handle" where
  "put_wait_state w turns sq bs tv 0 = sq"
| "put_wait_state w [] sq bs tv (Suc k) = sq"
| "put_wait_state w (t # ts) sq bs tv (Suc k) =
     (let sq1 = fst (snd (sq_put w [] sq bs tv))
      in put_wait_state w ts (sq1\<lparr>qhead := snd t (qhead sq1)\<rparr>) bs tv k)"

text \<open>C13. A waiting put ends: if some attempt is followed by a clock beyond the limit, the
  result is that of one of the plain puts, all puts before it found the ring full within
  the limit, and it reports a full ring itself only when the limit has passed.\<close>

theorem sq_put_wait_ends:
  assumes "0 < time_ms" "\<exists>t \<in> set turns. time_ms < tv_diff_ms start (fst t)"
  shows "\<exists>k < length turns.
     sq_put_wait w turns sq bs tv start time_ms = Some (sq_put w [] (put_wait_state w turns sq bs tv k) bs tv)
     \<and> (\<forall>i < k. fst (sq_put w [] (put_wait_state w turns sq bs tv i) bs tv) = -2
          \<and> tv_diff_ms start (fst (turns ! i)) \<le> time_ms)
     \<and> (fst (sq_put w [] (put_wait_state w turns sq bs tv k) bs tv) = -2 \<longrightarrow>
          time_ms < tv_diff_ms start (fst (turns ! k)))"
proof -
  have "\<exists>k < length turns.
     sq_put_wait_loop w turns sq bs tv start time_ms = Some (sq_put w [] (put_wait_state w turns sq bs tv k) bs tv)
     \<and> (\<forall>i < k. fst (sq_put w [] (put_wait_state w turns sq bs tv i) bs tv) = -2
          \<and> tv_diff_ms start (fst (turns ! i)) \<le> time_ms)
     \<and> (fst (sq_put w [] (put_wait_state w turns sq bs tv k) bs tv) = -2 \<longrightarrow>
          time_ms < tv_diff_ms start (fst (turns ! k)))"
    using assms(2)
  proof (induction turns arbitrary: sq)
    case (Cons t ts)
    obtain now other where t: "t = (now, other)" by (cases t)
    obtain r sq1 js where p: "sq_put w [] sq bs tv = (r, sq1, js)" by (cases "sq_put w [] sq bs tv")
    show ?case
    proof (cases "r = -2 \<and> tv_diff_ms start now \<le> time_ms")
      case False
      with p t show ?thesis by (intro exI [of _ 0]) (auto simp: Let_def)
    next
      case True
      with Cons.prems t have "\<exists>t \<in> set ts. time_ms < tv_diff_ms start (fst t)" by auto
      from Cons.IH [OF this, of "sq1\<lparr>qhead := other (qhead sq1)\<rparr>"] obtain k where k: "k < length ts"
        "sq_put_wait_loop w ts (sq1\<lparr>qhead := other (qhead sq1)\<rparr>) bs tv start time_ms =
           Some (sq_put w [] (put_wait_state w (t # ts) sq bs tv (Suc k)) bs tv)"
        "\<And>i. i < k \<Longrightarrow> fst (sq_put w [] (put_wait_state w (t # ts) sq bs tv (Suc i)) bs tv) = -2
          \<and> tv_diff_ms start (fst (ts ! i)) \<le> time_ms"
        "fst (sq_put w [] (put_wait_state w (t # ts) sq bs tv (Suc k)) bs tv) = -2 \<longrightarrow>
          time_ms < tv_diff_ms start (fst (ts ! k))"
        by (auto simp: p t Let_def)
      have "fst (sq_put w [] (put_wait_state w (t # ts) sq bs tv i) bs tv) = -2
          \<and> tv_diff_ms start (fst ((t # ts) ! i)) \<le> time_ms" if "i < Suc k" for i
        using that k(3) [of "i - 1"] True p t by (cases i) auto
      then show ?thesis
        using k(1,2,4) True p t by (intro exI [of _ "Suc k"]) (auto simp: Let_def)
    qed
  qed simp
  then show ?thesis using assms(1) by (simp add: sq_put_wait_def)
qed

theorem sq_put_wait_ends_witness:
  "\<exists>k < 2. sq_put_wait world89 [((0, 0), id), ((1, 5000), id)] (handle0 (ring0 15)) (replicate 500 0) (0, 0)
     (0, 0) 1000 = Some (sq_put world89 [] (put_wait_state world89 [((0, 0), id), ((1, 5000), id)]
       (handle0 (ring0 15)) (replicate 500 0) (0, 0) k) (replicate 500 0) (0, 0))"
proof -
  have "\<exists>t \<in> set [((0, 0), id), ((1, 5000), id)]. 1000 < tv_diff_ms (0, 0) (fst t)"
    by (simp add: tv_diff_ms_def c_div_def)
  moreover have "length [((0 :: int, 0 :: int), id :: shm \<Rightarrow> shm), ((1, 5000), id)] = 2" by simp
  ultimately show ?thesis using sq_put_wait_ends [of 1000 "[((0, 0), id), ((1, 5000), id)]"]
    by (metis zero_less_numeral)
qed

section \<open>Usage\<close>

lemma sq_put_ring_accepts:
  "sq_put_plan q (int (length bs)) = PutAt old idx new \<Longrightarrow> bs \<noteq> [] \<Longrightarrow>
     int (length bs) \<le> MAX_SQ_DATA_LENGTH \<Longrightarrow> fst (sq_put_ring [] q bs tv) = 0"
  by (simp add: sq_put_ring_def sq_put_reserve_quiet Let_def)

text \<open>A record that wraps around can take the ten reserved nodes and everything else: when
  it needs one node less than the head position, the ring is completely full afterwards
  and the usage is 100, although the usage is documented as at most 99.\<close>

lemma usage_reaches_hundred:
  assumes "ring_wf q" "sq_put_ring [] q bs tv = (0, q')" "ele_count q < tail_pos q + n"
    and "n = needed (SQ_NODE_SIZE q) (int (length bs))" "n = head_pos q - 1" "ele_count q \<le> 20000000"
  shows "sq_get_usage (Some (sq\<lparr>qhead := q'\<rparr>)) = 100 \<and> SQ_EMPTY_NODES q' = 0"
proof -
  obtain idx where pe: "put_effect q bs tv idx n q'" using sq_put_effect [OF assms(1,2)] assms(4) by blast
  note sh = put_effect_shape [OF pe assms(1)] and b = ring_wf_bounds [OF assms(1)]
  note sb = shape_wf_bounds [OF b(5)]
  have i: "idx = 0" "n < head_pos q" "head_pos q \<le> tail_pos q" "0 < n"
    using pe assms(3) by (auto simp: put_effect_def)
  have "ring_used q = tail_pos q - head_pos q" using i b by (simp add: ring_used_def mod_pos_pos_trivial)
  then have u: "ring_used q' = ele_count q"
    using put_effect_used [OF pe assms(1)] i b assms(5) by (simp split: if_splits)
  then have "SQ_EMPTY_NODES q' = 0" "SQ_USED_NODES q' = ele_count q"
    using SQ_EMPTY_NODES_eq [OF sh(1)] SQ_USED_NODES_eq [OF sh(1)] sh by simp_all
  moreover have "to_i32 (ele_count q * 100) = ele_count q * 100"
    using assms(6) sb by (intro to_i32_id) auto
  ultimately show ?thesis
    using sb by (simp add: sq_get_usage_def Let_def sh c_div_nonneg)
qed

definition ring_wrap :: shm where
  "ring_wrap = (ring0 11)\<lparr>tail_pos := 21\<rparr>"

lemma usage_reaches_hundred_example:
  "\<exists>q'. sq_put_ring [] ring_wrap (replicate 290 7) (0, 0) = (0, q') \<and> sq_get_usage (Some (handle0 q')) = 100"
proof -
  have wf: "ring_wf ring_wrap"
    by (simp add: ring_wrap_def ring_wf_def shape_wf_def ring0_def RESERVE_BLOCK_COUNT_def)
  have f: "ele_count ring_wrap = 30" "tail_pos ring_wrap = 21" "head_pos ring_wrap = 11" "SQ_NODE_SIZE ring_wrap = 32"
    by (simp_all add: ring_wrap_def ring0_def SQ_NODE_SIZE_def SQ_NODE_HEAD_SIZE_def)
  have n: "needed 32 290 = 10" by (simp add: needed_def)
  have "sq_put_plan ring_wrap 290 = PutAt 21 0 10"
    by (simp add: sq_put_plan_def SQ_NUM_NEEDED_NODES_def f size_t_def to_i32_def SQ_EMPTY_NODES_def
      SQ_NODE_HEAD_SIZE_def SQ_ADD_TAIL_def c_rem_def c_div_def RESERVE_BLOCK_COUNT_def Let_def)
  then have "fst (sq_put_ring [] ring_wrap (replicate 290 7) (0, 0)) = 0"
    using sq_put_ring_accepts [of ring_wrap "replicate 290 7" 21 0 10 "(0, 0)"]
    by (simp add: MAX_SQ_DATA_LENGTH_def)
  then obtain q' where q': "sq_put_ring [] ring_wrap (replicate 290 7) (0, 0) = (0, q')"
    by (cases "sq_put_ring [] ring_wrap (replicate 290 7) (0, 0)") simp
  have "sq_get_usage (Some ((handle0 q')\<lparr>qhead := q'\<rparr>)) = 100"
  proof (rule usage_reaches_hundred [OF wf q', where n = 10, THEN conjunct1])
    have "int (length (replicate 290 (7 :: byte))) = 290" by (simp only: length_replicate of_nat_numeral)
    then show "10 = needed (SQ_NODE_SIZE ring_wrap) (int (length (replicate 290 (7 :: byte))))"
      by (simp only: f n)
  next
    show "ele_count ring_wrap < tail_pos ring_wrap + 10" using f by simp
    show "10 = head_pos ring_wrap - 1" using f by simp
    show "ele_count ring_wrap \<le> 20000000" using f by simp
  qed
  moreover have "(handle0 q')\<lparr>qhead := q'\<rparr> = handle0 q'" by (simp only: handle0_def sq_handle.update_convs)
  ultimately show ?thesis using q' by (simp only:) blast
qed

end
