(* ===== verification/C_Text.thy ===== *)
theory C_Text
  imports DV_Prelude
begin

text \<open>
  The C library's text functions as the program uses them (\<^verbatim>\<open>atoi\<close>,
  \<^verbatim>\<open>strtol\<close> in base 16, case-insensitive comparison, searching) and the program's
  own splitting and path functions of \<^verbatim>\<open>material.cpp\<close>. Texts are lists of
  characters without the terminating zero.
\<close>

section \<open>Characters and numbers\<close>

definition code :: "char \<Rightarrow> int" where "code c = int (of_char c)"

definition is_space :: "char \<Rightarrow> bool" where
  "is_space c \<longleftrightarrow> code c = 32 \<or> (9 \<le> code c \<and> code c \<le> 13)"

definition is_blank :: "char \<Rightarrow> bool" where
  "is_blank c \<longleftrightarrow> code c = 32 \<or> code c = 9"

definition to_lower :: "char \<Rightarrow> int" where
  "to_lower c = (if 65 \<le> code c \<and> code c \<le> 90 then code c + 32 else code c)"

definition digit_of :: "int \<Rightarrow> char \<Rightarrow> int option" where
  "digit_of base c =
     (let v = (if 48 \<le> code c \<and> code c \<le> 57 then code c - 48
               else if 97 \<le> to_lower c \<and> to_lower c \<le> 122 then to_lower c - 87 else base)
      in if v < base then Some v else None)"

fun read_digits :: "int \<Rightarrow> int \<Rightarrow> string \<Rightarrow> int" where
  "read_digits base acc [] = acc"
| "read_digits base acc (c # cs) =
     (case digit_of base c of None \<Rightarrow> acc | Some d \<Rightarrow> read_digits base (acc * base + d) cs)"

definition clamp_long :: "int \<Rightarrow> int" where
  "clamp_long x = (if x < - (2 ^ 63) then - (2 ^ 63) else if 2 ^ 63 - 1 < x then 2 ^ 63 - 1 else x)"

definition read_sign :: "string \<Rightarrow> int \<times> string" where
  "read_sign s = (case s of c # cs \<Rightarrow> if c = CHR ''-'' then (-1, cs) else if c = CHR ''+'' then (1, cs) else (1, s)
                  | [] \<Rightarrow> (1, s))"

definition atoi :: "string \<Rightarrow> int" where
  "atoi s = (let (sg, ds) = read_sign (dropWhile is_space s)
             in to_i32 (clamp_long (sg * read_digits 10 0 ds)))"

definition strtol16 :: "string \<Rightarrow> int" where
  "strtol16 s =
     (let (sg, ds) = read_sign (dropWhile is_space s);
          ds' = (case ds of a # b # c # rest \<Rightarrow>
                   if a = CHR ''0'' \<and> to_lower b = 120 \<and> digit_of 16 c \<noteq> None then c # rest else ds
                 | _ \<Rightarrow> ds)
      in clamp_long (sg * read_digits 16 0 ds'))"

text \<open>\<^verbatim>\<open>strncasecmp(s, t, strlen(s)) == 0\<close> and \<^verbatim>\<open>strncmp(t, p, strlen(p)) == 0\<close>.\<close>

definition case_prefix :: "string \<Rightarrow> string \<Rightarrow> bool" where
  "case_prefix s t \<longleftrightarrow> length s \<le> length t \<and> map to_lower s = map to_lower (take (length s) t)"

definition starts_with :: "string \<Rightarrow> string \<Rightarrow> bool" where
  "starts_with p t \<longleftrightarrow> take (length p) t = p"

lemma starts_with_simps [simp]:
  "starts_with [] t" "starts_with (p # ps) [] = False"
  "starts_with (p # ps) (c # cs) = (p = c \<and> starts_with ps cs)"
  by (auto simp: starts_with_def)

fun strstr :: "string \<Rightarrow> string \<Rightarrow> bool" where
  "strstr [] p = (p = [])"
| "strstr (c # cs) p = (starts_with p (c # cs) \<or> strstr cs p)"

definition strchr :: "string \<Rightarrow> char \<Rightarrow> string option" where
  "strchr s c = (case dropWhile (\<lambda>x. x \<noteq> c) s of [] \<Rightarrow> None | r \<Rightarrow> Some r)"

fun strrchr :: "string \<Rightarrow> char \<Rightarrow> string option" where
  "strrchr [] c = None"
| "strrchr (x # xs) c = (case strrchr xs c of Some r \<Rightarrow> Some r | None \<Rightarrow> if x = c then Some (x # xs) else None)"

text \<open>\<^verbatim>\<open>strncasecmp(t, p, strlen(p)) == 0\<close>.\<close>

definition starts_with_ci :: "string \<Rightarrow> string \<Rightarrow> bool" where
  "starts_with_ci p t \<longleftrightarrow> map to_lower (take (length p) t) = map to_lower p"

text \<open>\<^verbatim>\<open>strncasecmp (s, p, n) == 0\<close> where \<open>n\<close> is one more than the length of \<open>p\<close>, and
  \<^verbatim>\<open>strcasecmp\<close>: the whole strings are equal but for their case.\<close>

definition same_ci :: "string \<Rightarrow> string \<Rightarrow> bool" where
  "same_ci s p \<longleftrightarrow> map to_lower s = map to_lower p"

section \<open>Splitting and replacing\<close>

function splitString :: "string \<Rightarrow> char \<Rightarrow> string list" where
  "splitString str sep =
     (let sub = takeWhile (\<lambda>c. c \<noteq> sep) str; rest = dropWhile (\<lambda>c. c \<noteq> sep) str
      in if rest = [] then [sub] else if tl rest = [] then [sub] else sub # splitString (tl rest) sep)"
  by pat_completeness auto
termination
proof (relation "measure (\<lambda>(s, sep). length s)")
  fix str :: string and sep sub rest
  assume "rest = dropWhile (\<lambda>c. c \<noteq> sep) str" "rest \<noteq> []"
  then have "length rest \<le> length str" "rest \<noteq> []" by (simp_all add: length_dropWhile_le)
  then show "((tl rest, sep), (str, sep)) \<in> measure (\<lambda>(s, sep). length s)" by (cases rest) auto
qed simp

declare splitString.simps [simp del]

function splitCString :: "string \<Rightarrow> char \<Rightarrow> string list" where
  "splitCString str sep =
     (let sub = takeWhile (\<lambda>c. c \<noteq> sep) str; next_pos = dropWhile (\<lambda>c. c \<noteq> sep) str
      in if next_pos = [] then [sub] else sub # splitCString (tl next_pos) sep)"
  by pat_completeness auto
termination
proof (relation "measure (\<lambda>(s, sep). length s)")
  fix str :: string and sep sub next_pos
  assume "next_pos = dropWhile (\<lambda>c. c \<noteq> sep) str" "next_pos \<noteq> []"
  then have "length next_pos \<le> length str" "next_pos \<noteq> []" by (simp_all add: length_dropWhile_le)
  then show "((tl next_pos, sep), (str, sep)) \<in> measure (\<lambda>(s, sep). length s)" by (cases next_pos) auto
qed simp

declare splitCString.simps [simp del]

definition merge_path :: "int \<Rightarrow> string \<Rightarrow> string \<Rightarrow> string" where
  "merge_path out_size dir path =
     (if starts_with ''/'' path \<or> path = ''-'' \<or> strstr path ''://'' \<or> dir = []
      then take (nat (out_size - 1)) path
      else let path' = (if starts_with ''./'' path then drop 2 path else path)
           in take (nat (out_size - 2)) (dir @ ''/'' @ path'))"

fun merge_pathlist_loop :: "string \<Rightarrow> string list \<Rightarrow> bool \<Rightarrow> int \<Rightarrow> string" where
  "merge_pathlist_loop dir [] first out_size = []"
| "merge_pathlist_loop dir (s # ss) first out_size =
     (let out2 = merge_path 1024 dir s; len = int (length out2)
      in if out_size < len + 2 then []
         else if first then out2 @ merge_pathlist_loop dir ss False (out_size - len)
         else CHR '','' # out2 @ merge_pathlist_loop dir ss False (out_size - 1 - len))"

definition merge_pathlist :: "int \<Rightarrow> string \<Rightarrow> string \<Rightarrow> string" where
  "merge_pathlist out_size dir pathlist =
     merge_pathlist_loop dir (splitString pathlist (CHR '','')) True out_size"

text \<open>The red, green and blue bytes of a colour text, as the C conversions give them.\<close>

definition parse_color :: "string \<Rightarrow> int \<times> int \<times> int" where
  "parse_color s =
     (if length s = 3 then (strtol16 [s ! 2, s ! 2] mod 256, strtol16 [s ! 1, s ! 1] mod 256,
                            strtol16 [s ! 0, s ! 0] mod 256)
      else let val = to_i32 (strtol16 s) in (val mod 256, val div 2 ^ 8 mod 256, val div 2 ^ 16 mod 256))"

section \<open>Laws of splitting\<close>

fun join :: "char \<Rightarrow> string list \<Rightarrow> string" where
  "join sep [] = []"
| "join sep [s] = s"
| "join sep (s # ss) = s @ sep # join sep ss"

lemma join_Cons: "ss \<noteq> [] \<Longrightarrow> join sep (s # ss) = s @ sep # join sep ss"
  by (cases ss) auto

lemma splitCString_not_Nil [simp]: "splitCString s sep \<noteq> []"
  by (subst splitCString.simps) (simp add: Let_def)

lemma dropWhile_hd: "dropWhile (\<lambda>c. c \<noteq> sep) s \<noteq> [] \<Longrightarrow> dropWhile (\<lambda>c. c \<noteq> sep) s = sep # tl (dropWhile (\<lambda>c. c \<noteq> sep) s)"
  using hd_dropWhile [of "\<lambda>c. c \<noteq> sep" s] by (cases "dropWhile (\<lambda>c. c \<noteq> sep) s") auto

lemma takeWhile_sep: "dropWhile (\<lambda>c. c \<noteq> sep) s \<noteq> [] \<Longrightarrow>
    s = takeWhile (\<lambda>c. c \<noteq> sep) s @ sep # tl (dropWhile (\<lambda>c. c \<noteq> sep) s)"
  using takeWhile_dropWhile_id [of "\<lambda>c. c \<noteq> sep" s] dropWhile_hd [of sep s] by simp

lemma join_splitCString: "join sep (splitCString s sep) = s"
proof (induction s sep rule: splitCString.induct)
  case (1 s sep)
  show ?case
  proof (cases "dropWhile (\<lambda>c. c \<noteq> sep) s = []")
    case True
    then show ?thesis
      using takeWhile_dropWhile_id [of "\<lambda>c. c \<noteq> sep" s] by (simp add: splitCString.simps [of s])
  next
    case False
    with 1 takeWhile_sep [OF False] show ?thesis
      by (simp add: splitCString.simps [of s] join_Cons Let_def)
  qed
qed

lemma splitCString_parts: "p \<in> set (splitCString s sep) \<Longrightarrow> sep \<notin> set p"
proof (induction s sep rule: splitCString.induct)
  case (1 s sep)
  have t: "sep \<notin> set (takeWhile (\<lambda>c. c \<noteq> sep) s)" by (metis (full_types) set_takeWhileD)
  show ?case
  proof (cases "dropWhile (\<lambda>c. c \<noteq> sep) s = []")
    case True
    with 1 t show ?thesis by (simp add: splitCString.simps [of s] Let_def)
  next
    case False
    then have "splitCString s sep = takeWhile (\<lambda>c. c \<noteq> sep) s # splitCString (tl (dropWhile (\<lambda>c. c \<noteq> sep) s)) sep"
      by (subst splitCString.simps) (simp only: Let_def if_False)
    with 1 t False show ?thesis by (metis set_ConsD)
  qed
qed

text \<open>The two splitters differ in one case: \<open>splitString\<close> drops an empty last field.\<close>

lemma splitString_splitCString:
  "splitString s sep = (if s \<noteq> [] \<and> last s = sep then butlast (splitCString s sep) else splitCString s sep)"
proof (induction s sep rule: splitString.induct)
  case (1 s sep)
  let ?r = "dropWhile (\<lambda>c. c \<noteq> sep) s"
  show ?case
  proof (cases "?r = []")
    case True
    then have "sep \<notin> set s" by auto
    then have "\<not> (s \<noteq> [] \<and> last s = sep)" using last_in_set by blast
    with True show ?thesis by (simp add: splitString.simps [of s] splitCString.simps [of s] Let_def)
  next
    case False
    note e = takeWhile_sep [OF False]
    show ?thesis
    proof (cases "tl ?r = []")
      case True
      with e have "s = takeWhile (\<lambda>c. c \<noteq> sep) s @ [sep]" by simp
      then have "s \<noteq> [] \<and> last s = sep" by (metis append_is_Nil_conv last_snoc list.distinct(1))
      moreover have "splitCString s sep = [takeWhile (\<lambda>c. c \<noteq> sep) s, []]"
        using False True by (simp add: splitCString.simps [of s] splitCString.simps [of "[]"] Let_def)
      moreover have "splitString s sep = [takeWhile (\<lambda>c. c \<noteq> sep) s]"
        using False True by (simp add: splitString.simps [of s] Let_def)
      ultimately show ?thesis by simp
    next
      case tl: False
      have "s \<noteq> []" "last s = last (tl ?r)"
        using False tl by (metis e append_is_Nil_conv list.distinct(1),
            metis e last_appendR last_ConsR list.distinct(1))
      moreover have "splitString s sep = takeWhile (\<lambda>c. c \<noteq> sep) s # splitString (tl ?r) sep"
        using False tl by (subst splitString.simps) (simp only: Let_def if_False)
      moreover have "splitCString s sep = takeWhile (\<lambda>c. c \<noteq> sep) s # splitCString (tl ?r) sep"
        using False by (subst splitCString.simps) (simp only: Let_def if_False)
      ultimately show ?thesis using 1 False tl by simp
    qed
  qed
qed

lemma splitCString_join:
  "fs \<noteq> [] \<Longrightarrow> (\<And>f. f \<in> set fs \<Longrightarrow> sep \<notin> set f) \<Longrightarrow> splitCString (join sep fs) sep = fs"
proof (induction sep fs rule: join.induct)
  case (2 sep s)
  then have "takeWhile (\<lambda>c. c \<noteq> sep) s = s" "dropWhile (\<lambda>c. c \<noteq> sep) s = []"
    by (auto simp: takeWhile_eq_all_conv)
  then show ?case by (simp add: splitCString.simps [of s] Let_def)
next
  case (3 sep s t ts)
  have "sep \<notin> set s" using "3.prems" by simp
  then have "takeWhile (\<lambda>c. c \<noteq> sep) (s @ sep # join sep (t # ts)) = s"
    "dropWhile (\<lambda>c. c \<noteq> sep) (s @ sep # join sep (t # ts)) = sep # join sep (t # ts)"
    by (auto simp: takeWhile_append dropWhile_append)
  with 3 show ?case by (simp add: splitCString.simps [of "s @ sep # join sep (t # ts)"] Let_def)
qed simp

lemma splitString_join:
  assumes "fs \<noteq> []" "\<And>f. f \<in> set fs \<Longrightarrow> sep \<notin> set f" "last fs \<noteq> []"
  shows "splitString (join sep fs) sep = fs"
proof -
  have "last (join sep fs) = last (last fs) \<and> join sep fs \<noteq> []"
    using assms(1,3) by (induction sep fs rule: join.induct) auto
  moreover have "last (last fs) \<noteq> sep" using assms last_in_set by metis
  ultimately show ?thesis by (simp add: splitString_splitCString splitCString_join assms)
qed

section \<open>Printing numbers\<close>

definition digit_char :: "nat \<Rightarrow> char" where
  "digit_char d = char_of (48 + d)"

fun print_nat :: "nat \<Rightarrow> string" where
  "print_nat n = (if n < 10 then [digit_char n] else print_nat (n div 10) @ [digit_char (n mod 10)])"

declare print_nat.simps [simp del]

definition print_int :: "int \<Rightarrow> string" where
  "print_int i = (if i < 0 then CHR ''-'' # print_nat (nat (- i)) else print_nat (nat i))"

lemma code_digit_char: "d < 10 \<Longrightarrow> code (digit_char d) = 48 + int d"
  by (simp add: code_def digit_char_def)

lemma digit_of_digit_char: "d < 10 \<Longrightarrow> digit_of 10 (digit_char d) = Some (int d)"
  by (simp add: digit_of_def code_digit_char Let_def)

lemma read_digits_append_digits:
  "(\<And>c. c \<in> set s \<Longrightarrow> digit_of b c \<noteq> None) \<Longrightarrow> read_digits b acc (s @ t) = read_digits b (read_digits b acc s) t"
proof (induction b acc s rule: read_digits.induct)
  case (2 b acc c cs)
  then obtain d where "digit_of b c = Some d" by fastforce
  with 2 show ?case by simp
qed simp

lemma print_nat_digits: "c \<in> set (print_nat n) \<Longrightarrow> \<exists>d < 10. c = digit_char d"
proof (induction n rule: print_nat.induct)
  case (1 n)
  show ?case
  proof (cases "n < 10")
    case True
    with 1 show ?thesis by (auto simp: print_nat.simps [of n])
  next
    case False
    with 1(2) have "c \<in> set (print_nat (n div 10)) \<or> c = digit_char (n mod 10)"
      by (subst (asm) print_nat.simps) auto
    moreover have "n mod 10 < 10" by simp
    ultimately show ?thesis using 1(1) False by blast
  qed
qed

lemma read_print_nat: "read_digits 10 0 (print_nat n) = int n"
proof (induction n rule: print_nat.induct)
  case (1 n)
  show ?case
  proof (cases "n < 10")
    case True
    then show ?thesis by (simp add: print_nat.simps [of n] digit_of_digit_char)
  next
    case False
    have "\<And>c. c \<in> set (print_nat (n div 10)) \<Longrightarrow> digit_of 10 c \<noteq> None"
      using print_nat_digits digit_of_digit_char by fastforce
    then show ?thesis
      using 1 False
      by (subst print_nat.simps) (simp add: read_digits_append_digits digit_of_digit_char del: read_digits.simps(1),
        simp only: read_digits.simps, presburger)
  qed
qed

lemma print_nat_not_Nil [simp]: "print_nat n \<noteq> []"
  by (subst print_nat.simps) simp

lemma digit_char_props:
  assumes "d < 10"
  shows "digit_char d \<noteq> CHR ''-''" "digit_char d \<noteq> CHR ''+''" "\<not> is_space (digit_char d)"
    "digit_char d \<noteq> CHR '':''"
proof -
  have c: "code (digit_char d) = 48 + int d" by (rule code_digit_char [OF assms])
  show "\<not> is_space (digit_char d)" using c by (simp add: is_space_def)
  show "digit_char d \<noteq> CHR ''-''"
  proof
    assume "digit_char d = CHR ''-''" with c show False by (simp add: code_def)
  qed
  show "digit_char d \<noteq> CHR ''+''"
  proof
    assume "digit_char d = CHR ''+''" with c show False by (simp add: code_def)
  qed
  show "digit_char d \<noteq> CHR '':''"
  proof
    assume "digit_char d = CHR '':''" with c assms show False by (simp add: code_def)
  qed
qed

lemma atoi_print_int:
  assumes "- (2 ^ 31) \<le> i" "i < 2 ^ 31"
  shows "atoi (print_int i) = i"
proof -
  have r: "read_sign (dropWhile is_space (print_nat n)) = (1, print_nat n)" for n
  proof -
    obtain c cs where p: "print_nat n = c # cs" by (cases "print_nat n") auto
    then obtain d where "d < 10" "c = digit_char d" using print_nat_digits [of c n] by auto
    with p digit_char_props show ?thesis by (simp add: read_sign_def)
  qed
  have "clamp_long i = i" "to_i32 i = i" using assms by (auto simp: clamp_long_def to_i32_id)
  then show ?thesis
  proof (cases "i < 0")
    case True
    have "\<not> is_space (CHR ''-'')" by (simp add: is_space_def code_def)
    with True \<open>clamp_long i = i\<close> \<open>to_i32 i = i\<close> show ?thesis
      by (simp add: print_int_def atoi_def read_sign_def read_print_nat)
  next
    case False
    with r \<open>clamp_long i = i\<close> \<open>to_i32 i = i\<close> show ?thesis
      by (simp add: print_int_def atoi_def read_print_nat)
  qed
qed

lemma print_int_no_colon: "CHR '':'' \<notin> set (print_int i)"
proof -
  have "CHR '':'' \<notin> set (print_nat n)" for n
  proof
    assume "CHR '':'' \<in> set (print_nat n)"
    then obtain d where "d < 10" "CHR '':'' = digit_char d" using print_nat_digits by blast
    then show False using digit_char_props(4) [of d] by simp
  qed
  then show ?thesis by (simp add: print_int_def)
qed

lemma print_int_not_Nil [simp]: "print_int i \<noteq> []"
  by (simp add: print_int_def)

end
