(* ===== verification/Material_Parse.thy ===== *)
theory Material_Parse
  imports C_Text
begin

text \<open>
  Material descriptions (\<^verbatim>\<open>material.cpp\<close>, \<^verbatim>\<open>material.h\<close>): the type
  names, the field-by-field parsers of text materials and of all other materials, and the
  list of materials of the command line. The conversions \<^verbatim>\<open>(int)(v * ratio)\<close> in
  double arithmetic are the two parameters \<open>sx\<close> and \<open>sy\<close>.
\<close>

section \<open>Data\<close>

datatype material_type = MT_None | MT_MainVideo | MT_MainAudio | MT_Video | MT_Audio | MT_Gif
  | MT_Image | MT_Text | MT_Time | MT_Clock

record cv_rect =
  rx :: int
  ry :: int
  rwidth :: int
  rheight :: int

datatype ColorType = FT_None | FT_BGR | FT_BGRA | FT_BGRM | FT_IBGRA

record material =
  layer :: int
  mtype :: material_type
  product_id :: int
  material_id :: int
  mtext :: string
  mpath :: string
  mrect :: cv_rect
  volume :: int
  rotation :: int
  opacity :: int
  clock_starttime :: int
  mfont :: string
  fontsize :: int
  olsize :: int
  color :: "(int \<times> int \<times> int) option"
  olcolor :: "(int \<times> int \<times> int) option"
  glTexture :: int

definition string2type :: "string \<Rightarrow> material_type" where
  "string2type s =
     (if case_prefix s ''video'' then MT_Video
      else if case_prefix s ''mainvideo'' then MT_MainVideo
      else if case_prefix s ''gif'' then MT_Gif
      else if case_prefix s ''image'' then MT_Image
      else if case_prefix s ''mainaudio'' then MT_MainAudio
      else if case_prefix s ''audio'' then MT_Audio
      else if case_prefix s ''text'' then MT_Text
      else if case_prefix s ''time'' then MT_Time
      else if case_prefix s ''clock'' then MT_Clock
      else MT_None)"

definition material0 :: material where
  "material0 = \<lparr>layer = 0, mtype = MT_None, product_id = 0, material_id = 0, mtext = [], mpath = [],
     mrect = \<lparr>rx = 0, ry = 0, rwidth = 0, rheight = 0\<rparr>, volume = 0, rotation = 0, opacity = 100,
     clock_starttime = 0, mfont = [], fontsize = 0, olsize = 0, color = None, olcolor = None, glTexture = 0\<rparr>"

definition clamp_opacity :: "int \<Rightarrow> int" where
  "clamp_opacity o' = (if o' \<le> 0 \<or> 100 < o' then 100 else o')"

definition clamp_volume :: "int \<Rightarrow> int" where
  "clamp_volume v = (let v1 = (if v \<le> 0 then 0 else v) in if 100 \<le> v1 then 100 else v1)"

definition half_rect :: "cv_rect \<Rightarrow> bool" where
  "half_rect r \<longleftrightarrow> (rwidth r \<noteq> 0 \<and> rheight r = 0) \<or> (rwidth r = 0 \<and> rheight r \<noteq> 0)"

section \<open>Text materials\<close>

text \<open>The in-place loop that turns \<^verbatim>\<open>%20%\<close> into a space.\<close>

fun unescape_font :: "string \<Rightarrow> string" where
  "unescape_font [] = []"
| "unescape_font (c # cs) =
     (if starts_with ''%20%'' (c # cs) then CHR '' '' # unescape_font (drop 3 cs) else c # unescape_font cs)"

definition hash_color :: "string \<Rightarrow> (int \<times> int \<times> int) option" where
  "hash_color s = (if take 1 s \<noteq> ''#'' \<or> length s < 4 then None else Some (parse_color (tl s)))"

definition text_field :: "(int \<Rightarrow> int) \<Rightarrow> (int \<Rightarrow> int) \<Rightarrow> nat \<Rightarrow> string \<Rightarrow> material \<Rightarrow> material option" where
  "text_field sx sy idx s1 m =
     (if idx = 1 then (if atoi s1 \<le> 0 then None else Some (m\<lparr>layer := atoi s1\<rparr>))
      else if idx = 2 then Some (m\<lparr>mtext := take 1023 s1\<rparr>)
      else if idx = 3 then Some (m\<lparr>mrect := (mrect m)\<lparr>ry := sy (atoi s1)\<rparr>\<rparr>)
      else if idx = 4 then Some (m\<lparr>mrect := (mrect m)\<lparr>rx := sx (atoi s1)\<rparr>\<rparr>)
      else if idx = 5 then Some (m\<lparr>mrect := (mrect m)\<lparr>rwidth := sx (atoi s1)\<rparr>\<rparr>)
      else if idx = 6 then Some (m\<lparr>mrect := (mrect m)\<lparr>rheight := sy (atoi s1)\<rparr>\<rparr>)
      else if idx = 7 then Some (m\<lparr>clock_starttime := atoi s1\<rparr>)
      else if idx = 8 then Some (m\<lparr>rotation := c_rem (atoi s1) 360\<rparr>)
      else if idx = 9 then Some (m\<lparr>opacity := clamp_opacity (atoi s1)\<rparr>)
      else if idx = 10 then Some (m\<lparr>mfont := unescape_font (take 1023 s1)\<rparr>)
      else if idx = 11 then Some (m\<lparr>fontsize := atoi s1\<rparr>)
      else if idx = 12 then map_option (\<lambda>c. m\<lparr>color := Some c\<rparr>) (hash_color s1)
      else if idx = 13 then Some (m\<lparr>olsize := atoi s1\<rparr>)
      else if idx = 14 then map_option (\<lambda>c. m\<lparr>olcolor := Some c\<rparr>) (hash_color s1)
      else Some m)"

fun parse_fields :: "(nat \<Rightarrow> string \<Rightarrow> material \<Rightarrow> material option) \<Rightarrow> nat \<Rightarrow> string list \<Rightarrow> material \<Rightarrow> material option" where
  "parse_fields field idx [] m = Some m"
| "parse_fields field idx (s1 # strs) m =
     (case field idx s1 m of None \<Rightarrow> None | Some m' \<Rightarrow> parse_fields field (Suc idx) strs m')"

definition parse_material_text :: "(int \<Rightarrow> int) \<Rightarrow> (int \<Rightarrow> int) \<Rightarrow> string list \<Rightarrow> material \<Rightarrow> material option" where
  "parse_material_text sx sy strs m =
     (case parse_fields (text_field sx sy) 0 strs (m\<lparr>color := None, olcolor := None\<rparr>) of
        None \<Rightarrow> None
      | Some m' \<Rightarrow> if half_rect (mrect m') then None else Some m')"

section \<open>Streams\<close>

definition is_stream_path :: "string \<Rightarrow> bool" where
  "is_stream_path path \<longleftrightarrow> starts_with ''rtmp://'' path"

definition check_is_stream :: "material \<Rightarrow> bool" where
  "check_is_stream m \<longleftrightarrow>
     (mtype m = MT_Video \<or> mtype m = MT_Audio \<or> mtype m = MT_MainVideo) \<and> is_stream_path (mpath m)"

definition check_is_audio :: "material \<Rightarrow> bool" where
  "check_is_audio m \<longleftrightarrow> mtype m = MT_Audio \<or> mtype m = MT_MainAudio"

fun check_has_stream :: "material list \<Rightarrow> bool" where
  "check_has_stream [] = False"
| "check_has_stream (m # ms) = (check_is_stream m \<or> check_has_stream ms)"

section \<open>Materials\<close>

text \<open>The optional \<^verbatim>\<open>product:<product>:<material>:\<close> prefix.\<close>

definition product_prefix :: "string \<Rightarrow> (int \<times> int \<times> string) option" where
  "product_prefix s =
     (if starts_with ''product:'' s then
        (case strchr (drop 8 s) (CHR '':'') of
           None \<Rightarrow> None
         | Some p \<Rightarrow>
             (case strchr (tl p) (CHR '':'') of
                None \<Rightarrow> None
              | Some p2 \<Rightarrow> Some (atoi (drop 8 s), atoi (tl p), tl p2)))
      else Some (0, 0, s))"

text \<open>A URL in the path field contains colons: its pieces are put together again.\<close>

definition rejoin_url :: "string list \<Rightarrow> string list" where
  "rejoin_url strs =
     (case strs of
        a # b # c # d # rest \<Rightarrow>
          if c \<in> {''rtmp'', ''http'', ''https'', ''shm''} \<and> starts_with ''//'' d then
            (case rest of
               e # rest' \<Rightarrow> if CHR ''/'' \<in> set e then a # b # (c @ '':'' @ d @ '':'' @ e) # rest'
                            else a # b # (c @ '':'' @ d) # rest
             | [] \<Rightarrow> a # b # (c @ '':'' @ d) # rest)
          else strs
      | _ \<Rightarrow> strs)"

definition material_field :: "string \<Rightarrow> (int \<Rightarrow> int) \<Rightarrow> (int \<Rightarrow> int) \<Rightarrow> nat \<Rightarrow> string \<Rightarrow> material \<Rightarrow> material option" where
  "material_field data_dir sx sy idx s1 m =
     (if idx = 1 then
        (if mtype m \<noteq> MT_Audio \<and> mtype m \<noteq> MT_MainAudio \<and> atoi s1 \<le> 0 then None
         else Some (m\<lparr>layer := atoi s1\<rparr>))
      else if idx = 2 then
        Some (m\<lparr>mpath := (if mtype m = MT_Clock then merge_pathlist 1024 data_dir s1
                          else merge_path 1024 data_dir s1)\<rparr>)
      else if idx = 3 then Some (m\<lparr>mrect := (mrect m)\<lparr>ry := sy (atoi s1)\<rparr>\<rparr>)
      else if idx = 4 then Some (m\<lparr>mrect := (mrect m)\<lparr>rx := sx (atoi s1)\<rparr>\<rparr>)
      else if idx = 5 then Some (m\<lparr>mrect := (mrect m)\<lparr>rwidth := sx (atoi s1)\<rparr>\<rparr>)
      else if idx = 6 then Some (m\<lparr>mrect := (mrect m)\<lparr>rheight := sy (atoi s1)\<rparr>\<rparr>)
      else if idx = 7 then
        (if mtype m \<in> {MT_MainVideo, MT_MainAudio, MT_Video, MT_Audio}
         then Some (m\<lparr>volume := clamp_volume (atoi s1)\<rparr>)
         else if mtype m = MT_Clock then Some (m\<lparr>clock_starttime := atoi s1\<rparr>) else Some m)
      else if idx = 8 then Some (m\<lparr>rotation := c_rem (atoi s1) 360\<rparr>)
      else if idx = 9 then Some (m\<lparr>opacity := clamp_opacity (atoi s1)\<rparr>)
      else Some m)"

definition parse_material :: "string \<Rightarrow> (int \<Rightarrow> int) \<Rightarrow> (int \<Rightarrow> int) \<Rightarrow> string \<Rightarrow> material option" where
  "parse_material data_dir sx sy s =
     (case product_prefix s of
        None \<Rightarrow> None
      | Some (pid, mid, rest) \<Rightarrow>
          (let strs = rejoin_url (splitString rest (CHR '':''));
               m = material0\<lparr>product_id := pid, material_id := mid, mtype := string2type (hd strs)\<rparr>
           in if mtype m = MT_None then None
              else if mtype m = MT_Text \<or> mtype m = MT_Time then parse_material_text sx sy strs m
              else
                (case parse_fields (material_field data_dir sx sy) 1 (tl strs) m of
                   None \<Rightarrow> None
                 | Some m' \<Rightarrow>
                     if (mtype m' \<noteq> MT_Audio \<and> mtype m' \<noteq> MT_MainAudio \<and> layer m' \<le> 0) \<or> mpath m' = []
                        \<or> mtype m' = MT_None then None
                     else if half_rect (mrect m') then None
                     else if mtype m' \<in> {MT_MainAudio, MT_MainVideo, MT_Audio} \<and> volume m' = 0
                          then Some (m'\<lparr>volume := 100\<rparr>) else Some m')))"

section \<open>The command line's materials\<close>

record material_set =
  mainvideo :: "material option"
  mainaudio :: "material option"
  mlist :: "material list"

text \<open>
  The loop over the arguments. The test for a second main audio looks at
  \<^verbatim>\<open>mainvideo.type\<close>, as the source does. Sorting by layer is \<^verbatim>\<open>std::sort\<close>, which
  leaves open the order of materials of one layer; \<open>sort_key\<close> is one such order, and the
  theorems about the list hold for every order that \<^verbatim>\<open>layer_sorted\<close> allows.
\<close>

fun parse_materials_loop :: "(string \<Rightarrow> material option) \<Rightarrow> string list \<Rightarrow> material_set \<Rightarrow> material_set option" where
  "parse_materials_loop parse [] st = Some st"
| "parse_materials_loop parse (arg # args) st =
     (case parse arg of
        None \<Rightarrow> None
      | Some m \<Rightarrow>
          if (mtype m = MT_MainVideo \<and> map_option mtype (mainvideo st) = Some MT_MainVideo)
             \<or> (mtype m = MT_MainAudio \<and> map_option mtype (mainvideo st) = Some MT_MainAudio) then None
          else
            (let st1 = (if mtype m = MT_MainVideo then st\<lparr>mainvideo := Some m\<rparr> else st);
                 st2 = (if mtype m = MT_MainAudio then st1\<lparr>mainaudio := Some m\<rparr> else st1)
             in parse_materials_loop parse args (st2\<lparr>mlist := mlist st2 @ [m]\<rparr>)))"

definition layer_sorted :: "material list \<Rightarrow> material list \<Rightarrow> bool" where
  "layer_sorted xs ys \<longleftrightarrow> mset xs = mset ys \<and> sorted (map layer ys)"

definition parse_materials :: "string \<Rightarrow> (int \<Rightarrow> int) \<Rightarrow> (int \<Rightarrow> int) \<Rightarrow> string list \<Rightarrow> material_set option" where
  "parse_materials data_dir sx sy args =
     (case parse_materials_loop (parse_material data_dir sx sy) args
             \<lparr>mainvideo = None, mainaudio = None, mlist = []\<rparr> of
        None \<Rightarrow> None
      | Some st \<Rightarrow> Some (st\<lparr>mlist := sort_key layer (mlist st)\<rparr>))"

end
