(* ===== verification/Safe_Queue.thy ===== *)
theory Safe_Queue
  imports DV_Prelude
begin

text \<open>
  The thread-safe queues of \<^verbatim>\<open>safequeue.h\<close>. Each method runs under the queue's
  mutex, so a method is one step on the state; the one place where the mutex is released,
  the timed wait of the popping methods, is a parameter: the state found after the wait.
  Popping an empty \<^verbatim>\<open>std::queue\<close> is undefined and modelled as \<open>None\<close>.
\<close>

section \<open>SafeQueue\<close>

record 'a safe_queue =
  m_abort :: bool
  m_q :: "'a list"

definition SafeQueue :: "'a safe_queue" where
  "SafeQueue = \<lparr>m_abort = False, m_q = []\<rparr>"

definition Abort :: "'a safe_queue \<Rightarrow> 'a safe_queue" where
  "Abort s = s\<lparr>m_abort := True\<rparr>"

definition Resume :: "'a safe_queue \<Rightarrow> 'a safe_queue" where
  "Resume s = s\<lparr>m_abort := False\<rparr>"

definition Push :: "'a safe_queue \<Rightarrow> 'a \<Rightarrow> bool \<times> 'a safe_queue" where
  "Push s v = (if m_abort s then (False, s) else (True, s\<lparr>m_q := m_q s @ [v]\<rparr>))"

definition PushMove :: "'a safe_queue \<Rightarrow> 'a \<Rightarrow> bool \<times> 'a safe_queue" where
  "PushMove s v = (if m_abort s then (False, s) else (True, s\<lparr>m_q := m_q s @ [v]\<rparr>))"

definition PopRelease :: "'a safe_queue \<Rightarrow> 'a option \<times> 'a safe_queue" where
  "PopRelease s = (case m_q s of [] \<Rightarrow> (None, s) | x # xs \<Rightarrow> (Some x, s\<lparr>m_q := xs\<rparr>))"

definition PopMove :: "('a safe_queue \<Rightarrow> 'a safe_queue) \<Rightarrow> int \<Rightarrow> 'a safe_queue \<Rightarrow> 'a option \<times> 'a safe_queue" where
  "PopMove wait timeout s =
     (if m_q s = [] \<and> timeout \<le> 0 then (None, s)
      else let s1 = (if m_q s = [] then wait s else s)
           in if m_abort s1 then (None, s1)
              else case m_q s1 of [] \<Rightarrow> (None, s1) | x # xs \<Rightarrow> (Some x, s1\<lparr>m_q := xs\<rparr>))"

definition Pop :: "('a safe_queue \<Rightarrow> 'a safe_queue) \<Rightarrow> int \<Rightarrow> 'a safe_queue \<Rightarrow> 'a option \<times> 'a safe_queue" where
  "Pop wait timeout s =
     (if m_q s = [] \<and> timeout \<le> 0 then (None, s)
      else let s1 = (if m_q s = [] then wait s else s)
           in if m_abort s1 then (None, s1)
              else case m_q s1 of [] \<Rightarrow> (None, s1) | x # xs \<Rightarrow> (Some x, s1\<lparr>m_q := xs\<rparr>))"

definition Front :: "'a safe_queue \<Rightarrow> 'a option" where
  "Front s = (if m_abort s then None else case m_q s of [] \<Rightarrow> None | x # xs \<Rightarrow> Some x)"

definition Size :: "'a safe_queue \<Rightarrow> int" where
  "Size s = to_i32 (int (length (m_q s)))"

definition Clear :: "'a safe_queue \<Rightarrow> 'a safe_queue" where
  "Clear s = s\<lparr>m_q := []\<rparr>"

text \<open>\<^verbatim>\<open>m_q.size() > floors\<close> compares as \<^verbatim>\<open>size_t\<close>: a negative bound is a huge one.\<close>

fun Floors_loop :: "int \<Rightarrow> 'a list \<Rightarrow> int \<Rightarrow> int \<times> 'a list" where
  "Floors_loop floors [] discard = (discard, [])"
| "Floors_loop floors (x # xs) discard =
     (if int (length (x # xs)) > size_t floors then Floors_loop floors xs (discard + 1) else (discard, x # xs))"

definition Floors :: "'a safe_queue \<Rightarrow> int \<Rightarrow> int \<times> 'a safe_queue" where
  "Floors s floors = (let (d, xs) = Floors_loop floors (m_q s) 0 in (d, s\<lparr>m_q := xs\<rparr>))"

definition Discard :: "'a safe_queue \<Rightarrow> int \<Rightarrow> (int \<times> 'a safe_queue) option" where
  "Discard s discard =
     (if int (length (m_q s)) < discard then None
      else Some (if 0 < discard then discard else 0, s\<lparr>m_q := drop (nat discard) (m_q s)\<rparr>))"

section \<open>SafeDoubleQueue\<close>

type_synonym 'a safe_double_queue = "'a list"

definition pushBack :: "'a safe_double_queue \<Rightarrow> 'a \<Rightarrow> 'a safe_double_queue" where "pushBack q t = q @ [t]"
definition pushFront :: "'a safe_double_queue \<Rightarrow> 'a \<Rightarrow> 'a safe_double_queue" where "pushFront q t = t # q"
definition popBack :: "'a safe_double_queue \<Rightarrow> ('a \<times> 'a safe_double_queue) option" where
  "popBack q = (if q = [] then None else Some (last q, butlast q))"
definition popFornt :: "'a safe_double_queue \<Rightarrow> ('a \<times> 'a safe_double_queue) option" where
  "popFornt q = (case q of [] \<Rightarrow> None | t # q' \<Rightarrow> Some (t, q'))"
definition dq_front :: "'a safe_double_queue \<Rightarrow> 'a option" where
  "dq_front q = (case q of [] \<Rightarrow> None | t # q' \<Rightarrow> Some t)"
definition dq_back :: "'a safe_double_queue \<Rightarrow> 'a option" where
  "dq_back q = (if q = [] then None else Some (last q))"

section \<open>The queue as a channel\<close>

text \<open>While the queue is not aborted, pushing and popping without waiting is a channel.\<close>

definition not_aborted :: "'a safe_queue \<Rightarrow> bool" where "not_aborted s \<longleftrightarrow> \<not> m_abort s"

interpretation safe_ch: fifo_channel Push "Pop (\<lambda>s. s) 0" m_q not_aborted
  by unfold_locales (auto simp: Push_def Pop_def not_aborted_def Let_def split: if_splits list.splits)

interpretation safe_move_ch: fifo_channel PushMove "PopMove (\<lambda>s. s) 0" m_q not_aborted
  by unfold_locales (auto simp: PushMove_def PopMove_def not_aborted_def Let_def split: if_splits list.splits)

lemma Floors_loop_eq:
  "0 \<le> floors \<Longrightarrow> floors < 2 ^ 64 \<Longrightarrow>
     Floors_loop floors xs d = (d + int (length xs - nat floors), drop (length xs - nat floors) xs)"
proof (induction floors xs d rule: Floors_loop.induct)
  case (2 floors x xs d)
  have s: "size_t floors = floors" using 2 by (simp add: size_t_id)
  show ?case
  proof (cases "floors < int (length (x # xs))")
    case True
    then have "length (x # xs) - nat floors = Suc (length xs - nat floors)" using 2 by simp
    with 2 True s show ?thesis by simp
  next
    case False
    then have "length (x # xs) - nat floors = 0" by simp
    with False s show ?thesis by simp
  qed
qed simp

text \<open>C17. Over every history of pushes and non-waiting pops on a fresh queue, popped values
  followed by the queued ones are the pushed values in order.\<close>

theorem safe_queue_fifo:
  "safe_ch.run_chan SafeQueue ops [] [] = (s', pushed, popped) \<Longrightarrow> popped @ m_q s' = pushed"
  using safe_ch.run_chan_fifo [of SafeQueue ops "[]" "[]"] by (simp add: SafeQueue_def not_aborted_def)

theorem safe_queue_fifo_witness:
  "let (s', pushed, popped) = safe_ch.run_chan SafeQueue [ChanPut (1 :: int), ChanPut 2, ChanGet] [] []
   in popped @ m_q s' = pushed"
proof -
  obtain s' pushed popped where
    r: "safe_ch.run_chan SafeQueue [ChanPut (1 :: int), ChanPut 2, ChanGet] [] [] = (s', pushed, popped)"
    by (cases "safe_ch.run_chan SafeQueue [ChanPut (1 :: int), ChanPut 2, ChanGet] [] []")
  with safe_queue_fifo [OF r] show ?thesis by simp
qed

text \<open>Aborting refuses every push and every pop but loses nothing: after resuming, the
  queue holds what it held, and a bound on its size drops the oldest values only.\<close>

lemma abort_resume_floors:
  "Push (Abort s) v = (False, Abort s) \<and> fst (Pop wait 0 (Abort s)) = None \<and> m_q (Resume (Abort s)) = m_q s \<and>
   (0 \<le> n \<and> n < 2 ^ 64 \<longrightarrow>
      fst (Floors s n) = int (length (m_q s) - nat n) \<and>
      m_q (snd (Floors s n)) = drop (length (m_q s) - nat n) (m_q s))"
  by (auto simp: Push_def Pop_def Abort_def Resume_def Floors_def Floors_loop_eq Let_def)

lemma abort_resume_floors_example:
  "m_q (snd (Floors (\<lparr>m_abort = False, m_q = [1 :: int, 2, 3]\<rparr>) 2)) = [2, 3]"
  using abort_resume_floors [of "\<lparr>m_abort = False, m_q = [1 :: int, 2, 3]\<rparr>" 0 id 2] by simp

end
