(* ===== verification/Stream_Cmd.thy ===== *)
theory Stream_Cmd
  imports C_Text Safe_Queue
begin

text \<open>
  The live commands (\<^verbatim>\<open>stream_cmd.cpp\<close>): parsing a command line, the reading thread
  turn by turn, and the hand-over of the queued commands to the frame loop. What
  \<^verbatim>\<open>stat\<close>, \<^verbatim>\<open>fopen\<close> and the file yield in a turn are the fields of an
  environment record.
\<close>

section \<open>Commands\<close>

datatype cmd_operation = ADD | DEL | MOD | SUBOUT | STOPSUB | SWPROD

record stream_cmd_info =
  operation :: cmd_operation
  c_product :: int
  c_material :: int
  c_layer :: int
  c_x :: int
  c_y :: int
  c_w :: int
  c_h :: int
  c_spec :: string

definition cmd0 :: stream_cmd_info where
  "cmd0 = \<lparr>operation = ADD, c_product = 0, c_material = 0, c_layer = 0, c_x = 0, c_y = 0, c_w = 0, c_h = 0,
     c_spec = []\<rparr>"

datatype line_result = LineComment | LineBad | LineCmd stream_cmd_info

definition cmd_word :: "string \<Rightarrow> string \<Rightarrow> bool" where
  "cmd_word w line \<longleftrightarrow> starts_with_ci (w @ '' '') line \<or> starts_with_ci (w @ [CHR 0x09]) line"

definition cmd_args :: "nat \<Rightarrow> string \<Rightarrow> string" where
  "cmd_args n line = dropWhile is_blank (drop n line)"

text \<open>
  One line of the command stream. As in the source, the command \<^verbatim>\<open>MOD\<close> sets the
  operation \<^verbatim>\<open>DEL\<close>, and the material text of \<^verbatim>\<open>ADD\<close> and \<^verbatim>\<open>SUBOUT\<close>
  runs to the end of the line read, line end included.
\<close>

definition parse_cmd_line :: "string \<Rightarrow> line_result" where
  "parse_cmd_line buffer =
     (let line = dropWhile is_space buffer in
      if starts_with ''#'' line then LineComment
      else if cmd_word ''ADD'' line then
        (let a = cmd_args 4 line; strs = splitString a (CHR '':'') in
         if length strs < 2 then LineBad
         else LineCmd (cmd0\<lparr>operation := ADD, c_product := atoi (strs ! 0), c_material := atoi (strs ! 1),
                c_spec := (case strchr (drop (length (strs ! 0) + length (strs ! 1) + 1) a) (CHR '':'') of
                             None \<Rightarrow> [] | Some s \<Rightarrow> tl s)\<rparr>))
      else if cmd_word ''DEL'' line then
        (let strs = splitString (cmd_args 4 line) (CHR '':'') in
         if length strs < 2 then LineBad
         else LineCmd (cmd0\<lparr>operation := DEL, c_product := atoi (strs ! 0), c_material := atoi (strs ! 1)\<rparr>))
      else if cmd_word ''MOD'' line then
        (let strs = splitString (cmd_args 4 line) (CHR '':'') in
         if length strs < 7 then LineBad
         else LineCmd (cmd0\<lparr>operation := DEL, c_product := atoi (strs ! 0), c_material := atoi (strs ! 1),
                c_layer := atoi (strs ! 2), c_y := atoi (strs ! 3), c_x := atoi (strs ! 4),
                c_w := atoi (strs ! 5), c_h := atoi (strs ! 6)\<rparr>))
      else if cmd_word ''SUBOUT'' line then
        LineCmd (cmd0\<lparr>operation := SUBOUT, c_spec := cmd_args 7 line\<rparr>)
      else if starts_with_ci ''STOPSUB'' line then LineCmd (cmd0\<lparr>operation := STOPSUB\<rparr>)
      else if cmd_word ''SWPROD'' line then
        LineCmd (cmd0\<lparr>operation := SWPROD, c_product := atoi (cmd_args 7 line)\<rparr>)
      else LineBad)"

section \<open>The reading thread\<close>

text \<open>\<^verbatim>\<open>fgets\<close> with a buffer of 10240 bytes: a line with its end, or 10239 bytes of it.\<close>

definition first_line :: "string \<Rightarrow> string" where
  "first_line s = takeWhile (\<lambda>c. c \<noteq> CHR 0x0A) s @ take 1 (dropWhile (\<lambda>c. c \<noteq> CHR 0x0A) s)"

lemma first_line_pos: "s \<noteq> [] \<Longrightarrow> 0 < length (take 10239 (first_line s))"
  by (cases s) (auto simp: first_line_def)

function fgets_lines :: "string \<Rightarrow> string list" where
  "fgets_lines s =
     (if s = [] then []
      else let l = take 10239 (first_line s) in l # fgets_lines (drop (length l) s))"
  by pat_completeness auto
termination
proof (relation "measure length")
  fix s :: string and l
  assume "s \<noteq> []" "l = take 10239 (first_line s)"
  then show "(drop (length l) s, s) \<in> measure length"
    using first_line_pos [of s] by (cases s) auto
qed simp

declare fgets_lines.simps [simp del]

record cmd_thread =
  bExit :: bool
  bStopped :: bool
  reader_open :: bool
  text_file_mode :: bool
  prev_mtime :: "int \<times> int"
  cmdQueue :: "stream_cmd_info safe_queue"

datatype stat_result = StatNoEnt | StatError | StatOk "int \<times> int"

record cmd_env =
  env_stat :: stat_result
  env_fopen :: bool
  env_text :: string

fun queue_lines :: "string list \<Rightarrow> stream_cmd_info safe_queue \<Rightarrow> stream_cmd_info safe_queue" where
  "queue_lines [] q = q"
| "queue_lines (l # ls) q =
     (case parse_cmd_line l of LineCmd c \<Rightarrow> queue_lines ls (snd (Push q c)) | _ \<Rightarrow> queue_lines ls q)"

text \<open>A turn of \<^verbatim>\<open>RUN\<close>; \<open>None\<close> when the loop has ended.\<close>

definition cmd_turn :: "cmd_env \<Rightarrow> cmd_thread \<Rightarrow> cmd_thread option" where
  "cmd_turn env t =
     (if bExit t then None
      else if bStopped t then Some t
      else if text_file_mode t \<and> (env_stat env = StatNoEnt \<or> env_stat env = StatError
              \<or> env_stat env = StatOk (prev_mtime t)) then Some t
      else if \<not> reader_open t \<and> \<not> env_fopen env then Some t
      else
        (let t1 = (case env_stat env of
                     StatOk tm \<Rightarrow> if text_file_mode t then t\<lparr>prev_mtime := tm\<rparr> else t
                   | _ \<Rightarrow> t)
         in Some (t1\<lparr>cmdQueue := queue_lines (fgets_lines (env_text env)) (cmdQueue t1), reader_open := False\<rparr>)))"

definition cmd_STOP :: "cmd_thread \<Rightarrow> cmd_thread" where "cmd_STOP t = t\<lparr>bStopped := True\<rparr>"

definition cmd_START :: "bool \<Rightarrow> cmd_thread \<Rightarrow> cmd_thread" where
  "cmd_START pure_text t = t\<lparr>bExit := False, bStopped := False, text_file_mode := pure_text\<rparr>"

definition cmd_EXIT :: "cmd_thread \<Rightarrow> cmd_thread" where "cmd_EXIT t = t\<lparr>bExit := True\<rparr>"

fun cmd_run :: "cmd_env list \<Rightarrow> cmd_thread \<Rightarrow> cmd_thread" where
  "cmd_run [] t = t"
| "cmd_run (e # es) t = (case cmd_turn e t of None \<Rightarrow> t | Some t' \<Rightarrow> cmd_run es t')"

section \<open>Taking the commands\<close>

function get_stream_cmds :: "stream_cmd_info safe_queue \<Rightarrow> stream_cmd_info list \<times> stream_cmd_info safe_queue" where
  "get_stream_cmds q =
     (case Pop (\<lambda>s. s) 0 q of
        (None, q') \<Rightarrow> ([], q')
      | (Some c, q') \<Rightarrow> (let (cs, q'') = get_stream_cmds q' in (c # cs, q'')))"
  by pat_completeness auto
termination
  by (relation "measure (\<lambda>q. length (m_q q))") (auto simp: Pop_def Let_def split: if_splits list.splits)

declare get_stream_cmds.simps [simp del]

end
