(* ===== verification/Event_Push.thy ===== *)
theory Event_Push
  imports Safe_Queue C_Text
begin

text \<open>
  The event channel (\<^verbatim>\<open>event.cpp\<close>, \<^verbatim>\<open>event.h\<close>): \<^verbatim>\<open>send_event\<close> formats one line per
  event and queues it; the thread \<^verbatim>\<open>PushEventThread::RUN\<close>, modelled one turn of its loop at a
  time, writes the queued lines to a named pipe. The results of \<^verbatim>\<open>open\<close> and \<^verbatim>\<open>write\<close>, and
  the clock, are inputs; \<open>runner\<close> is the thread pointer and \<open>ended\<close> says that \<^verbatim>\<open>RUN\<close> has
  returned. \<open>wire\<close> records the buffers given to \<^verbatim>\<open>write\<close>, oldest first.
\<close>

section \<open>Codes\<close>

datatype EventCode = ET_PUSH_FAILURE | ET_INIT_FAILURE | ET_READ_FAILURE | ET_STREAM_NONEXIST
  | ET_MATERIAL_ADD_FAIL | ET_MATERIAL_DEL_FAIL | ET_MATERIAL_MOD_FAIL | ET_INIT_SUCCESS
  | ET_MATERIAL_ADD_SUCC | ET_MATERIAL_DEL_SUCC | ET_MATERIAL_MOD_SUCC | ET_START_OF_STREAM | ET_END_OF_STREAM

fun event_number :: "EventCode \<Rightarrow> int" where
  "event_number ET_PUSH_FAILURE = 2001"
| "event_number ET_INIT_FAILURE = 2002"
| "event_number ET_READ_FAILURE = 2003"
| "event_number ET_STREAM_NONEXIST = 2004"
| "event_number ET_MATERIAL_ADD_FAIL = 2010"
| "event_number ET_MATERIAL_DEL_FAIL = 2011"
| "event_number ET_MATERIAL_MOD_FAIL = 2012"
| "event_number ET_INIT_SUCCESS = 2501"
| "event_number ET_MATERIAL_ADD_SUCC = 2510"
| "event_number ET_MATERIAL_DEL_SUCC = 2511"
| "event_number ET_MATERIAL_MOD_SUCC = 2512"
| "event_number ET_START_OF_STREAM = 2513"
| "event_number ET_END_OF_STREAM = 2514"

section \<open>The pushing thread\<close>

record push_thread =
  pStopped :: bool
  pExit :: bool
  eventBuffers :: "string safe_queue"
  pwriter :: int
  runner :: bool
  ended :: bool
  fifo_name :: string
  wire :: "string list"

definition PushEventThread :: push_thread where
  "PushEventThread = \<lparr>pStopped = False, pExit = False, eventBuffers = SafeQueue, pwriter = -1,
     runner = False, ended = False, fifo_name = [], wire = []\<rparr>"

record push_env =
  env_open :: int
  env_write :: int

text \<open>One turn of \<^verbatim>\<open>RUN\<close>; the second component says that the loop goes on. The result of
  \<^verbatim>\<open>write\<close> is only logged.\<close>

definition push_RUN :: "push_env \<Rightarrow> push_thread \<Rightarrow> push_thread \<times> bool" where
  "push_RUN env t =
     (if pStopped t then (t, \<not> pExit t)
      else
        let t1 = (if pwriter t < 0 then t\<lparr>pwriter := env_open env\<rparr> else t)
        in if pwriter t1 < 0 then (t1, True)
           else case PopMove (\<lambda>s. s) 0 (eventBuffers t1) of
                  (None, q) \<Rightarrow>
                    if pExit t1 then (t1\<lparr>eventBuffers := q, pwriter := -1\<rparr>, False)
                    else (t1\<lparr>eventBuffers := q\<rparr>, True)
                | (Some buf, q) \<Rightarrow> (t1\<lparr>eventBuffers := q, wire := wire t1 @ [buf]\<rparr>, True))"

definition push_Write :: "string \<Rightarrow> int \<Rightarrow> push_thread \<Rightarrow> int \<times> push_thread" where
  "push_Write data n t = (0, t\<lparr>eventBuffers := snd (PushMove (eventBuffers t) (take (nat n) data))\<rparr>)"

definition push_STOP :: "bool \<Rightarrow> push_thread \<Rightarrow> push_thread" where
  "push_STOP force t =
     (let t1 = t\<lparr>pStopped := True\<rparr>
      in if force then t1\<lparr>eventBuffers := Clear (eventBuffers t1)\<rparr> else t1)"

definition push_START :: "string \<Rightarrow> push_thread \<Rightarrow> push_thread" where
  "push_START fifo t =
     (let t1 = t\<lparr>fifo_name := fifo, pExit := False, pStopped := False\<rparr>
      in if \<not> runner t1 then t1\<lparr>runner := True, ended := False\<rparr> else t1)"

text \<open>\<^verbatim>\<open>EXIT\<close>: without \<open>force\<close> it joins the thread, so it returns only in a state the
  thread has ended in; \<open>wait_end\<close> gives the state found then. Forced, it leaves thread and pointer alone.\<close>

definition push_EXIT :: "(push_thread \<Rightarrow> push_thread) \<Rightarrow> bool \<Rightarrow> push_thread \<Rightarrow> push_thread" where
  "push_EXIT wait_end force t =
     (let t1 = t\<lparr>pExit := True\<rparr>
      in if force then t1 else (wait_end t1)\<lparr>runner := False\<rparr>)"

definition init_fifo_event :: "string \<Rightarrow> push_thread \<Rightarrow> int \<times> push_thread" where
  "init_fifo_event pipe_name t = (0, push_START pipe_name t)"

definition finish_fifo_event :: "push_thread \<Rightarrow> int \<times> push_thread" where
  "finish_fifo_event t = (0, push_EXIT (\<lambda>s. s) True t)"

section \<open>Sending\<close>

definition getCurrentTime :: "int \<times> int \<Rightarrow> int" where
  "getCurrentTime tv = fst tv * 1000 + c_div (snd tv) 1000"

text \<open>The formatted line. A string seen through \<^verbatim>\<open>c_str\<close> and \<^verbatim>\<open>%s\<close> ends at its first NUL.\<close>

definition c_str :: "string \<Rightarrow> string" where "c_str s = takeWhile (\<lambda>c. c \<noteq> CHR 0x00) s"

definition quote :: char where "quote = CHR 0x22"

definition quoted :: "string \<Rightarrow> string" where "quoted s = quote # s @ [quote]"

definition event_line :: "int \<Rightarrow> int \<Rightarrow> string \<Rightarrow> string" where
  "event_line ecode now msg =
     ''{'' @ quoted ''code'' @ '':'' @ quoted (print_int ecode) @ '', '' @ quoted ''timestamp'' @ '':''
       @ quoted (print_int now) @ '', '' @ quoted ''message'' @ '':'' @ quoted (c_str msg) @ ''}'' @ [CHR 0x0A]"

text \<open>\<^verbatim>\<open>snprintf\<close> stores at most \<^verbatim>\<open>n - 1\<close> characters and a NUL and returns the full length.\<close>

definition snprintf :: "int \<Rightarrow> string \<Rightarrow> string \<times> int" where
  "snprintf n s = (take (nat (n - 1)) s, int (length s))"

definition send_event :: "EventCode \<Rightarrow> string \<Rightarrow> int \<times> int \<Rightarrow> push_thread \<Rightarrow> int \<times> push_thread" where
  "send_event ecode msg tv t =
     (if fifo_name t = [] \<or> \<not> runner t then (-1, t)
      else
        let size = int (length msg) + 256;
            (buf, len) = snprintf (size - 1) (event_line (event_number ecode) (getCurrentTime tv) msg)
        in push_Write buf len t)"

section \<open>Laws\<close>

lemma print_nat_length: "n < 10 ^ k \<Longrightarrow> 0 < k \<Longrightarrow> length (print_nat n) \<le> k"
proof (induction n arbitrary: k rule: print_nat.induct)
  case (1 n)
  show ?case
  proof (cases "n < 10")
    case True
    then show ?thesis using 1 by (simp add: print_nat.simps [of n])
  next
    case False
    have k: "1 < k" using 1(2,3) False by (cases "k = 1") auto
    then obtain j where j: "k = Suc j" "0 < j" by (cases k) auto
    have "n div 10 < 10 ^ j" using 1(2) j by (simp add: less_mult_imp_div_less mult.commute)
    then have "length (print_nat (n div 10)) \<le> j" using 1(1) False j by simp
    then show ?thesis using False j by (simp add: print_nat.simps [of n])
  qed
qed

lemma print_int_length: "- (2 ^ 63) \<le> i \<Longrightarrow> i < 2 ^ 63 \<Longrightarrow> length (print_int i) \<le> 20"
proof -
  assume i: "- (2 ^ 63) \<le> i" "i < 2 ^ 63"
  have "nat (abs i) < 10 ^ 19" using i by (simp add: nat_less_iff)
  then have "length (print_nat (nat (abs i))) \<le> 19" by (rule print_nat_length) simp
  then show ?thesis by (auto simp: print_int_def)
qed

lemma event_number_range: "2001 \<le> event_number c \<and> event_number c \<le> 2514"
  by (cases c) auto

lemma c_str_length: "length (c_str s) \<le> length s"
  by (simp add: c_str_def length_takeWhile_le)

lemma event_line_length:
  assumes "- (2 ^ 63) \<le> ecode" "ecode < 2 ^ 63" "- (2 ^ 63) \<le> now" "now < 2 ^ 63"
  shows "length (event_line ecode now msg) \<le> length msg + 82"
  using print_int_length [OF assms(1,2)] print_int_length [OF assms(3,4)] c_str_length [of msg]
  by (simp add: event_line_def quoted_def)

text \<open>A queued line is the whole formatted line.\<close>

lemma send_event_queues:
  assumes "fifo_name t \<noteq> []" "runner t" "- (2 ^ 63) \<le> getCurrentTime tv" "getCurrentTime tv < 2 ^ 63"
  shows "send_event c msg tv t =
    (0, t\<lparr>eventBuffers := snd (PushMove (eventBuffers t) (event_line (event_number c) (getCurrentTime tv) msg))\<rparr>)"
proof -
  have "length (event_line (event_number c) (getCurrentTime tv) msg) \<le> length msg + 82"
    by (rule event_line_length) (use event_number_range [of c] assms in auto)
  then show ?thesis using assms by (simp add: send_event_def snprintf_def push_Write_def Let_def)
qed

end
