(* ===== verification/Main_Commands.thy ===== *)
theory Main_Commands
  imports Material_Parse Stream_Cmd Event_Push
begin

text \<open>
  The live commands in the frame loop (\<^verbatim>\<open>decorateVideo.cpp\<close>, the first part of a turn) and
  the hand-over of freshly opened materials between the opening thread and the frame loop
  (\<^verbatim>\<open>material.cpp\<close>, \<^verbatim>\<open>pmlist\<close>). Calls into other components are recorded as
  actions; \<open>sx\<close>, \<open>sy\<close> are the double conversions of the material parser and
  \<open>atof_int\<close> is \<^verbatim>\<open>(int)atof\<close>.
\<close>

section \<open>State\<close>

record substream =
  rtmpout :: "string option"
  sub_w :: int
  sub_h :: int
  sub_fps :: int
  sub_bitrate :: int
  sub_disable_audio :: int
  sub_audio_fifo :: string
  sub_running :: bool
  start_frameno :: int
  cur_frameno :: int

datatype live_action =
    DeleteTexture int
  | SendEvent EventCode string
  | CloseMaterial material
  | StopDecoder material
  | StartDecoder material
  | RemoveFile string
  | StartStreamout substream
  | StopStreamout

record live =
  lv_mlist :: "material list"
  lv_product :: int
  lv_new :: "material list"
  lv_sub :: substream
  lv_modified :: bool
  lv_log :: "live_action list"

record live_env =
  le_data_dir :: string
  le_sx :: "int \<Rightarrow> int"
  le_sy :: "int \<Rightarrow> int"
  le_atof_int :: "string \<Rightarrow> int"
  le_disable_opengl :: bool
  le_fps :: int
  le_num :: int
  le_outputvideo :: string
  le_time :: string
  le_mkfifo_ok :: bool


definition log_action :: "live_action \<Rightarrow> live \<Rightarrow> live" where
  "log_action a st = st\<lparr>lv_log := lv_log st @ [a]\<rparr>"

text \<open>The material a delete or modify command addresses: the first one that matches.\<close>

definition cmd_matches :: "stream_cmd_info \<Rightarrow> material \<Rightarrow> bool" where
  "cmd_matches c m \<longleftrightarrow> (c_product c \<le> 0 \<or> product_id m = c_product c) \<and> material_id m = c_material c"

fun find_index :: "('a \<Rightarrow> bool) \<Rightarrow> 'a list \<Rightarrow> nat option" where
  "find_index P [] = None"
| "find_index P (x # xs) = (if P x then Some 0 else map_option Suc (find_index P xs))"

section \<open>Commands\<close>

definition exec_add :: "live_env \<Rightarrow> stream_cmd_info \<Rightarrow> live \<Rightarrow> live" where
  "exec_add e c st =
     (case parse_material (le_data_dir e) (le_sx e) (le_sy e) (c_spec c) of
        None \<Rightarrow> st
      | Some m \<Rightarrow>
          (let t1 = (if mtype m = MT_MainVideo then MT_Video else mtype m);
               t2 = (if t1 = MT_MainAudio then MT_Audio else t1)
           in st\<lparr>lv_new := lv_new st @ [m\<lparr>mtype := t2, product_id := c_product c, material_id := c_material c\<rparr>]\<rparr>))"

definition exec_del :: "live_env \<Rightarrow> stream_cmd_info \<Rightarrow> live \<Rightarrow> live" where
  "exec_del e c st =
     (case find_index (cmd_matches c) (lv_mlist st) of
        None \<Rightarrow> st
      | Some i \<Rightarrow>
          (let m = lv_mlist st ! i
           in if mtype m = MT_MainVideo \<or> mtype m = MT_MainAudio then st
              else
                (let st1 = (if \<not> le_disable_opengl e \<and> glTexture m \<noteq> 0
                            then log_action (DeleteTexture (glTexture m)) st else st);
                     st2 = log_action (SendEvent ET_MATERIAL_DEL_SUCC (''Delete material '' @ mpath m @ '' successfully'')) st1;
                     st3 = log_action (CloseMaterial m) st2
                 in st3\<lparr>lv_mlist := take i (lv_mlist st3) @ drop (Suc i) (lv_mlist st3)\<rparr>)))"

definition exec_mod :: "live_env \<Rightarrow> stream_cmd_info \<Rightarrow> live \<Rightarrow> live" where
  "exec_mod e c st =
     (case find_index (cmd_matches c) (lv_mlist st) of
        None \<Rightarrow> st
      | Some i \<Rightarrow>
          (let m = lv_mlist st ! i
           in if mtype m = MT_MainAudio \<or> mtype m = MT_Audio then st
              else
                (let m' = m\<lparr>layer := c_layer c,
                            mrect := \<lparr>rx = le_sx e (c_x c), ry = le_sy e (c_y c),
                                      rwidth = le_sx e (c_w c), rheight = le_sy e (c_h c)\<rparr>\<rparr>;
                     st1 = log_action (SendEvent ET_MATERIAL_MOD_SUCC (''Modify material '' @ mpath m @ '' successfully''))
                             (st\<lparr>lv_mlist := (lv_mlist st)[i := m']\<rparr>)
                 in st1\<lparr>lv_modified := True\<rparr>)))"

text \<open>\<^verbatim>\<open>SUBOUT\<close>: \<open>None\<close> is the early return that ends the program.\<close>

definition exec_subout :: "live_env \<Rightarrow> stream_cmd_info \<Rightarrow> live \<Rightarrow> live option" where
  "exec_subout e c st =
     (let spec = take 10239 (c_spec c);
          sub0 = (lv_sub st)\<lparr>rtmpout := Some spec\<rparr>
      in case (case strrchr spec (CHR ''/'') of None \<Rightarrow> None | Some lastslash \<Rightarrow> strchr lastslash (CHR '':'')) of
           None \<Rightarrow> Some (st\<lparr>lv_sub := sub0\<rparr>)
         | Some param \<Rightarrow>
             (let url = take (length spec - length param) spec;
                  strs = splitCString (tl param) (CHR '':'')
              in if length strs < 4 then None
                 else
                   (let fps0 = le_atof_int e (strs ! 2);
                        sub1 = sub0\<lparr>rtmpout := Some url, sub_w := atoi (strs ! 0), sub_h := atoi (strs ! 1),
                                 sub_fps := (if le_fps e < fps0 then le_fps e else fps0),
                                 sub_bitrate := atoi (strs ! 3),
                                 sub_disable_audio := (if 5 \<le> length strs \<and> atoi (strs ! 4) \<noteq> 0 then 1 else 0)\<rparr>;
                        st1 = (if sub_disable_audio sub1 = 0 \<and> sub_audio_fifo sub1 \<noteq> []
                               then log_action (RemoveFile (sub_audio_fifo sub1)) st else st);
                        sub2 = (if sub_disable_audio sub1 = 0
                                then sub1\<lparr>sub_audio_fifo := take 1024 (le_outputvideo e @ ''.substream.'' @ le_time e @ ''.fifo'')\<rparr>
                                else sub1)
                    in if sub_running sub2 then Some (st1\<lparr>lv_sub := sub2\<rparr>)
                       else
                         (let sub3 = sub2\<lparr>start_frameno := le_num e, cur_frameno := 0\<rparr>
                          in Some (log_action (StartStreamout sub3) (st1\<lparr>lv_sub := sub3\<lparr>sub_running := sub_disable_audio sub3 \<noteq> 0 \<or> le_mkfifo_ok e\<rparr>\<rparr>))))))"

definition exec_stopsub :: "live \<Rightarrow> live" where
  "exec_stopsub st = log_action StopStreamout (st\<lparr>lv_sub := (lv_sub st)\<lparr>sub_running := False\<rparr>\<rparr>)"

text \<open>Switching the product stops the decoders of the old product and starts those of the new one.\<close>

fun switch_decoders :: "int \<Rightarrow> int \<Rightarrow> material list \<Rightarrow> live_action list" where
  "switch_decoders old new [] = []"
| "switch_decoders old new (m # ms) =
     (if mtype m = MT_Audio \<or> mtype m = MT_Video then
        (if 0 < product_id m \<and> product_id m = old then StopDecoder m # switch_decoders old new ms
         else if 0 < product_id m \<and> product_id m = new then StartDecoder m # switch_decoders old new ms
         else switch_decoders old new ms)
      else switch_decoders old new ms)"

definition exec_swprod :: "stream_cmd_info \<Rightarrow> live \<Rightarrow> live" where
  "exec_swprod c st =
     (if c_product c \<le> 0 then st
      else if 0 < c_product c \<and> lv_product st \<noteq> c_product c then
        st\<lparr>lv_product := c_product c,
           lv_log := lv_log st @ switch_decoders (lv_product st) (c_product c) (lv_mlist st)\<rparr>
      else st)"

definition exec_cmd :: "live_env \<Rightarrow> stream_cmd_info \<Rightarrow> live \<Rightarrow> live option" where
  "exec_cmd e c st =
     (if operation c \<noteq> SUBOUT \<and> operation c \<noteq> STOPSUB \<and> operation c \<noteq> SWPROD \<and> c_material c < 1 then Some st
      else case operation c of
        ADD \<Rightarrow> Some (exec_add e c st)
      | DEL \<Rightarrow> Some (exec_del e c st)
      | MOD \<Rightarrow> Some (exec_mod e c st)
      | SUBOUT \<Rightarrow> exec_subout e c st
      | STOPSUB \<Rightarrow> Some (exec_stopsub st)
      | SWPROD \<Rightarrow> Some (exec_swprod c st))"

fun exec_cmds :: "live_env \<Rightarrow> stream_cmd_info list \<Rightarrow> live \<Rightarrow> live option" where
  "exec_cmds e [] st = Some st"
| "exec_cmds e (c # cs) st = (case exec_cmd e c st of None \<Rightarrow> None | Some st' \<Rightarrow> exec_cmds e cs st')"

section \<open>Opening materials in another thread\<close>

text \<open>
  The one-slot mailbox \<^verbatim>\<open>pmlist\<close> with the opening threads that wait to fill it. A thread
  holds the materials it was given; opening them is a parameter that either fails or yields
  them opened. A step of the mailbox is one atomic operation of one thread.
\<close>

record mailbox =
  mb_slot :: "material list option"
  mb_waiting :: "material list list"
  mb_events :: "live_action list"

definition submit_open_materials :: "(material list \<Rightarrow> material list option) \<Rightarrow> material list \<Rightarrow> mailbox \<Rightarrow> mailbox" where
  "submit_open_materials open_materials new_mlist mb =
     (case open_materials new_mlist of
        Some ms \<Rightarrow> mb\<lparr>mb_waiting := mb_waiting mb @ [ms],
                      mb_events := mb_events mb @ map (\<lambda>m. SendEvent ET_MATERIAL_ADD_SUCC (''Add material '' @ mpath m @ '' successfully'')) ms\<rparr>
      | None \<Rightarrow> mb\<lparr>mb_events := mb_events mb @
                  concat (map (\<lambda>m. [CloseMaterial m, SendEvent ET_MATERIAL_ADD_FAIL (''Add material '' @ mpath m @ '' fail'')]) new_mlist)\<rparr>)"

text \<open>Thread \<open>i\<close> of the waiting ones tries its compare-and-swap; on a full slot it sleeps.\<close>

definition try_publish :: "nat \<Rightarrow> mailbox \<Rightarrow> mailbox" where
  "try_publish i mb =
     (if mb_slot mb = None \<and> i < length (mb_waiting mb)
      then mb\<lparr>mb_slot := Some (mb_waiting mb ! i), mb_waiting := take i (mb_waiting mb) @ drop (Suc i) (mb_waiting mb)\<rparr>
      else mb)"

definition check_open_materials :: "mailbox \<Rightarrow> material list option \<times> mailbox" where
  "check_open_materials mb = (mb_slot mb, mb\<lparr>mb_slot := None\<rparr>)"

text \<open>
  The rest of the command part of a turn: submit the new materials, take opened ones, and
  sort when something changed. \<^verbatim>\<open>std::sort\<close> by layer is \<open>sort_key\<close>, one of the orders
  it allows.
\<close>

definition commands_turn :: "(material list \<Rightarrow> material list option) \<Rightarrow> live_env \<Rightarrow> stream_cmd_info list \<Rightarrow> live
    \<Rightarrow> mailbox \<Rightarrow> (live \<times> mailbox) option" where
  "commands_turn open_materials e cmds st mb =
     (case exec_cmds e cmds (st\<lparr>lv_new := [], lv_modified := False\<rparr>) of
        None \<Rightarrow> None
      | Some st1 \<Rightarrow>
          (let mb1 = (if cmds \<noteq> [] \<and> lv_new st1 \<noteq> [] then submit_open_materials open_materials (lv_new st1) mb else mb);
               (got, mb2) = check_open_materials mb1
           in if got \<noteq> None \<or> lv_modified st1 then
                Some (st1\<lparr>lv_mlist := sort_key layer (lv_mlist st1 @ (case got of None \<Rightarrow> [] | Some ms \<Rightarrow> ms))\<rparr>, mb2)
              else Some (st1, mb2)))"

end
