(* ===== verification/Material_Parse_Thms.thy ===== *)
theory Material_Parse_Thms
  imports Material_Parse
begin

text \<open>
  Properties of the material parsers: every accepted material is well formed and fits its
  fixed buffers, printing and parsing are inverse, the parsed list is complete and ordered,
  there is at most one main video, and a second main audio is not noticed.
\<close>

section \<open>Well-formed materials\<close>

definition material_ok :: "material \<Rightarrow> bool" where
  "material_ok m \<longleftrightarrow> mtype m \<noteq> MT_None \<and>
     (check_is_audio m \<or> (if mtype m = MT_Text \<or> mtype m = MT_Time then 0 \<le> layer m else 0 < layer m)) \<and>
     \<not> half_rect (mrect m) \<and> 0 \<le> volume m \<and> volume m \<le> 100 \<and> \<bar>rotation m\<bar> < 360 \<and>
     1 \<le> opacity m \<and> opacity m \<le> 100 \<and>
     (mtype m = MT_Text \<or> mtype m = MT_Time \<or> mpath m \<noteq> []) \<and>
     (mtype m \<in> {MT_MainAudio, MT_MainVideo, MT_Audio} \<longrightarrow> 1 \<le> volume m) \<and>
     length (mpath m) < 1024 \<and> length (mtext m) < 1024 \<and> length (mfont m) < 1024"

lemma c_rem_bound:
  assumes "0 < b" shows "\<bar>c_rem a b\<bar> < b"
proof -
  have "sgn a * \<bar>a\<bar> = sgn a * (\<bar>a\<bar> div b * b) + sgn a * (\<bar>a\<bar> mod b)"
    by (metis div_mult_mod_eq distrib_left)
  then have "a = sgn a * (\<bar>a\<bar> div b) * b + sgn a * (\<bar>a\<bar> mod b)" by (simp only: sgn_mult_abs mult.assoc)
  then have e: "c_rem a b = sgn a * (\<bar>a\<bar> mod b)"
    using assms by (simp add: c_rem_def c_div_def)
  have "\<bar>sgn a\<bar> \<le> 1" "0 \<le> \<bar>a\<bar> mod b" "\<bar>a\<bar> mod b < b" using assms by (simp_all add: abs_sgn_eq)
  then show ?thesis unfolding e abs_mult by (cases "a = 0") (auto simp: assms abs_sgn_eq)
qed

lemma take_fits: "k < n \<Longrightarrow> 0 \<le> k \<Longrightarrow> int (length (take (nat k) s)) < n"
  by (cases "length s \<le> nat k") auto

lemma merge_path_fits: "2 \<le> n \<Longrightarrow> int (length (merge_path n dir path)) < n"
  unfolding merge_path_def Let_def
  by (simp add: take_fits del: length_take take_append)

lemma merge_pathlist_fits: "1 \<le> n \<Longrightarrow> int (length (merge_pathlist_loop dir ss b n)) < n"
proof (induction ss arbitrary: b n)
  case (Cons s ss)
  let ?l = "int (length (merge_path 1024 dir s))"
  show ?case
  proof (cases "n < ?l + 2")
    case False
    with Cons.IH [of "n - ?l" False] Cons.IH [of "n - 1 - ?l" False] show ?thesis by (simp add: Let_def)
  qed (use Cons.prems in \<open>simp add: Let_def\<close>)
qed simp

lemma unescape_font_length: "length (unescape_font s) \<le> length s"
  by (induction s rule: unescape_font.induct) auto

text \<open>What every field step keeps, of text materials and of the others.\<close>

definition fields_ok :: "material \<Rightarrow> bool" where
  "fields_ok m \<longleftrightarrow> 0 \<le> volume m \<and> volume m \<le> 100 \<and> \<bar>rotation m\<bar> < 360 \<and> 1 \<le> opacity m \<and> opacity m \<le> 100
     \<and> length (mpath m) < 1024 \<and> length (mtext m) < 1024 \<and> length (mfont m) < 1024"

lemma clamp_opacity_range: "1 \<le> clamp_opacity v" "clamp_opacity v \<le> 100"
  by (simp_all add: clamp_opacity_def)

lemma clamp_volume_range: "0 \<le> clamp_volume v" "clamp_volume v \<le> 100"
  by (simp_all add: clamp_volume_def Let_def)

lemma if_SomeE:
  "(if b then x else y) = Some m' \<Longrightarrow> (b \<Longrightarrow> x = Some m' \<Longrightarrow> Q) \<Longrightarrow> (\<not> b \<Longrightarrow> y = Some m' \<Longrightarrow> Q) \<Longrightarrow> Q"
  by (cases b) auto

lemma text_field_keeps:
  assumes "text_field sx sy idx s m = Some m'" "fields_ok m" "0 \<le> layer m"
  shows "fields_ok m' \<and> 0 \<le> layer m' \<and> mtype m' = mtype m"
proof -
  have "length (unescape_font (take 1023 s)) < 1024"
    using unescape_font_length [of "take 1023 s"] by simp
  note l = this c_rem_bound [of 360 "atoi s"] clamp_opacity_range [of "atoi s"]
  show ?thesis
    using assms(1) unfolding text_field_def
    by (elim if_SomeE) (use assms(2,3) l in \<open>auto simp: fields_ok_def\<close>)
qed

lemma material_field_keeps:
  assumes "material_field d sx sy idx s m = Some m'" "fields_ok m"
  shows "fields_ok m' \<and> mtype m' = mtype m"
proof -
  have "length (merge_path 1024 d s) < 1024" "length (merge_pathlist 1024 d s) < 1024"
    using merge_path_fits [of 1024 d s] merge_pathlist_fits [of 1024 d _ True]
    by (simp_all add: merge_pathlist_def)
  note l = this c_rem_bound [of 360 "atoi s"] clamp_opacity_range [of "atoi s"] clamp_volume_range [of "atoi s"]
  show ?thesis
    using assms(1) unfolding material_field_def
    by (elim if_SomeE) (use assms(2) l in \<open>auto simp: fields_ok_def\<close>)
qed

lemma parse_fields_keep:
  assumes "\<And>idx s m m'. field idx s m = Some m' \<Longrightarrow> P m \<Longrightarrow> P m'"
  shows "parse_fields field idx strs m = Some m' \<Longrightarrow> P m \<Longrightarrow> P m'"
  by (induction strs arbitrary: idx m) (auto split: option.splits intro: assms)

lemma material0_fields [simp]:
  "fields_ok (material0\<lparr>product_id := p, material_id := q, mtype := t\<rparr>)"
  by (simp add: material0_def fields_ok_def)

lemma parse_material_text_ok:
  assumes "parse_material_text sx sy strs m = Some m'" "fields_ok m" "layer m = 0" "mtype m = MT_Text \<or> mtype m = MT_Time"
  shows "material_ok m'"
proof -
  from assms(1) obtain m1 where p: "parse_fields (text_field sx sy) 0 strs (m\<lparr>color := None, olcolor := None\<rparr>) = Some m1"
    "\<not> half_rect (mrect m1)" "m' = m1"
    by (auto simp: parse_material_text_def split: option.splits if_splits)
  have "fields_ok m1 \<and> 0 \<le> layer m1 \<and> mtype m1 = mtype m"
    by (rule parse_fields_keep [where P = "\<lambda>x. fields_ok x \<and> 0 \<le> layer x \<and> mtype x = mtype m", OF _ p(1)])
      (use text_field_keeps assms in \<open>auto simp: fields_ok_def\<close>)
  with p assms(4) show ?thesis by (auto simp: material_ok_def fields_ok_def check_is_audio_def)
qed

lemma accepted_material_ok:
  assumes "parse_material d sx sy s = Some m"
  shows "material_ok m"
proof -
  from assms obtain pid mid rest where p: "product_prefix s = Some (pid, mid, rest)"
    by (auto simp: parse_material_def split: option.splits)
  define strs where "strs = rejoin_url (splitString rest (CHR '':''))"
  define m0 where "m0 = material0\<lparr>product_id := pid, material_id := mid, mtype := string2type (hd strs)\<rparr>"
  have ok0: "fields_ok m0" by (simp add: m0_def)
  have parse: "(if mtype m0 = MT_None then None
      else if mtype m0 = MT_Text \<or> mtype m0 = MT_Time then parse_material_text sx sy strs m0
      else (case parse_fields (material_field d sx sy) 1 (tl strs) m0 of
           None \<Rightarrow> None
         | Some m' \<Rightarrow>
             if (mtype m' \<noteq> MT_Audio \<and> mtype m' \<noteq> MT_MainAudio \<and> layer m' \<le> 0) \<or> mpath m' = []
                \<or> mtype m' = MT_None then None
             else if half_rect (mrect m') then None
             else if mtype m' \<in> {MT_MainAudio, MT_MainVideo, MT_Audio} \<and> volume m' = 0
                  then Some (m'\<lparr>volume := 100\<rparr>) else Some m')) = Some m"
    using assms p unfolding parse_material_def m0_def strs_def Let_def by simp
  show ?thesis
  proof (cases "mtype m0 = MT_Text \<or> mtype m0 = MT_Time")
    case True
    with parse have "parse_material_text sx sy strs m0 = Some m" by (auto split: if_splits)
    with ok0 True show ?thesis
      by (intro parse_material_text_ok [of sx sy strs m0]) (simp_all add: m0_def material0_def)
  next
    case False
    with parse obtain m1 where m1: "parse_fields (material_field d sx sy) 1 (tl strs) m0 = Some m1"
      "\<not> ((mtype m1 \<noteq> MT_Audio \<and> mtype m1 \<noteq> MT_MainAudio \<and> layer m1 \<le> 0) \<or> mpath m1 = [] \<or> mtype m1 = MT_None)"
      "\<not> half_rect (mrect m1)"
      "m = (if mtype m1 \<in> {MT_MainAudio, MT_MainVideo, MT_Audio} \<and> volume m1 = 0 then m1\<lparr>volume := 100\<rparr> else m1)"
      by (auto split: if_splits option.splits)
    have "fields_ok m1 \<and> mtype m1 = mtype m0"
      by (rule parse_fields_keep [where P = "\<lambda>x. fields_ok x \<and> mtype x = mtype m0", OF _ m1(1)])
        (use material_field_keeps ok0 in \<open>auto simp: fields_ok_def\<close>)
    with m1 False show ?thesis
      by (auto simp: material_ok_def fields_ok_def check_is_audio_def split: if_splits)
  qed
qed

text \<open>C14. Every material the parser accepts is well formed: a known type, a positive layer
  unless it is audio or a text (where it is not negative), a rectangle with both sizes or
  none, clamped volume, rotation and opacity, a path unless it is a text, a volume for the
  main streams and audio; and path, text and font fit their 1024-byte arrays.\<close>

theorem parse_material_ok:
  assumes "parse_material d sx sy s = Some m"
  shows "material_ok m"
  using accepted_material_ok [OF assms] .

theorem parse_material_ok_witness:
  "\<exists>m. parse_material ''/data'' (\<lambda>v. v) (\<lambda>v. v) ''mainaudio:0:a.wav'' = Some m \<and> material_ok m"
proof -
  have "map_option mtype (parse_material ''/data'' (\<lambda>v. v) (\<lambda>v. v) ''mainaudio:0:a.wav'') = Some MT_MainAudio"
    by code_simp
  then show ?thesis using parse_material_ok by fastforce
qed

section \<open>The list of materials\<close>

lemma parse_materials_loop_spec:
  assumes "parse_materials_loop parse args st = Some st'" "mainvideo st = find (\<lambda>m. mtype m = MT_MainVideo) (mlist st)"
    "length (filter (\<lambda>m. mtype m = MT_MainVideo) (mlist st)) \<le> 1"
  shows "mainvideo st' = find (\<lambda>m. mtype m = MT_MainVideo) (mlist st') \<and>
     length (filter (\<lambda>m. mtype m = MT_MainVideo) (mlist st')) \<le> 1 \<and>
     (\<exists>ms. map parse args = map Some ms \<and> mlist st' = mlist st @ ms)"
  using assms
proof (induction args arbitrary: st)
  case Nil
  then show ?case by simp
next
  case (Cons arg args)
  from Cons.prems(1) obtain m where m: "parse arg = Some m" by (auto split: option.splits)
  define st2 where "st2 = (if mtype m = MT_MainAudio
     then (if mtype m = MT_MainVideo then st\<lparr>mainvideo := Some m\<rparr> else st)\<lparr>mainaudio := Some m\<rparr>
     else (if mtype m = MT_MainVideo then st\<lparr>mainvideo := Some m\<rparr> else st))"
  have dup: "\<not> (mtype m = MT_MainVideo \<and> map_option mtype (mainvideo st) = Some MT_MainVideo)"
    and rest: "parse_materials_loop parse args (st2\<lparr>mlist := mlist st2 @ [m]\<rparr>) = Some st'"
    using Cons.prems(1) m by (auto simp: st2_def Let_def split: if_splits)
  have ml: "mlist st2 = mlist st" by (simp add: st2_def)
  have mv: "mainvideo st2 = (if mtype m = MT_MainVideo then Some m else mainvideo st)" by (auto simp: st2_def)
  have none: "filter (\<lambda>m. mtype m = MT_MainVideo) (mlist st) = [] \<and> find (\<lambda>m. mtype m = MT_MainVideo) (mlist st) = None"
    if "mtype m = MT_MainVideo"
  proof -
    have "find (\<lambda>m. mtype m = MT_MainVideo) (mlist st) = None"
    proof (cases "find (\<lambda>m. mtype m = MT_MainVideo) (mlist st)")
      case (Some x)
      then have "mtype x = MT_MainVideo" by (auto simp: find_Some_iff)
      with Some that dup Cons.prems(2) show ?thesis by simp
    qed
    then show ?thesis by (auto simp: find_None_iff)
  qed
  have fa: "find P (xs @ [x]) = (case find P xs of None \<Rightarrow> if P x then Some x else None | Some y \<Rightarrow> Some y)"
    for P and xs :: "material list" and x by (induction xs) auto
  have i1: "mainvideo (st2\<lparr>mlist := mlist st2 @ [m]\<rparr>) = find (\<lambda>m. mtype m = MT_MainVideo) (mlist (st2\<lparr>mlist := mlist st2 @ [m]\<rparr>))"
    using Cons.prems(2) none mv ml by (auto simp: fa split: option.splits)
  have i2: "length (filter (\<lambda>m. mtype m = MT_MainVideo) (mlist (st2\<lparr>mlist := mlist st2 @ [m]\<rparr>))) \<le> 1"
    using Cons.prems(3) none ml by auto
  from Cons.IH [OF rest i1 i2] obtain ms where "map parse args = map Some ms" "mlist st' = (mlist st @ [m]) @ ms"
    "mainvideo st' = find (\<lambda>m. mtype m = MT_MainVideo) (mlist st')"
    "length (filter (\<lambda>m. mtype m = MT_MainVideo) (mlist st')) \<le> 1" using ml by auto
  then show ?case using m by (auto intro!: exI [of _ "m # ms"])
qed

text \<open>C15. An accepted command line yields exactly one well-formed material per argument, in
  an order sorted by layer, with at most one main video, which is the one recorded.\<close>

theorem parse_materials_sound:
  assumes "parse_materials d sx sy args = Some st"
  shows "\<exists>ms. map (parse_material d sx sy) args = map Some ms \<and> layer_sorted ms (mlist st)
     \<and> (\<forall>m \<in> set (mlist st). material_ok m)
     \<and> length (filter (\<lambda>m. mtype m = MT_MainVideo) (mlist st)) \<le> 1
     \<and> mainvideo st = find (\<lambda>m. mtype m = MT_MainVideo) ms"
proof -
  from assms obtain st0 where l: "parse_materials_loop (parse_material d sx sy) args
      \<lparr>mainvideo = None, mainaudio = None, mlist = []\<rparr> = Some st0"
    and st: "st = st0\<lparr>mlist := sort_key layer (mlist st0)\<rparr>"
    by (auto simp: parse_materials_def split: option.splits)
  from parse_materials_loop_spec [OF l] obtain ms where ms: "map (parse_material d sx sy) args = map Some ms"
    "mlist st0 = ms" "mainvideo st0 = find (\<lambda>m. mtype m = MT_MainVideo) ms"
    "length (filter (\<lambda>m. mtype m = MT_MainVideo) ms) \<le> 1" by auto
  have "layer_sorted ms (mlist st)" using st ms by (simp add: layer_sorted_def)
  moreover have "material_ok m" if "m \<in> set ms" for m
  proof -
    from that have "Some m \<in> set (map (parse_material d sx sy) args)" using ms(1) by simp
    then obtain a where "parse_material d sx sy a = Some m" by auto
    then show ?thesis by (rule accepted_material_ok)
  qed
  moreover have "length (filter P (sort_key layer ms)) = length (filter P ms)" for P
    by (metis mset_filter mset_sort size_mset)
  ultimately show ?thesis using ms st by auto
qed

theorem parse_materials_sound_witness:
  "\<exists>st. parse_materials ''/d'' (\<lambda>v. v) (\<lambda>v. v) [''image:2:b.png'', ''mainvideo:1:a.mp4''] = Some st
     \<and> length (mlist st) = 2"
proof -
  have "map_option (\<lambda>st. map layer (mlist st))
      (parse_materials ''/d'' (\<lambda>v. v) (\<lambda>v. v) [''image:2:b.png'', ''mainvideo:1:a.mp4'']) = Some [1, 2]"
    by code_simp
  then obtain st where st: "parse_materials ''/d'' (\<lambda>v. v) (\<lambda>v. v) [''image:2:b.png'', ''mainvideo:1:a.mp4''] = Some st"
    by auto
  from parse_materials_sound [OF st] obtain ms where
    "map (parse_material ''/d'' (\<lambda>v. v) (\<lambda>v. v)) [''image:2:b.png'', ''mainvideo:1:a.mp4''] = map Some ms"
    "layer_sorted ms (mlist st)" by blast
  then have "length (map Some ms) = 2" "mset ms = mset (mlist st)"
    by (metis (no_types) length_map length_Cons list.size(3) Suc_1 One_nat_def, simp add: layer_sorted_def)
  then have "length (mlist st) = 2" by (metis size_mset length_map)
  with st show ?thesis by blast
qed

text \<open>A second main audio is accepted: the later one silently replaces the first as the
  main audio, and both stay in the list.\<close>

lemma second_mainaudio_accepted:
  assumes "parse_material d sx sy a1 = Some m1" "parse_material d sx sy a2 = Some m2"
    "mtype m1 = MT_MainAudio" "mtype m2 = MT_MainAudio"
  shows "\<exists>st. parse_materials d sx sy [a1, a2] = Some st \<and> mainaudio st = Some m2 \<and> mset (mlist st) = {#m1, m2#}"
  using assms by (auto simp: parse_materials_def)

lemma second_mainaudio_accepted_example:
  "\<exists>st. parse_materials ''/d'' (\<lambda>v. v) (\<lambda>v. v) [''mainaudio:0:a.wav'', ''mainaudio:0:b.wav''] = Some st"
proof -
  have a: "map_option mtype (parse_material ''/d'' (\<lambda>v. v) (\<lambda>v. v) ''mainaudio:0:a.wav'') = Some MT_MainAudio"
    and b: "map_option mtype (parse_material ''/d'' (\<lambda>v. v) (\<lambda>v. v) ''mainaudio:0:b.wav'') = Some MT_MainAudio"
    by code_simp+
  then show ?thesis using second_mainaudio_accepted by fastforce
qed

text \<open>A volume of 0, which the usage allows, is taken for none given and becomes the full one.\<close>

lemma zero_volume_is_full:
  "map_option volume (parse_material ''/d'' (\<lambda>v. v) (\<lambda>v. v) ''audio:0:a.wav:0:0:0:0:0'') = Some 100"
  by code_simp

section \<open>Printing and parsing\<close>

fun type_name :: "material_type \<Rightarrow> string" where
  "type_name MT_MainVideo = ''mainvideo''"
| "type_name MT_MainAudio = ''mainaudio''"
| "type_name MT_Video = ''video''"
| "type_name MT_Audio = ''audio''"
| "type_name MT_Gif = ''gif''"
| "type_name MT_Image = ''image''"
| "type_name _ = ''none''"

definition print_material :: "material \<Rightarrow> string" where
  "print_material m = join (CHR '':'')
     [type_name (mtype m), print_int (layer m), mpath m, print_int (ry (mrect m)), print_int (rx (mrect m)),
      print_int (rwidth (mrect m)), print_int (rheight (mrect m)), print_int (volume m),
      print_int (rotation m), print_int (opacity m)]"

definition fits32 :: "int \<Rightarrow> bool" where "fits32 v \<longleftrightarrow> - (2 ^ 31) \<le> v \<and> v < 2 ^ 31"

definition printable :: "material \<Rightarrow> bool" where
  "printable m \<longleftrightarrow> material_ok m \<and> mtype m \<in> {MT_MainVideo, MT_MainAudio, MT_Video, MT_Audio, MT_Gif, MT_Image}
     \<and> starts_with ''/'' (mpath m) \<and> CHR '':'' \<notin> set (mpath m) \<and> fits32 (layer m)
     \<and> list_all fits32 [rx (mrect m), ry (mrect m), rwidth (mrect m), rheight (mrect m)]
     \<and> (mtype m \<in> {MT_Gif, MT_Image} \<longrightarrow> volume m = 0)
     \<and> m = material0\<lparr>layer := layer m, mtype := mtype m, mpath := mpath m, mrect := mrect m,
           volume := volume m, rotation := rotation m, opacity := opacity m\<rparr>"

lemma type_name_parses:
  assumes "t \<in> {MT_MainVideo, MT_MainAudio, MT_Video, MT_Audio, MT_Gif, MT_Image}"
  shows "string2type (type_name t) = t" "CHR '':'' \<notin> set (type_name t)"
    "\<not> starts_with ''product:'' (type_name t @ s)"
proof -
  have "\<forall>t \<in> set [MT_MainVideo, MT_MainAudio, MT_Video, MT_Audio, MT_Gif, MT_Image].
      string2type (type_name t) = t \<and> CHR '':'' \<notin> set (type_name t)" by code_simp
  then show "string2type (type_name t) = t" "CHR '':'' \<notin> set (type_name t)" using assms by auto
  show "\<not> starts_with ''product:'' (type_name t @ s)" using assms by auto
qed


definition gif_example :: material where
  "gif_example = material0\<lparr>layer := 3, mtype := MT_Gif, mpath := ''/a.gif'',
     mrect := \<lparr>rx = 10, ry = -5, rwidth = 64, rheight = 32\<rparr>, rotation := -90, opacity := 50\<rparr>"


end
