(* ===== verification/Stream_Cmd_Thms.thy ===== *)
theory Stream_Cmd_Thms
  imports Stream_Cmd
begin

text \<open>
  Properties of the live commands: the parse of printed commands, that no line ever gives a
  modify operation, and that the thread queues the commands of a file once and in order and
  the frame loop takes them all.
\<close>

section \<open>Parsing printed commands\<close>

lemma splitString_Cons:
  assumes "sep \<notin> set f" "rest \<noteq> []"
  shows "splitString (f @ sep # rest) sep = f # splitString rest sep"
proof -
  have "takeWhile (\<lambda>c. c \<noteq> sep) (f @ sep # rest) = f" "dropWhile (\<lambda>c. c \<noteq> sep) (f @ sep # rest) = sep # rest"
    using assms(1) by (auto simp: takeWhile_append dropWhile_append)
  with assms(2) show ?thesis by (simp add: splitString.simps [of "f @ sep # rest"] Let_def)
qed

lemma splitString_not_Nil [simp]: "splitString s sep \<noteq> []"
  by (subst splitString.simps) (simp add: Let_def)

lemma starts_with_ci_simps [simp]:
  "starts_with_ci [] t" "starts_with_ci (p # ps) [] = False"
  "starts_with_ci (p # ps) (c # cs) \<longleftrightarrow> to_lower c = to_lower p \<and> starts_with_ci ps cs"
  by (auto simp: starts_with_ci_def)

lemma print_int_first: "\<exists>c cs. print_int i = c # cs \<and> \<not> is_blank c"
proof (cases "i < 0")
  case True
  then show ?thesis by (simp add: print_int_def is_blank_def code_def)
next
  case False
  obtain c cs where p: "print_nat (nat i) = c # cs" by (cases "print_nat (nat i)") auto
  then obtain d where "d < 10" "c = digit_char d" using print_nat_digits [of c "nat i"] by auto
  then have "\<not> is_blank c" by (simp add: is_blank_def code_digit_char)
  with p False show ?thesis by (simp add: print_int_def)
qed

lemma cmd_args_print_int: "dropWhile is_blank (print_int i @ s) = print_int i @ s"
  using print_int_first [of i] by auto

lemma lower_codes: "to_lower (CHR ''A'') = 97" "to_lower (CHR ''D'') = 100" "to_lower (CHR ''E'') = 101"
  "to_lower (CHR ''L'') = 108" "to_lower (CHR ''M'') = 109" "to_lower (CHR ''O'') = 111" "to_lower (CHR '' '') = 32"
  by (simp_all add: to_lower_def code_def)

lemma no_space_first: "\<not> is_space (CHR ''A'')" "\<not> is_space (CHR ''M'')"
  by (simp_all add: is_space_def code_def)

text \<open>A printed \<^verbatim>\<open>ADD\<close> line parses to its product, material and material text, but
  the text keeps everything up to and including the line end.\<close>

lemma parse_add_line:
  assumes "- (2 ^ 31) \<le> p" "p < 2 ^ 31" "- (2 ^ 31) \<le> mt" "mt < 2 ^ 31"
  shows "parse_cmd_line (''ADD '' @ print_int p @ '':'' @ print_int mt @ '':'' @ spec @ [CHR 0x0A]) =
     LineCmd (cmd0\<lparr>operation := ADD, c_product := p, c_material := mt, c_spec := spec @ [CHR 0x0A]\<rparr>)"
proof -
  let ?c = "CHR '':''" and ?s = "spec @ [CHR 0x0A]"
  let ?a = "print_int p @ ?c # print_int mt @ ?c # ?s"
  have sp: "splitString ?a ?c = print_int p # print_int mt # splitString ?s ?c"
    using print_int_no_colon by (simp add: splitString_Cons)
  have dr: "drop (length (print_int p) + length (print_int mt) + 1) ?a = ?c # ?s" by simp
  have l: "\<not> length (splitString ?a ?c) < 2" unfolding sp by simp
  have args: "cmd_args 4 (''ADD '' @ ?a) = ?a"
    using cmd_args_print_int [of p "?c # print_int mt @ ?c # ?s"] by (simp add: cmd_args_def)
  have line: "dropWhile is_space (''ADD '' @ ?a) = ''ADD '' @ ?a" using no_space_first by simp
  have "cmd_word ''ADD'' (''ADD '' @ ?a)" "\<not> starts_with ''#'' (''ADD '' @ ?a)" by (simp_all add: cmd_word_def)
  then have "parse_cmd_line (''ADD '' @ ?a) =
      LineCmd (cmd0\<lparr>operation := ADD, c_product := atoi (splitString ?a ?c ! 0), c_material := atoi (splitString ?a ?c ! 1),
        c_spec := (case strchr (drop (length (splitString ?a ?c ! 0) + length (splitString ?a ?c ! 1) + 1) ?a) ?c of
          None \<Rightarrow> [] | Some s \<Rightarrow> tl s)\<rparr>)"
    unfolding parse_cmd_line_def Let_def line args using l by simp
  also have "\<dots> = LineCmd (cmd0\<lparr>operation := ADD, c_product := p, c_material := mt, c_spec := ?s\<rparr>)"
    unfolding sp using assms dr by (simp add: atoi_print_int strchr_def)
  finally show ?thesis by simp
qed

lemma parse_add_line_example:
  "parse_cmd_line ''ADD 1:7:image:2:a.png\<newline>'' =
     LineCmd (cmd0\<lparr>operation := ADD, c_product := 1, c_material := 7, c_spec := ''image:2:a.png\<newline>''\<rparr>)"
proof -
  have "print_int 1 = ''1''" "print_int 7 = ''7''" by code_simp+
  then show ?thesis using parse_add_line [of 1 7 "''image:2:a.png''"] by simp
qed

lemma parse_never_mod: "parse_cmd_line l = LineCmd c \<Longrightarrow> operation c \<noteq> MOD"
  by (auto simp: parse_cmd_line_def Let_def cmd0_def split: if_splits)

lemma cmd_word_MOD: "cmd_word ''MOD'' (''MOD '' @ a)" "\<not> cmd_word ''ADD'' (''MOD '' @ a)"
  "\<not> cmd_word ''DEL'' (''MOD '' @ a)" "\<not> starts_with ''#'' (''MOD '' @ a)"
  by (simp_all add: cmd_word_def lower_codes)

text \<open>A \<^verbatim>\<open>MOD\<close> line with its seven numbers, the last followed by anything that is not
  a digit, yields a delete operation for its material; no line at all yields a modify
  operation.\<close>

lemma mod_line_deletes:
  assumes "\<forall>v \<in> set [p, mt, ly, t, l, w, h]. - (2 ^ 31) \<le> v \<and> v < 2 ^ 31"
  shows "parse_cmd_line (''MOD '' @ join (CHR '':'') (map print_int [p, mt, ly, t, l, w, h])) =
     LineCmd (cmd0\<lparr>operation := DEL, c_product := p, c_material := mt, c_layer := ly, c_y := t, c_x := l,
       c_w := w, c_h := h\<rparr>) \<and> parse_cmd_line line \<noteq> LineCmd (c\<lparr>operation := MOD\<rparr>)"
proof -
  let ?fs = "map print_int [p, mt, ly, t, l, w, h]" and ?a = "join (CHR '':'') (map print_int [p, mt, ly, t, l, w, h])"
  have sp: "splitString ?a (CHR '':'') = ?fs"
  proof (rule splitString_join)
    fix f assume "f \<in> set ?fs"
    then show "CHR '':'' \<notin> set f" using print_int_no_colon by auto
  qed simp_all
  have args: "cmd_args 4 (''MOD '' @ ?a) = ?a"
    using cmd_args_print_int [of p] by (simp add: cmd_args_def)
  have line: "dropWhile is_space (''MOD '' @ ?a) = ''MOD '' @ ?a" using no_space_first by simp
  have L: "\<not> length ?fs < 7" by simp
  have "parse_cmd_line (''MOD '' @ ?a) = LineCmd (cmd0\<lparr>operation := DEL, c_product := atoi (?fs ! 0),
      c_material := atoi (?fs ! 1), c_layer := atoi (?fs ! 2), c_y := atoi (?fs ! 3), c_x := atoi (?fs ! 4),
      c_w := atoi (?fs ! 5), c_h := atoi (?fs ! 6)\<rparr>)"
    unfolding parse_cmd_line_def Let_def line args sp by (simp only: cmd_word_MOD L if_True if_False)
  also have "\<dots> = LineCmd (cmd0\<lparr>operation := DEL, c_product := p, c_material := mt, c_layer := ly, c_y := t, c_x := l,
       c_w := w, c_h := h\<rparr>)"
    using assms by (simp add: atoi_print_int)
  finally show ?thesis using parse_never_mod [of line "c\<lparr>operation := MOD\<rparr>"] by auto
qed

lemma mod_line_deletes_example:
  "parse_cmd_line ''MOD 1:7:3:0:0:640:360'' = LineCmd (cmd0\<lparr>operation := DEL, c_product := 1, c_material := 7,
     c_layer := 3, c_y := 0, c_x := 0, c_w := 640, c_h := 360\<rparr>)"
proof -
  have "''MOD '' @ join (CHR '':'') (map print_int [1, 7, 3, 0, 0, 640, 360]) = ''MOD 1:7:3:0:0:640:360''" by code_simp
  then show ?thesis using mod_line_deletes [of 1 7 3 0 0 640 360 "[]" cmd0] by simp
qed

section \<open>Queueing and taking\<close>

definition line_cmds :: "string list \<Rightarrow> stream_cmd_info list" where
  "line_cmds ls = concat (map (\<lambda>l. case parse_cmd_line l of LineCmd c \<Rightarrow> [c] | _ \<Rightarrow> []) ls)"

lemma queue_lines_eq: "\<not> m_abort q \<Longrightarrow> queue_lines ls q = q\<lparr>m_q := m_q q @ line_cmds ls\<rparr>"
  by (induction ls q rule: queue_lines.induct) (auto simp: line_cmds_def Push_def split: line_result.splits)

lemma get_stream_cmds_eq: "\<not> m_abort q \<Longrightarrow> get_stream_cmds q = (m_q q, q\<lparr>m_q := []\<rparr>)"
proof (induction q rule: get_stream_cmds.induct)
  case (1 q)
  show ?case
  proof (cases "m_q q")
    case Nil
    then have "q\<lparr>m_q := []\<rparr> = q" by simp
    with Nil show ?thesis by (simp add: get_stream_cmds.simps [of q] Pop_def)
  next
    case (Cons x xs)
    then have p: "Pop (\<lambda>s. s) 0 q = (Some x, q\<lparr>m_q := xs\<rparr>)" using 1(2) by (simp add: Pop_def)
    with 1 show ?thesis by (subst get_stream_cmds.simps) (simp add: Cons p Let_def)
  qed
qed

lemma fgets_lines_concat: "concat (fgets_lines s) = s"
proof (induction s rule: fgets_lines.induct)
  case (1 s)
  have f: "s = first_line s @ drop 1 (dropWhile (\<lambda>c. c \<noteq> CHR 0x0A) s)"
    by (simp add: first_line_def takeWhile_dropWhile_id)
  have "take n p @ drop (length (take n p)) (p @ r) = p @ r" for n and p r :: string
    by (cases "length p \<le> n") auto
  from this [of 10239 "first_line s"] have "take 10239 (first_line s) @ drop (length (take 10239 (first_line s))) s = s"
    by (metis f)
  with 1 show ?case
    by (cases "s = []") (simp_all add: fgets_lines.simps [of s] fgets_lines.simps [of "[]"] Let_def)
qed

text \<open>In text-file mode a turn that finds a new modification time queues exactly the
  commands of the file's lines, in order, behind those already queued; the lines together
  are the file; the frame loop takes all of them; and the same modification time is not
  read again.\<close>

lemma cmd_file_read_once:
  assumes "\<not> bExit t" "\<not> bStopped t" "text_file_mode t" "\<not> m_abort (cmdQueue t)"
    "env_stat env = StatOk tm" "tm \<noteq> prev_mtime t" "env_fopen env \<or> reader_open t"
  shows "\<exists>t'. cmd_turn env t = Some t'
     \<and> get_stream_cmds (cmdQueue t') = (m_q (cmdQueue t) @ line_cmds (fgets_lines (env_text env)), (cmdQueue t)\<lparr>m_q := []\<rparr>)
     \<and> concat (fgets_lines (env_text env)) = env_text env
     \<and> cmd_turn env t' = Some t'"
  using assms by (auto simp: cmd_turn_def queue_lines_eq get_stream_cmds_eq fgets_lines_concat)

lemma cmd_file_read_once_example:
  "\<exists>t'. cmd_turn \<lparr>env_stat = StatOk (5, 0), env_fopen = True, env_text = ''STOPSUB''\<rparr>
     \<lparr>bExit = False, bStopped = False, reader_open = False, text_file_mode = True, prev_mtime = (0, 0),
       cmdQueue = SafeQueue\<rparr> = Some t'"
  using cmd_file_read_once [of "\<lparr>bExit = False, bStopped = False, reader_open = False, text_file_mode = True,
     prev_mtime = (0, 0), cmdQueue = SafeQueue\<rparr>" "\<lparr>env_stat = StatOk (5, 0), env_fopen = True, env_text = ''STOPSUB''\<rparr>" "(5, 0)"]
  by (auto simp: SafeQueue_def)

end
