(* ===== verification/Main_Commands_Thms.thy ===== *)
theory Main_Commands_Thms
  imports Main_Commands Material_Parse_Thms Stream_Cmd_Thms
begin

text \<open>
  Properties of the live commands: the main materials survive every command, new materials
  are well formed and addressed, the drawing order stays sorted, materials opened in the
  background arrive exactly once, and two defects of the substream command.
\<close>

section \<open>Invariants of the command part\<close>

definition is_main :: "material \<Rightarrow> bool" where
  "is_main m \<longleftrightarrow> mtype m = MT_MainVideo \<or> mtype m = MT_MainAudio"

definition identity :: "material \<Rightarrow> material_type \<times> string \<times> int \<times> int" where
  "identity m = (mtype m, mpath m, product_id m, material_id m)"

definition mains :: "live \<Rightarrow> (material_type \<times> string \<times> int \<times> int) multiset" where
  "mains st = mset (map identity (filter is_main (lv_mlist st)))"

definition new_ok :: "live \<Rightarrow> bool" where
  "new_ok st \<longleftrightarrow> (\<forall>m \<in> set (lv_new st). \<not> is_main m \<and> 1 \<le> material_id m)"

definition order_ok :: "live \<Rightarrow> bool" where
  "order_ok st \<longleftrightarrow> lv_modified st \<or> sorted (map layer (lv_mlist st))"

lemma find_index_Some:
  "find_index P xs = Some i \<Longrightarrow> i < length xs \<and> P (xs ! i)"
  by (induction xs arbitrary: i) (auto split: if_splits simp: less_Suc_eq_0_disj)

lemma log_action_sel [simp]:
  "lv_mlist (log_action a st) = lv_mlist st" "lv_new (log_action a st) = lv_new st"
  "lv_modified (log_action a st) = lv_modified st" "lv_product (log_action a st) = lv_product st"
  "lv_sub (log_action a st) = lv_sub st"
  by (simp_all add: log_action_def)

lemma take_drop_Suc: "i < length xs \<Longrightarrow> xs = take i xs @ xs ! i # drop (Suc i) xs"
  by (simp add: id_take_nth_drop)

lemma filter_remove: "i < length xs \<Longrightarrow> \<not> P (xs ! i) \<Longrightarrow> filter P (take i xs @ drop (Suc i) xs) = filter P xs"
  using arg_cong [OF take_drop_Suc, of i xs "filter P"] by (simp del: append_take_drop_id)

lemma sorted_remove:
  "i < length xs \<Longrightarrow> sorted (map f xs) \<Longrightarrow> sorted (map f (take i xs @ drop (Suc i) xs))"
  using arg_cong [OF take_drop_Suc, of i xs "map f"]
  by (simp del: append_take_drop_id add: sorted_append)

lemma exec_del_keeps:
  "mains (exec_del e c st) = mains st \<and> lv_new (exec_del e c st) = lv_new st \<and>
     (order_ok st \<longrightarrow> order_ok (exec_del e c st))"
proof (cases "find_index (cmd_matches c) (lv_mlist st)")
  case None
  then show ?thesis by (simp add: exec_del_def)
next
  case (Some i)
  have i: "i < length (lv_mlist st)" using find_index_Some [OF Some] by simp
  let ?m = "lv_mlist st ! i"
  show ?thesis
  proof (cases "is_main ?m")
    case True
    with Some show ?thesis by (simp add: exec_del_def is_main_def)
  next
    case False
    with Some have f: "lv_mlist (exec_del e c st) = take i (lv_mlist st) @ drop (Suc i) (lv_mlist st)"
      "lv_new (exec_del e c st) = lv_new st" "lv_modified (exec_del e c st) = lv_modified st"
      by (simp_all add: exec_del_def is_main_def Let_def)
    show ?thesis
      unfolding mains_def order_ok_def f filter_remove [of i "lv_mlist st" is_main, OF i False]
      using sorted_remove [OF i, of layer] by simp
  qed
qed

lemma map_filter_update:
  assumes "i < length xs" "P x = P (xs ! i)" "f x = f (xs ! i)"
  shows "map f (filter P (xs[i := x])) = map f (filter P xs)"
  using assms
proof (induction xs arbitrary: i)
  case (Cons y ys)
  then show ?case by (cases i) auto
qed simp

lemma exec_mod_keeps:
  "mains (exec_mod e c st) = mains st \<and> lv_new (exec_mod e c st) = lv_new st \<and>
     (order_ok st \<longrightarrow> order_ok (exec_mod e c st))"
proof (cases "find_index (cmd_matches c) (lv_mlist st)")
  case None
  then show ?thesis by (simp add: exec_mod_def)
next
  case (Some i)
  have i: "i < length (lv_mlist st)" using find_index_Some [OF Some] by simp
  let ?m = "lv_mlist st ! i"
  let ?m' = "?m\<lparr>layer := c_layer c, mrect := \<lparr>rx = le_sx e (c_x c), ry = le_sy e (c_y c),
     rwidth = le_sx e (c_w c), rheight = le_sy e (c_h c)\<rparr>\<rparr>"
  show ?thesis
  proof (cases "mtype ?m = MT_MainAudio \<or> mtype ?m = MT_Audio")
    case True
    with Some show ?thesis by (simp add: exec_mod_def)
  next
    case False
    with Some have f: "lv_mlist (exec_mod e c st) = (lv_mlist st)[i := ?m']"
      "lv_new (exec_mod e c st) = lv_new st" "lv_modified (exec_mod e c st)"
      by (simp_all add: exec_mod_def Let_def)
    have "map identity (filter is_main ((lv_mlist st)[i := ?m'])) = map identity (filter is_main (lv_mlist st))"
      using i by (rule map_filter_update) (simp_all add: is_main_def identity_def)
    with f show ?thesis by (simp add: mains_def order_ok_def)
  qed
qed

lemma exec_subout_keeps:
  "exec_subout e c st = Some st' \<Longrightarrow> mains st' = mains st \<and> lv_new st' = lv_new st \<and> (order_ok st \<longrightarrow> order_ok st')"
  by (auto simp: exec_subout_def mains_def order_ok_def Let_def split: option.splits if_splits)

lemma exec_add_keeps: "mains (exec_add e c st) = mains st \<and> (order_ok st \<longrightarrow> order_ok (exec_add e c st))"
  by (auto simp: exec_add_def mains_def order_ok_def Let_def split: option.splits)

lemma exec_add_new:
  assumes "new_ok st" "1 \<le> c_material c" shows "new_ok (exec_add e c st)"
  using assms by (auto simp: exec_add_def new_ok_def Let_def is_main_def split: option.splits)

lemma exec_cmd_keeps:
  assumes "exec_cmd e c st = Some st'" "new_ok st"
  shows "mains st' = mains st \<and> new_ok st' \<and> (order_ok st \<longrightarrow> order_ok st')"
proof (cases "operation c \<noteq> SUBOUT \<and> operation c \<noteq> STOPSUB \<and> operation c \<noteq> SWPROD \<and> c_material c < 1")
  case True
  with assms show ?thesis by (auto simp: exec_cmd_def)
next
  case False
  note e = assms(1) [unfolded exec_cmd_def if_not_P [OF False]]
  show ?thesis
  proof (cases "operation c")
    case ADD
    with e have "st' = exec_add e c st" by simp
    then show ?thesis using exec_add_keeps [of e c st] exec_add_new [OF assms(2), of c e] False ADD by simp
  next
    case DEL
    with e have "st' = exec_del e c st" by simp
    then show ?thesis using exec_del_keeps [of e c st] assms(2) by (simp add: new_ok_def)
  next
    case MOD
    with e have "st' = exec_mod e c st" by simp
    then show ?thesis using exec_mod_keeps [of e c st] assms(2) by (simp add: new_ok_def)
  next
    case SUBOUT
    with e have "exec_subout e c st = Some st'" by simp
    from exec_subout_keeps [OF this] show ?thesis using assms(2) by (simp add: new_ok_def)
  next
    case STOPSUB
    with e assms(2) show ?thesis by (auto simp: exec_stopsub_def mains_def new_ok_def order_ok_def)
  next
    case SWPROD
    with e assms(2) show ?thesis by (auto simp: exec_swprod_def mains_def new_ok_def order_ok_def split: if_splits)
  qed
qed

lemma exec_cmds_keep:
  "exec_cmds e cs st = Some st' \<Longrightarrow> new_ok st \<Longrightarrow>
     mains st' = mains st \<and> new_ok st' \<and> (order_ok st \<longrightarrow> order_ok st')"
proof (induction e cs st rule: exec_cmds.induct)
  case (2 e c cs st)
  then obtain st1 where s: "exec_cmd e c st = Some st1" "exec_cmds e cs st1 = Some st'" by (auto split: option.splits)
  from exec_cmd_keeps [OF s(1) "2.prems"(2)] "2.IH" [OF s(1) s(2)] show ?case by auto
qed simp

text \<open>What opening may do to materials: it never turns one into a main material.\<close>

definition opens_no_main :: "(material list \<Rightarrow> material list option) \<Rightarrow> bool" where
  "opens_no_main op \<longleftrightarrow>
     (\<forall>ms ms'. op ms = Some ms' \<longrightarrow> (\<forall>m \<in> set ms. \<not> is_main m) \<longrightarrow> (\<forall>m \<in> set ms'. \<not> is_main m))"

definition mailbox_ok :: "mailbox \<Rightarrow> bool" where
  "mailbox_ok mb \<longleftrightarrow> (\<forall>ms \<in> set_option (mb_slot mb) \<union> set (mb_waiting mb). \<forall>m \<in> set ms. \<not> is_main m)"

lemma submit_ok:
  "mailbox_ok mb \<Longrightarrow> opens_no_main op \<Longrightarrow> (\<forall>m \<in> set ms. \<not> is_main m) \<Longrightarrow> mailbox_ok (submit_open_materials op ms mb)"
  unfolding opens_no_main_def by (auto simp: mailbox_ok_def submit_open_materials_def split: option.splits)

text \<open>C18. Whatever commands a turn executes, no main video or main audio is removed, renamed
  or re-addressed and none is added; what is submitted for opening has a positive id; and
  after the turn the materials are sorted by layer if they were before.\<close>

theorem commands_turn_invariant:
  assumes "commands_turn op e cmds st mb = Some (st', mb')" "sorted (map layer (lv_mlist st))"
    "mailbox_ok mb" "opens_no_main op"
  shows "mains st' = mains st \<and> new_ok st' \<and> sorted (map layer (lv_mlist st')) \<and> mailbox_ok mb'"
proof -
  from assms(1) obtain st1 where st1: "exec_cmds e cmds (st\<lparr>lv_new := [], lv_modified := False\<rparr>) = Some st1"
    by (auto simp: commands_turn_def split: option.splits)
  have "new_ok (st\<lparr>lv_new := [], lv_modified := False\<rparr>)" by (simp add: new_ok_def)
  from exec_cmds_keep [OF st1 this] assms(2)
  have k: "mains st1 = mains st" "new_ok st1" "order_ok st1" by (simp_all add: mains_def order_ok_def)
  define mb1 where "mb1 = (if cmds \<noteq> [] \<and> lv_new st1 \<noteq> [] then submit_open_materials op (lv_new st1) mb else mb)"
  have mb1: "mailbox_ok mb1"
    using assms(3,4) k(2) submit_ok by (auto simp: mb1_def new_ok_def)
  define got where "got = (case mb_slot mb1 of None \<Rightarrow> [] | Some ms \<Rightarrow> ms)"
  have got: "\<forall>x \<in> set got. \<not> is_main x"
    using mb1 by (auto simp: mailbox_ok_def got_def split: option.splits)
  have st': "st' = (if mb_slot mb1 \<noteq> None \<or> lv_modified st1 then st1\<lparr>lv_mlist := sort_key layer (lv_mlist st1 @ got)\<rparr> else st1)"
    and mb': "mb' = mb1\<lparr>mb_slot := None\<rparr>"
    using assms(1) st1 by (auto simp: commands_turn_def check_open_materials_def mb1_def got_def Let_def split: if_splits)
  have "mset (map identity (filter is_main (sort_key layer (lv_mlist st1 @ got)))) =
      mset (map identity (filter is_main (lv_mlist st1)))"
    using got by (simp add: mset_filter)
  then have "mains st' = mains st" using k(1) by (simp add: st' mains_def)
  moreover have "new_ok st'" "sorted (map layer (lv_mlist st'))"
    using k by (auto simp: st' new_ok_def order_ok_def)
  moreover have "mailbox_ok mb'" using mb1 by (auto simp: mb' mailbox_ok_def)
  ultimately show ?thesis by simp
qed

definition live_example :: live where
  "live_example = \<lparr>lv_mlist = [material0\<lparr>layer := 1, mtype := MT_MainVideo, material_id := 7, mpath := ''/m.mp4''\<rparr>,
       material0\<lparr>layer := 2, mtype := MT_Image, material_id := 7, mpath := ''/i.png''\<rparr>],
     lv_product = 1, lv_new = [],
     lv_sub = \<lparr>rtmpout = None, sub_w = 0, sub_h = 0, sub_fps = 0, sub_bitrate = 0, sub_disable_audio = 0,
       sub_audio_fifo = [], sub_running = True, start_frameno = 0, cur_frameno = 0\<rparr>,
     lv_modified = False, lv_log = []\<rparr>"

definition env_example :: live_env where
  "env_example = \<lparr>le_data_dir = ''/d'', le_sx = (\<lambda>v. v), le_sy = (\<lambda>v. v), le_atof_int = atoi, le_disable_opengl = True,
     le_fps = 25, le_num = 10, le_outputvideo = ''/out.mp4'', le_time = ''5'', le_mkfifo_ok = True\<rparr>"

theorem commands_turn_invariant_witness:
  "case commands_turn (\<lambda>ms. Some ms) env_example [cmd0\<lparr>operation := DEL, c_material := 7\<rparr>] live_example
       \<lparr>mb_slot = None, mb_waiting = [], mb_events = []\<rparr> of
     Some (st', mb') \<Rightarrow> mains st' = {#(MT_MainVideo, ''/m.mp4'', 0, 7)#}
   | None \<Rightarrow> False"
proof -
  have ran: "case commands_turn (\<lambda>ms. Some ms) env_example [cmd0\<lparr>operation := DEL, c_material := 7\<rparr>] live_example
       \<lparr>mb_slot = None, mb_waiting = [], mb_events = []\<rparr> of None \<Rightarrow> False | Some p \<Rightarrow> True" by code_simp
  obtain st' mb' where r: "commands_turn (\<lambda>ms. Some ms) env_example [cmd0\<lparr>operation := DEL, c_material := 7\<rparr>] live_example
       \<lparr>mb_slot = None, mb_waiting = [], mb_events = []\<rparr> = Some (st', mb')"
    using ran by (auto split: option.splits)
  have "mains st' = mains live_example"
    using commands_turn_invariant [OF r] by (simp add: live_example_def mailbox_ok_def opens_no_main_def)
  then show ?thesis unfolding r by (simp add: mains_def live_example_def is_main_def identity_def material0_def)
qed

section \<open>Background opening\<close>

text \<open>
  Any interleaving of the opening threads and the frame loop: the mailbox together with all
  lists whose opening succeeded so far and all lists the frame loop has taken so far.
\<close>

inductive mailbox_run :: "mailbox \<Rightarrow> material list multiset \<Rightarrow> material list list \<Rightarrow> bool" where
  start: "mailbox_run \<lparr>mb_slot = None, mb_waiting = [], mb_events = []\<rparr> {#} []"
| opened: "mailbox_run mb opened taken \<Longrightarrow> op new = Some ms \<Longrightarrow>
    mailbox_run (submit_open_materials op new mb) (add_mset ms opened) taken"
| failed: "mailbox_run mb opened taken \<Longrightarrow> op new = None \<Longrightarrow>
    mailbox_run (submit_open_materials op new mb) opened taken"
| publish: "mailbox_run mb opened taken \<Longrightarrow> mailbox_run (try_publish i mb) opened taken"
| taken: "mailbox_run mb opened taken \<Longrightarrow> check_open_materials mb = (got, mb') \<Longrightarrow>
    mailbox_run mb' opened (taken @ (case got of None \<Rightarrow> [] | Some ms \<Rightarrow> [ms]))"

lemma mset_remove_nth: "i < length xs \<Longrightarrow> add_mset (xs ! i) (mset (take i xs) + mset (drop (Suc i) xs)) = mset xs"
  using arg_cong [OF take_drop_Suc, of i xs mset] by (simp del: append_take_drop_id)

text \<open>C19. In every interleaving, each list of opened materials is taken at most once and none
  is lost: those taken, the one in the mailbox and those of the waiting threads are
  together exactly those opened.\<close>

theorem opened_materials_arrive_once:
  assumes "mailbox_run mb opened taken"
  shows "mset taken + mset (case mb_slot mb of None \<Rightarrow> [] | Some ms \<Rightarrow> [ms]) + mset (mb_waiting mb) = opened"
  using assms
proof (induction rule: mailbox_run.induct)
  case (publish mb opened taken i)
  show ?case
  proof (cases "mb_slot mb = None \<and> i < length (mb_waiting mb)")
    case True
    then have e: "mset (mb_waiting mb) =
        add_mset (mb_waiting mb ! i) (mset (take i (mb_waiting mb)) + mset (drop (Suc i) (mb_waiting mb)))"
      by (intro mset_remove_nth [symmetric]) simp
    have "opened = mset taken + mset (mb_waiting mb)" using publish.IH True by simp
    then show ?thesis using True unfolding e by (simp add: try_publish_def)
  next
    case False
    then have "try_publish i mb = mb" unfolding try_publish_def by (rule if_not_P)
    with publish show ?thesis by simp
  qed
qed (auto simp: submit_open_materials_def check_open_materials_def split: option.splits)

theorem opened_materials_arrive_once_witness:
  "let mb = submit_open_materials (\<lambda>ms. Some ms) [material0] \<lparr>mb_slot = None, mb_waiting = [], mb_events = []\<rparr>
   in mset (mb_waiting mb) = {#[material0]#}"
proof -
  have "mailbox_run (submit_open_materials (\<lambda>ms. Some ms) [material0] \<lparr>mb_slot = None, mb_waiting = [], mb_events = []\<rparr>)
      (add_mset [material0] {#}) []"
    by (rule mailbox_run.opened [OF mailbox_run.start]) simp
  from opened_materials_arrive_once [OF this] show ?thesis by (simp add: submit_open_materials_def)
qed

section \<open>The substream command\<close>

lemma strrchr_split: "c \<notin> set r \<Longrightarrow> strrchr (a @ c # r) c = Some (c # r)"
proof (induction a)
  case Nil
  have "strrchr r c = None" using Nil by (induction r) auto
  then show ?case by simp
qed simp

lemma strchr_split: "c \<notin> set b \<Longrightarrow> strchr (b @ c # r) c = Some (c # r)"
  by (auto simp: strchr_def dropWhile_append)

lemma join_no_char: "\<forall>p \<in> set ps. x \<notin> set p \<Longrightarrow> x \<noteq> sep \<Longrightarrow> x \<notin> set (join sep ps)"
  by (induction sep ps rule: join.induct) auto

text \<open>While a substream is running, a substream command with four or more parameters is
  refused only after its address, size, rate and bit rate have replaced those of the
  running stream; with fewer than four parameters the command ends the whole program.\<close>

lemma subout_while_running:
  assumes "sub_running (lv_sub st)" "CHR ''/'' \<notin> set b" "CHR '':'' \<notin> set b" "ps \<noteq> []"
    "\<forall>p \<in> set ps. CHR '':'' \<notin> set p \<and> CHR ''/'' \<notin> set p"
    "spec = a @ CHR ''/'' # b @ CHR '':'' # join (CHR '':'') ps" "length spec \<le> 10239"
    "operation c = SUBOUT" "c_spec c = spec"
  shows "if length ps < 4 then exec_cmd e c st = None
     else \<exists>st'. exec_cmd e c st = Some st' \<and> sub_running (lv_sub st') \<and>
       rtmpout (lv_sub st') = Some (a @ CHR ''/'' # b) \<and>
       sub_w (lv_sub st') = atoi (ps ! 0) \<and> sub_h (lv_sub st') = atoi (ps ! 1) \<and>
       sub_fps (lv_sub st') = min (le_fps e) (le_atof_int e (ps ! 2)) \<and> sub_bitrate (lv_sub st') = atoi (ps ! 3) \<and>
       start_frameno (lv_sub st') = start_frameno (lv_sub st) \<and>
       (\<forall>s. StartStreamout s \<in> set (lv_log st') \<longrightarrow> StartStreamout s \<in> set (lv_log st))"
proof -
  let ?r = "b @ CHR '':'' # join (CHR '':'') ps"
  have nos: "CHR ''/'' \<notin> set ?r" using assms(2,5) join_no_char [of ps "CHR ''/''" "CHR '':''"] by auto
  have t: "take 10239 spec = spec" using assms(7) by simp
  have l1: "strrchr spec (CHR ''/'') = Some (CHR ''/'' # ?r)" unfolding assms(6) using strrchr_split [OF nos, of a] by simp
  have l2: "strchr (CHR ''/'' # ?r) (CHR '':'') = Some (CHR '':'' # join (CHR '':'') ps)"
    using strchr_split [of "CHR '':''" "CHR ''/'' # b" "join (CHR '':'') ps"] assms(3) by simp
  have l3: "splitCString (join (CHR '':'') ps) (CHR '':'') = ps" using assms(4,5) by (intro splitCString_join) auto
  have l4: "take (length spec - Suc (length (join (CHR '':'') ps))) spec = a @ CHR ''/'' # b"
    unfolding assms(6) by simp
  show ?thesis
    using assms(1,8) l3
    by (auto simp: exec_cmd_def exec_subout_def assms(9) t l1 l2 l4 Let_def log_action_def min_def simp del: take_append)
qed

lemma subout_while_running_example:
  "exec_cmd env_example (cmd0\<lparr>operation := SUBOUT, c_spec := ''rtmp://h/app/s:640:360:25''\<rparr>) live_example = None"
proof -
  have "''rtmp://h/app/s:640:360:25'' = ''rtmp://h/app'' @ CHR ''/'' # ''s'' @ CHR '':'' # join (CHR '':'') [''640'', ''360'', ''25'']"
    by simp
  from subout_while_running [OF _ _ _ _ _ this, where st = live_example and e = env_example
      and c = "cmd0\<lparr>operation := SUBOUT, c_spec := ''rtmp://h/app/s:640:360:25''\<rparr>"]
  show ?thesis by (simp add: live_example_def)
qed

end
