(* ===== verification/Thread_Loop.thy ===== *)
theory Thread_Loop
  imports Safe_Queue
begin

text \<open>
  The contract the worker threads of the program share: a thread takes values from its queue,
  one turn of its loop at a time, and hands each to a write call. \<open>buf\<close> is what is queued,
  \<open>wire\<close> what was handed to write calls, oldest first; during a turn other threads may only
  append to the queue. \<open>goes\<close> says that the loop goes on.
\<close>

locale queue_thread =
  fixes turn :: "'e \<Rightarrow> 's \<Rightarrow> 's \<times> bool"
    and buf :: "'s \<Rightarrow> 'a list"
    and wire :: "'s \<Rightarrow> 'a list"
    and env_ok :: "'e \<Rightarrow> bool"
  assumes turn_order: "env_ok e \<Longrightarrow> turn e s = (s', goes) \<Longrightarrow> \<exists>new. wire s' @ buf s' = wire s @ buf s @ new"
    and turn_wire: "env_ok e \<Longrightarrow> turn e s = (s', goes) \<Longrightarrow> \<exists>out. wire s' = wire s @ out \<and> length out \<le> 1"
begin

fun run :: "'e list \<Rightarrow> 's \<Rightarrow> 's \<times> bool" where
  "run [] s = (s, True)"
| "run (e # es) s = (case turn e s of (s', goes) \<Rightarrow> if goes then run es s' else (s', False))"

text \<open>Over a run nothing queued is lost, doubled or overtaken.\<close>

lemma run_order:
  "\<forall>e \<in> set es. env_ok e \<Longrightarrow> run es s = (s', goes) \<Longrightarrow> \<exists>new. wire s' @ buf s' = wire s @ buf s @ new"
proof (induction es arbitrary: s)
  case Nil
  then show ?case by simp
next
  case (Cons e es)
  obtain s1 g where t: "turn e s = (s1, g)" by fastforce
  obtain new where n: "wire s1 @ buf s1 = wire s @ buf s @ new" using turn_order [OF _ t] Cons.prems by auto
  show ?case
  proof (cases g)
    case True
    then obtain new' where "wire s' @ buf s' = wire s1 @ buf s1 @ new'"
      using Cons.IH [of s1] Cons.prems t by auto
    then have "wire s' @ buf s' = wire s @ buf s @ new @ new'" using n by (metis append.assoc)
    then show ?thesis by blast
  next
    case False
    then show ?thesis using Cons.prems t n by auto
  qed
qed

lemma run_wire_length:
  "\<forall>e \<in> set es. env_ok e \<Longrightarrow> run es s = (s', goes) \<Longrightarrow> length (wire s') \<le> length (wire s) + length es"
proof (induction es arbitrary: s)
  case (Cons e es)
  obtain s1 g where t: "turn e s = (s1, g)" by fastforce
  obtain out where "wire s1 = wire s @ out" "length out \<le> 1" using turn_wire [OF _ t] Cons.prems by auto
  then show ?case using Cons.IH [of s1] Cons.prems t by (cases g) auto
qed simp

end

text \<open>A wait on a queue: others may append, abort or resume.\<close>

definition appends :: "('a safe_queue \<Rightarrow> 'a safe_queue) \<Rightarrow> bool" where
  "appends w \<longleftrightarrow> (\<forall>q. \<exists>new. m_q (w q) = m_q q @ new)"

lemma PopMove_order:
  "appends w \<Longrightarrow> PopMove w t q = (r, q') \<Longrightarrow>
    \<exists>new. (case r of None \<Rightarrow> [] | Some x \<Rightarrow> [x]) @ m_q q' = m_q q @ new"
proof -
  assume w: "appends w" and p: "PopMove w t q = (r, q')"
  obtain new where n: "m_q (w q) = m_q q @ new" using w unfolding appends_def by blast
  show ?thesis
  proof (cases "m_q q")
    case Nil
    with p n show ?thesis by (auto simp: PopMove_def Let_def split: if_splits list.splits)
  next
    case (Cons x xs)
    with p show ?thesis by (auto simp: PopMove_def Let_def split: if_splits intro: exI [of _ "[]"])
  qed
qed

end
