(* ===== verification/Event_Push_Thms.thy ===== *)
theory Event_Push_Thms
  imports Event_Push Thread_Loop
begin

text \<open>
  What the event channel guarantees over every interleaving of the senders and the pushing
  thread: a step relation on the state together with the list of accepted lines, and the
  invariants by rule induction.
\<close>

section \<open>Steps\<close>

definition clock_ok :: "int \<times> int \<Rightarrow> bool" where
  "clock_ok tv \<longleftrightarrow> - (2 ^ 63) \<le> getCurrentTime tv \<and> getCurrentTime tv < 2 ^ 63"

inductive push_step :: "push_thread \<times> string list \<Rightarrow> push_thread \<times> string list \<Rightarrow> bool" where
  step_send: "clock_ok tv \<Longrightarrow> send_event c msg tv t = (r, t') \<Longrightarrow>
    push_step (t, acc)
      (t', if r = 0 then acc @ [event_line (event_number c) (getCurrentTime tv) msg] else acc)"
| step_turn: "runner t \<Longrightarrow> \<not> ended t \<Longrightarrow> push_RUN env t = (t', goes) \<Longrightarrow>
    push_step (t, acc) (t'\<lparr>ended := \<not> goes\<rparr>, acc)"
| step_stop: "push_step (t, acc) (push_STOP False t, acc)"
| step_init: "init_fifo_event fifo t = (r, t') \<Longrightarrow> push_step (t, acc) (t', acc)"
| step_finish: "finish_fifo_event t = (r, t') \<Longrightarrow> push_step (t, acc) (t', acc)"

inductive_cases push_stepE: "push_step s s'"

inductive push_reach :: "push_thread \<times> string list \<Rightarrow> push_thread \<times> string list \<Rightarrow> bool" where
  reach_refl: "push_reach s s"
| reach_step: "push_reach s s' \<Longrightarrow> push_step s' s'' \<Longrightarrow> push_reach s s''"

definition push_inv :: "push_thread \<times> string list \<Rightarrow> bool" where
  "push_inv s \<longleftrightarrow> \<not> m_abort (eventBuffers (fst s)) \<and> wire (fst s) @ m_q (eventBuffers (fst s)) = snd s"

lemma send_event_cases:
  assumes "clock_ok tv" "send_event c msg tv t = (r, t')"
  shows "(r = -1 \<and> t' = t) \<or> (r = 0 \<and>
    t' = t\<lparr>eventBuffers := snd (PushMove (eventBuffers t) (event_line (event_number c) (getCurrentTime tv) msg))\<rparr>)"
proof (cases "fifo_name t = [] \<or> \<not> runner t")
  case True
  then show ?thesis using assms by (simp add: send_event_def)
next
  case False
  then show ?thesis using assms by (simp add: send_event_queues clock_ok_def)
qed

text \<open>A turn takes at most the front of the queue, and what it takes it hands to \<^verbatim>\<open>write\<close>.\<close>

lemma push_RUN_inv:
  assumes "push_RUN env t = (t', goes)" "\<not> m_abort (eventBuffers t)"
  shows "\<not> m_abort (eventBuffers t') \<and> wire t' @ m_q (eventBuffers t') = wire t @ m_q (eventBuffers t)
    \<and> runner t' = runner t \<and> (\<not> goes \<longrightarrow> pExit t' \<and> (pStopped t' \<or> m_q (eventBuffers t') = []))"
  using assms by (auto simp: push_RUN_def PopMove_def Let_def split: if_splits list.splits)

lemma push_step_inv: "push_step s s' \<Longrightarrow> push_inv s \<Longrightarrow> push_inv s'"
proof (induction rule: push_step.induct)
  case (step_send tv c msg t r t' acc)
  from send_event_cases [OF step_send(1,2)] show ?case
    using step_send(3) by (auto simp: push_inv_def PushMove_def)
next
  case (step_turn t env t' goes acc)
  from push_RUN_inv [OF step_turn(3)] show ?case using step_turn(4) by (simp add: push_inv_def)
qed (auto simp: push_inv_def push_STOP_def init_fifo_event_def push_START_def finish_fifo_event_def
       push_EXIT_def Let_def split: if_splits)

lemma push_reach_inv: "push_reach s s' \<Longrightarrow> push_inv s \<Longrightarrow> push_inv s'"
  by (induction rule: push_reach.induct) (auto intro: push_step_inv)

text \<open>The pushing thread is a queue thread.\<close>

interpretation push_loop: queue_thread push_RUN "\<lambda>t. m_q (eventBuffers t)" wire "\<lambda>_. True"
  by unfold_locales (auto simp: push_RUN_def PopMove_def Let_def split: if_splits list.splits)

section \<open>Order and completeness\<close>



section \<open>After a forced end\<close>

definition push_dead :: "push_thread \<Rightarrow> bool" where "push_dead t \<longleftrightarrow> runner t \<and> ended t"

lemma push_step_dead: "push_step s s' \<Longrightarrow> push_dead (fst s) \<Longrightarrow> push_dead (fst s') \<and> wire (fst s') = wire (fst s)"
proof (induction rule: push_step.induct)
  case (step_send tv c msg t r t' acc)
  from send_event_cases [OF step_send(1,2)] show ?case
    using step_send(3) by (auto simp: push_dead_def)
qed (auto simp: push_dead_def push_STOP_def init_fifo_event_def push_START_def finish_fifo_event_def
       push_EXIT_def Let_def split: if_splits)

lemma push_reach_dead:
  "push_reach s s' \<Longrightarrow> push_dead (fst s) \<Longrightarrow> push_dead (fst s') \<and> wire (fst s') = wire (fst s)"
  by (induction rule: push_reach.induct) (use push_step_dead in force)+

text \<open>After \<^verbatim>\<open>finish_fifo_event\<close> has let the thread end, the thread pointer is never
  cleared, so no later \<^verbatim>\<open>init_fifo_event\<close> starts a thread: \<^verbatim>\<open>send_event\<close> still answers 0 and
  queues the line, but nothing is ever written again.\<close>

lemma events_lost_after_finish:
  assumes "runner t" "ended t" "push_reach (snd (init_fifo_event fifo t), acc) (t', acc')"
    "fifo_name t' \<noteq> []"
  shows "wire t' = wire t \<and> ended t' \<and> fst (send_event c msg tv t') = 0"
proof -
  have "push_dead (snd (init_fifo_event fifo t))"
    "wire (snd (init_fifo_event fifo t)) = wire t"
    using assms by (auto simp: push_dead_def init_fifo_event_def push_START_def Let_def)
  then have "push_dead t' \<and> wire t' = wire t" using push_reach_dead [OF assms(3)] by simp
  then show ?thesis using assms(4)
    by (auto simp: push_dead_def send_event_def push_Write_def Let_def split: prod.splits)
qed

lemma events_lost_after_finish_example:
  "let t0 = snd (finish_fifo_event (snd (init_fifo_event ''p'' PushEventThread)));
       (t1, goes) = push_RUN \<lparr>env_open = 3, env_write = 0\<rparr> t0;
       t2 = snd (init_fifo_event ''p'' (t1\<lparr>ended := \<not> goes\<rparr>))
   in wire t2 = [] \<and> ended t2 \<and> fst (send_event ET_INIT_SUCCESS ''ok'' (1, 0) t2) = 0"
proof -
  define t0 where "t0 = snd (finish_fifo_event (snd (init_fifo_event ''p'' PushEventThread)))"
  define t1 where "t1 = (fst (push_RUN \<lparr>env_open = 3, env_write = 0\<rparr> t0))\<lparr>ended := True\<rparr>"
  have g: "snd (push_RUN \<lparr>env_open = 3, env_write = 0\<rparr> t0) = False" "runner t1" "ended t1" "wire t1 = []"
    "fifo_name (snd (init_fifo_event ''p'' t1)) \<noteq> []"
    by (auto simp: t1_def t0_def finish_fifo_event_def init_fifo_event_def push_START_def push_EXIT_def
        PushEventThread_def SafeQueue_def push_RUN_def PopMove_def Let_def)
  from events_lost_after_finish [OF g(2,3) reach_refl g(5), where c = ET_INIT_SUCCESS and msg = "''ok''" and tv = "(1, 0)"]
  show ?thesis using g by (simp add: t0_def [symmetric] t1_def case_prod_beta Let_def)
qed

section \<open>No escaping\<close>

lemma c_str_append: "CHR 0x00 \<notin> set m \<Longrightarrow> c_str (m @ x) = m @ c_str x"
  by (induction m) (auto simp: c_str_def)

text \<open>The message is put between quotes as it is: a quote in it ends the field, and the line
  carries whatever fields the rest of the message spells.\<close>

lemma event_message_unescaped:
  assumes "CHR 0x00 \<notin> set m" "CHR 0x00 \<notin> set n"
  shows "event_line ecode now (m @ [quote] @ '', '' @ quoted ''code'' @ '':'' @ [quote] @ n)
    = ''{'' @ quoted ''code'' @ '':'' @ quoted (print_int ecode) @ '', '' @ quoted ''timestamp'' @ '':''
       @ quoted (print_int now) @ '', '' @ quoted ''message'' @ '':'' @ quoted m
       @ '', '' @ quoted ''code'' @ '':'' @ quoted n @ ''}'' @ [CHR 0x0A]"
proof -
  have n: "CHR 0x00 \<notin> set (m @ [quote] @ '', '' @ quoted ''code'' @ '':'' @ [quote] @ n)"
    using assms by (auto simp: quote_def quoted_def)
  show ?thesis
    using c_str_append [OF n, of "[]"] unfolding event_line_def by (simp add: quoted_def c_str_def)
qed

end
