(* ===== verification/C_Double.thy ===== *)
theory C_Double
  imports DV_Prelude Complex_Main
begin

text \<open>
  Floating point numbers of the program. A finite double is a rational; every arithmetic
  operation takes the exact result through the rounding \<open>rnd\<close>, a parameter (the rounding of
  IEEE 754 to the nearest double), so that no law of exact arithmetic is built in. What a proof needs
  of the rounding is a hypothesis on the values concerned. Infinities and NaN are not modelled.
\<close>

type_synonym rounding = "rat \<Rightarrow> rat"

definition f_add :: "rounding \<Rightarrow> rat \<Rightarrow> rat \<Rightarrow> rat" where "f_add rnd a b = rnd (a + b)"
definition f_sub :: "rounding \<Rightarrow> rat \<Rightarrow> rat \<Rightarrow> rat" where "f_sub rnd a b = rnd (a - b)"
definition f_mul :: "rounding \<Rightarrow> rat \<Rightarrow> rat \<Rightarrow> rat" where "f_mul rnd a b = rnd (a * b)"
definition f_div :: "rounding \<Rightarrow> rat \<Rightarrow> rat \<Rightarrow> rat" where "f_div rnd a b = rnd (a / b)"

text \<open>The conversion to an integer type drops the fraction.\<close>

definition f_trunc :: "rat \<Rightarrow> int" where
  "f_trunc x = (if x < 0 then - \<lfloor>- x\<rfloor> else \<lfloor>x\<rfloor>)"

lemma f_trunc_of_int [simp]: "f_trunc (of_int i) = i"
  by (simp add: f_trunc_def)

lemma f_trunc_bounds: "0 \<le> x \<Longrightarrow> of_int (f_trunc x) \<le> x \<and> x < of_int (f_trunc x) + 1"
  using floor_correct [of x] by (simp add: f_trunc_def)

lemma f_trunc_nonneg: "0 \<le> x \<Longrightarrow> 0 \<le> f_trunc x"
  by (simp add: f_trunc_def)

lemma f_trunc_range:
  assumes "of_int a \<le> x" "x < of_int b" "a \<le> 0" "0 < b"
  shows "a \<le> f_trunc x" "f_trunc x < b"
proof -
  have "0 \<le> \<lfloor>- x\<rfloor>" if "x < 0" unfolding zero_le_floor using that by simp
  moreover have "\<lfloor>- x\<rfloor> \<le> - a" using assms(1) by (simp add: floor_le_iff)
  moreover have "a \<le> \<lfloor>x\<rfloor>" "\<lfloor>x\<rfloor> < b" using assms by (simp_all add: le_floor_iff floor_less_iff)
  ultimately show "a \<le> f_trunc x" "f_trunc x < b" using assms(4)
    by (simp_all add: f_trunc_def del: zero_le_floor) linarith+
qed

lemma f_trunc_least:
  assumes "of_int (a - 1) < x" "0 \<le> a"
  shows "a - 1 \<le> f_trunc x" "0 \<le> f_trunc x"
proof -
  have "\<lfloor>- x\<rfloor> = 0" if "x < 0" using assms that by (simp add: floor_eq_iff)
  moreover have "a \<le> 1" if "x < 0"
  proof -
    have "(of_int (a - 1) :: rat) < of_int 0" using assms(1) that by simp
    then show ?thesis by (simp only: of_int_less_iff)
  qed
  moreover have "a - 1 \<le> \<lfloor>x\<rfloor>" using assms(1) by (simp add: le_floor_iff)
  ultimately show "a - 1 \<le> f_trunc x" "0 \<le> f_trunc x" using assms(2) by (auto simp: f_trunc_def)
qed

section \<open>Rounding to the nearest double\<close>

text \<open>
  What IEEE 754 double arithmetic promises, as far as the proofs use it: below the overflow
  threshold the error is at most half a unit in the last place (relatively \<open>2 ^ -53\<close>, and
  half of the smallest subnormal number near zero), and halves of integers up to \<open>2 ^ 53\<close> are
  exact. Exact arithmetic satisfies it (\<open>ieee_exact\<close>).
\<close>

definition ieee :: "rounding \<Rightarrow> bool" where
  "ieee r \<longleftrightarrow> (\<forall>x. \<bar>x\<bar> \<le> 2 ^ 1000 \<longrightarrow> \<bar>r x - x\<bar> \<le> \<bar>x\<bar> / 2 ^ 53 + 1 / 2 ^ 1074)
     \<and> (\<forall>i. \<bar>i\<bar> \<le> 2 ^ 53 \<longrightarrow> r (of_int i / 2) = of_int i / 2)"

lemma ieee_exact: "ieee (\<lambda>x. x)"
  by (simp add: ieee_def)

lemma ieee_error: "ieee r \<Longrightarrow> \<bar>x\<bar> \<le> 2 ^ 1000 \<Longrightarrow> \<bar>r x - x\<bar> \<le> \<bar>x\<bar> / 2 ^ 53 + 1 / 2 ^ 1074"
  unfolding ieee_def by blast

lemma ieee_close:
  assumes "ieee r" "\<bar>x\<bar> \<le> 2 ^ k" "k \<le> 1000" "e \<ge> 2 ^ k / 2 ^ 53 + 1 / 2 ^ 1074"
  shows "\<bar>r x - x\<bar> \<le> e"
proof -
  have "(2::rat) ^ k \<le> 2 ^ 1000" using assms(3) by (intro power_increasing) simp_all
  then have "\<bar>r x - x\<bar> \<le> \<bar>x\<bar> / 2 ^ 53 + 1 / 2 ^ 1074" using assms(1,2) by (simp add: ieee_def)
  also have "\<dots> \<le> e" using assms(2,4) by (simp add: divide_right_mono order_trans)
  finally show ?thesis .
qed

lemma ieee_half: "ieee r \<Longrightarrow> \<bar>i\<bar> \<le> 2 ^ 53 \<Longrightarrow> r (of_int i / 2) = of_int i / 2"
  by (simp add: ieee_def)

lemma ieee_int: "ieee r \<Longrightarrow> \<bar>i\<bar> \<le> 2 ^ 52 \<Longrightarrow> r (of_int i) = of_int i"
  using ieee_half [of r "2 * i"] by simp

end
