(* ===== verification/Frame_Read.thy ===== *)
theory Frame_Read
  imports Material_Parse C_Double
begin

text \<open>
  Which picture of a material is shown at a time (\<^verbatim>\<open>read_next_frame\<close> and
  \<^verbatim>\<open>get_text_image\<close> of \<^verbatim>\<open>material.cpp\<close>, the placement of \<^verbatim>\<open>RotateMat\<close> of
  \<^verbatim>\<open>matops.cpp\<close>). Pictures are a type of their own; drawing, rotating and overlaying them is
  OpenCV's and a parameter, as are the decoder's next picture, \<^verbatim>\<open>strftime\<close>,
  \<^verbatim>\<open>localtime\<close> and the current time. A pointer to an element of an empty vector is
  modelled as the null pointer.
\<close>

section \<open>State and the parts outside\<close>

record 'i materialcontext =
  cw :: int
  ch :: int
  cfps :: rat
  findex :: int
  cts :: rat
  tstep :: rat
  frames :: "'i list"
  fps_times :: "rat option list"
  bufindex :: int
  time_opacity :: int
  time_rotation :: int
  ftype :: ColorType
  clock_x_ratio :: rat
  clock_y_ratio :: rat

record ('r, 'b, 'i) frame_ops =
  rnd :: rounding
  rd_video :: "'r \<Rightarrow> (int \<times> 'b option) \<times> 'r"
  rd_dims :: "'r \<Rightarrow> int \<times> int \<times> rat"
  to_mat :: "material \<Rightarrow> 'b \<Rightarrow> 'i"
  mat_empty :: "'i \<Rightarrow> bool"
  mat_cols :: "'i \<Rightarrow> int"
  mat_rows :: "'i \<Rightarrow> int"
  draw_text :: "string \<Rightarrow> material \<Rightarrow> int \<Rightarrow> 'i"
  rotate_mat :: "int \<Rightarrow> 'i \<Rightarrow> 'i"
  mat_resize :: "'i \<Rightarrow> int \<Rightarrow> int \<Rightarrow> 'i"
  overlay_bgra :: "'i \<Rightarrow> 'i \<Rightarrow> int \<Rightarrow> int \<Rightarrow> int \<Rightarrow> int \<Rightarrow> 'i"
  strftime :: "string \<Rightarrow> int \<Rightarrow> string"
  local_hms :: "int \<Rightarrow> int \<times> int \<times> int"
  time_now :: int

definition frame_at :: "'i list \<Rightarrow> int \<Rightarrow> 'i option" where
  "frame_at fs i = (if 0 \<le> i \<and> i < int (length fs) then Some (fs ! nat i) else None)"

definition set_front :: "'i list \<Rightarrow> 'i \<Rightarrow> 'i list" where
  "set_front fs i = (case fs of [] \<Rightarrow> [] | _ # r \<Rightarrow> i # r)"

section \<open>Gif times\<close>

text \<open>\<^verbatim>\<open>open_materials\<close>: the absolute times in seconds become durations in milliseconds; the
  first picture gets the mean. With one picture the mean divides by zero: the duration is
  infinite or not a number, written \<open>None\<close>. Both are treated alike by the loop below, an
  infinite one by its first test, the other by failing every comparison.\<close>

fun time_diffs :: "rounding \<Rightarrow> rat \<Rightarrow> rat list \<Rightarrow> rat option list" where
  "time_diffs r p [] = []"
| "time_diffs r p (x # xs) = Some (f_mul r (f_sub r x p) 1000) # time_diffs r x xs"

definition gif_timebase :: "rounding \<Rightarrow> rat list \<Rightarrow> rat option" where
  "gif_timebase r pts =
     (if length pts \<le> 1 then None
      else Some (f_mul r (f_div r (last pts) (of_int (int (length pts) - 1))) 1000))"

definition gif_relative_times :: "rounding \<Rightarrow> rat list \<Rightarrow> rat option list" where
  "gif_relative_times r pts =
     (case pts of [] \<Rightarrow> [] | p # ps \<Rightarrow> gif_timebase r pts # time_diffs r p ps)"

definition gif_cur :: "'i materialcontext \<Rightarrow> int" where
  "gif_cur c = size_t (findex c) mod int (length (fps_times c))"

definition gif_dur :: "'i materialcontext \<Rightarrow> rat option" where
  "gif_dur c = fps_times c ! nat (gif_cur c)"

text \<open>The loop that advances; it may run for ever, then it has no value.\<close>

partial_function (option) gif_advance ::
  "rounding \<Rightarrow> rat \<Rightarrow> 'i materialcontext \<Rightarrow> 'i materialcontext option" where
  "gif_advance r ts c =
     (case gif_dur c of
        None \<Rightarrow> Some c
      | Some d \<Rightarrow>
          if f_add r (cts c) d < ts
          then gif_advance r ts (c\<lparr>cts := f_add r (cts c) d, findex := findex c + 1\<rparr>)
          else Some c)"

definition gif_frame :: "rounding \<Rightarrow> rat \<Rightarrow> 'i materialcontext \<Rightarrow> ('i option \<times> 'i materialcontext) option" where
  "gif_frame r ts c =
     (if frames c = [] then Some (None, c)
      else if (case gif_dur c of None \<Rightarrow> True | Some d \<Rightarrow> f_add r (cts c) d > ts) then Some (frame_at (frames c) (gif_cur c), c)
      else case gif_advance r ts c of
             None \<Rightarrow> None
           | Some c' \<Rightarrow> Some (frame_at (frames c') (gif_cur c'), c'))"

section \<open>Video materials\<close>

partial_function (option) catch_up :: "rounding \<Rightarrow> rat \<Rightarrow> 'i materialcontext \<Rightarrow> 'i materialcontext option" where
  "catch_up r ts c =
     (if f_add r (cts c) (tstep c) < ts then catch_up r ts (c\<lparr>cts := f_add r (cts c) (tstep c)\<rparr>) else Some c)"

text \<open>The reading loop: the last picture made (if any), whether the loop body ran, reader and context.\<close>

partial_function (option) video_loop ::
  "('r, 'b, 'i) frame_ops \<Rightarrow> rat \<Rightarrow> material \<Rightarrow> 'i option \<Rightarrow> bool \<Rightarrow> 'r \<Rightarrow> 'i materialcontext
     \<Rightarrow> ('i option \<times> bool \<times> 'r \<times> 'i materialcontext) option" where
  "video_loop ops ts m mat use_old rd c =
     (if f_add (rnd ops) (cts c) (tstep c) < ts
      then
        (let ((ret, buffer), rd') = rd_video ops rd;
             mat' = (case buffer of Some b \<Rightarrow> Some (to_mat ops m b) | None \<Rightarrow> mat)
         in if buffer = None \<or> (case mat' of None \<Rightarrow> True | Some i \<Rightarrow> mat_empty ops i)
            then (case catch_up (rnd ops) ts c of None \<Rightarrow> None | Some c' \<Rightarrow> Some (mat', False, rd', c'))
            else video_loop ops ts m mat' False rd' (c\<lparr>cts := f_add (rnd ops) (cts c) (tstep c)\<rparr>))
      else Some (mat, use_old, rd, c))"

definition video_first ::
  "('r, 'b, 'i) frame_ops \<Rightarrow> rat \<Rightarrow> material \<Rightarrow> 'r \<Rightarrow> 'i materialcontext \<Rightarrow> 'i option \<times> 'r \<times> 'i materialcontext" where
  "video_first ops ts m rd c =
     (let ((ret, buffer), rd') = rd_video ops rd
      in if ret < 0 then (None, rd', c)
         else case buffer of
                None \<Rightarrow> (None, rd', c)
              | Some b \<Rightarrow>
                  let (w, h, rfps) = rd_dims ops rd';
                      c1 = c\<lparr>cw := w, ch := h\<rparr>;
                      c2 = (if cfps c1 < 1
                            then let f = (if rfps \<ge> 1 then rfps else 25)
                                 in c1\<lparr>cfps := f, tstep := f_div (rnd ops) 1000 f, cts := ts\<rparr>
                            else c1);
                      img = to_mat ops m b
                  in (Some img, rd', c2\<lparr>frames := [img], cts := f_add (rnd ops) (cts c2) (tstep c2), bufindex := 1\<rparr>))"

definition video_frame ::
  "('r, 'b, 'i) frame_ops \<Rightarrow> rat \<Rightarrow> material \<Rightarrow> 'r \<Rightarrow> 'i materialcontext
     \<Rightarrow> ('i option \<times> 'r \<times> 'i materialcontext) option" where
  "video_frame ops ts m rd c =
     (if frames c = [] then Some (video_first ops ts m rd c)
      else case video_loop ops ts m None True rd c of
             None \<Rightarrow> None
           | Some (mat, use_old, rd', c') \<Rightarrow>
               (case mat of
                  Some img \<Rightarrow>
                    if \<not> mat_empty ops img
                    then Some (Some img, rd', c'\<lparr>frames := set_front (frames c') img, bufindex := 1\<rparr>)
                    else Some (if use_old then frame_at (frames c') (size_t (bufindex c' - 1) mod int (length (frames c'))) else None, rd', c')
                | None \<Rightarrow>
                    Some (if use_old then frame_at (frames c') (size_t (bufindex c' - 1) mod int (length (frames c'))) else None, rd', c')))"

section \<open>Text, time and clock\<close>

definition RotateMat :: "('r, 'b, 'i) frame_ops \<Rightarrow> 'i \<Rightarrow> int \<times> int \<Rightarrow> int \<Rightarrow> 'i \<times> int \<times> int" where
  "RotateMat ops mat pos degree =
     (let w = mat_cols ops mat; h = mat_rows ops mat
      in if c_rem degree 90 = 0
         then (rotate_mat ops (c_rem degree 360) mat,
               if c_rem (c_rem degree 360) 180 \<noteq> 0 then (fst pos + c_div (w - h) 2, snd pos + c_div (h - w) 2) else pos)
         else let res = rotate_mat ops degree mat
              in (res, fst pos + c_div (w - mat_cols ops res) 2, snd pos + c_div (h - mat_rows ops res) 2))"

definition get_text_image ::
  "('r, 'b, 'i) frame_ops \<Rightarrow> string \<Rightarrow> material \<Rightarrow> 'i materialcontext \<Rightarrow> material \<times> 'i materialcontext" where
  "get_text_image ops txt m c =
     (let is_time = (mtype m = MT_Time);
          (m, c) = (if 0 < opacity m \<and> opacity m < 100 \<and> is_time
                    then (m\<lparr>opacity := 100\<rparr>, c\<lparr>time_opacity := opacity m\<rparr>) else (m, c));
          (m, c) = (if c_rem (rotation m) 360 \<noteq> 0 \<and> is_time
                    then (m\<lparr>rotation := 0\<rparr>, c\<lparr>time_rotation := rotation m\<rparr>) else (m, c));
          op0 = (if is_time then time_opacity c else opacity m);
          rot = (if is_time then time_rotation c else rotation m);
          op = (if op0 \<le> 0 \<or> op0 > 100 then 100 else op0);
          mat = draw_text ops txt m op;
          (mat, m) = (if c_rem rot 360 \<noteq> 0
                      then let (mat', px, py) = RotateMat ops mat (rx (mrect m), ry (mrect m)) (c_rem rot 360)
                           in (mat', m\<lparr>mrect := \<lparr>rx = px, ry = py, rwidth = mat_cols ops mat', rheight = mat_rows ops mat'\<rparr>\<rparr>)
                      else (mat, m))
      in (m\<lparr>opacity := 100, rotation := 0\<rparr>,
          c\<lparr>frames := [mat], cw := mat_cols ops mat, ch := mat_rows ops mat, ftype := FT_BGRA\<rparr>))"

text \<open>\<^verbatim>\<open>replace_all\<close> for the texts it is called with: the search goes on after the replacement.\<close>

fun replace_fuel :: "nat \<Rightarrow> string \<Rightarrow> string \<Rightarrow> string \<Rightarrow> string" where
  "replace_fuel 0 s p t = s"
| "replace_fuel (Suc n) s p t =
     (case s of [] \<Rightarrow> []
      | x # xs \<Rightarrow> if starts_with p s then t @ replace_fuel n (drop (length p) s) p t else x # replace_fuel n xs p t)"

definition replace_all :: "string \<Rightarrow> string \<Rightarrow> string \<Rightarrow> string" where
  "replace_all s p t = replace_fuel (length s) s p t"

definition shown_second :: "material \<Rightarrow> rat \<Rightarrow> int" where
  "shown_second m ts = clock_starttime m + c_div (f_trunc ts) 1000"

definition time_frame ::
  "('r, 'b, 'i) frame_ops \<Rightarrow> rat \<Rightarrow> material \<Rightarrow> 'i materialcontext \<Rightarrow> 'i option \<times> material \<times> 'i materialcontext" where
  "time_frame ops ts m c =
     (let first = (frames c = []);
          (m, c) = (if first
                    then (m\<lparr>mtext := take 1024 (replace_all (replace_all (mtext m) ''%20%'' '' '') ''%c%'' '':'')\<rparr>,
                          c\<lparr>cfps := 1, tstep := 1000, cts := ts\<rparr>)
                    else (m, c));
          (m, c) = (if first \<or> f_add (rnd ops) (cts c) (tstep c) < ts
                    then let m1 = (if clock_starttime m = 0 then m\<lparr>clock_starttime := time_now ops\<rparr> else m);
                             (m2, c2) = get_text_image ops (strftime ops (mtext m1) (shown_second m1 ts)) m1 c
                         in (m2, c2\<lparr>cts := f_add (rnd ops) (cts c2) (tstep c2)\<rparr>)
                    else (m, c))
      in (frame_at (frames c) 0, m, c))"

definition clock_angles :: "int \<times> int \<times> int \<Rightarrow> int list" where
  "clock_angles hms = (case hms of (h, mi, s) \<Rightarrow> [h * 30 + c_div mi 2, mi * 6 + c_div s 10, s * 6])"

text \<open>A hand is turned, scaled by the ratios of the clock and put on the middle of the picture.\<close>

definition put_hand ::
  "('r, 'b, 'i) frame_ops \<Rightarrow> 'i materialcontext \<Rightarrow> 'i \<Rightarrow> int \<Rightarrow> 'i \<Rightarrow> 'i" where
  "put_hand ops c hand angle mat =
     (let mat1 = fst (RotateMat ops hand (0, 0) angle);
          mat2 = mat_resize ops mat1 (f_trunc (f_mul (rnd ops) (of_int (mat_cols ops mat1)) (clock_x_ratio c)))
                   (f_trunc (f_mul (rnd ops) (of_int (mat_rows ops mat1)) (clock_y_ratio c)))
      in overlay_bgra ops mat mat2 (c_div (mat_cols ops mat - mat_cols ops mat2) 2)
           (c_div (mat_rows ops mat - mat_rows ops mat2) 2) (mat_cols ops mat2) (mat_rows ops mat2))"

definition clock_image :: "('r, 'b, 'i) frame_ops \<Rightarrow> 'i materialcontext \<Rightarrow> int \<times> int \<times> int \<Rightarrow> 'i" where
  "clock_image ops c hms =
     fold (\<lambda>(hand, angle) mat. put_hand ops c hand angle mat)
       (zip (take 3 (drop 1 (frames c))) (clock_angles hms)) (hd (frames c))"

definition clock_frame ::
  "('r, 'b, 'i) frame_ops \<Rightarrow> rat \<Rightarrow> material \<Rightarrow> 'i materialcontext \<Rightarrow> 'i option \<times> material \<times> 'i materialcontext" where
  "clock_frame ops ts m c =
     (if length (frames c) < 4 then (None, m, c)
      else
        let c1 = (if length (frames c) = 4 then c\<lparr>tstep := 1000, cts := ts\<rparr> else c);
            (m, c) = (if length (frames c1) \<le> 4 \<or> f_add (rnd ops) (cts c1) (tstep c1) < ts
                      then let m1 = (if clock_starttime m = 0 then m\<lparr>clock_starttime := time_now ops\<rparr> else m);
                               mat = clock_image ops c1 (local_hms ops (shown_second m1 ts));
                               fs = (if length (frames c1) < 5 then frames c1 @ [mat] else (frames c1)[4 := mat])
                           in (m1, c1\<lparr>frames := fs, cts := f_add (rnd ops) (cts c1) (tstep c1)\<rparr>)
                      else (m, c1))
        in (frame_at (frames c) 4, m, c))"

section \<open>The dispatch\<close>

definition read_next_frame ::
  "('r, 'b, 'i) frame_ops \<Rightarrow> rat \<Rightarrow> material \<Rightarrow> 'r \<Rightarrow> 'i materialcontext
     \<Rightarrow> ('i option \<times> material \<times> 'r \<times> 'i materialcontext) option" where
  "read_next_frame ops ts m rd c =
     (case mtype m of
        MT_Gif \<Rightarrow> (case gif_frame (rnd ops) ts c of None \<Rightarrow> None | Some (i, c') \<Rightarrow> Some (i, m, rd, c'))
      | MT_Video \<Rightarrow> (case video_frame ops ts m rd c of None \<Rightarrow> None | Some (i, rd', c') \<Rightarrow> Some (i, m, rd', c'))
      | MT_Time \<Rightarrow> (case time_frame ops ts m c of (i, m', c') \<Rightarrow> Some (i, m', rd, c'))
      | MT_Image \<Rightarrow> Some (frame_at (frames c) 0, m, rd, c)
      | MT_Text \<Rightarrow> Some (frame_at (frames c) 0, m, rd, c)
      | MT_Clock \<Rightarrow> (case clock_frame ops ts m c of (i, m', c') \<Rightarrow> Some (i, m', rd, c'))
      | _ \<Rightarrow> Some (None, m, rd, c))"

end
