(* ===== verification/Frame_Read_Thms.thy ===== *)
theory Frame_Read_Thms
  imports Frame_Read
begin

text \<open>
  What \<^verbatim>\<open>read_next_frame\<close> promises: the loops end and stop at the right picture, video
  materials are read at their own pace, and two facts about clocks and rotated time texts.
\<close>

section \<open>Gif materials\<close>

text \<open>What the loops need of rounding: before the time \<open>ts\<close> every step advances by at least
  \<open>e\<close>, and from there on none falls back behind it.\<close>

definition advances :: "rounding \<Rightarrow> rat \<Rightarrow> rat set \<Rightarrow> rat \<Rightarrow> bool" where
  "advances r e D ts \<longleftrightarrow> 0 < e \<and> (\<forall>x. \<forall>d \<in> D. (x < ts \<longrightarrow> x + e \<le> r (x + d)) \<and> (ts \<le> x \<longrightarrow> ts \<le> r (x + d)))"

lemma advances_step: "advances r e D ts \<Longrightarrow> x < ts \<Longrightarrow> d \<in> D \<Longrightarrow> x + e \<le> r (x + d)"
  by (simp add: advances_def)

lemma advances_stay: "advances r e D ts \<Longrightarrow> ts \<le> x \<Longrightarrow> d \<in> D \<Longrightarrow> ts \<le> r (x + d)"
  by (simp add: advances_def)

lemma gif_cur_bounds: "fps_times c \<noteq> [] \<Longrightarrow> 0 \<le> gif_cur c \<and> gif_cur c < int (length (fps_times c))"
  by (simp add: gif_cur_def)

lemma gif_dur_mem: "fps_times c \<noteq> [] \<Longrightarrow> gif_dur c \<in> set (fps_times c)"
  using gif_cur_bounds [of c] by (simp add: gif_dur_def nat_less_iff)

text \<open>The durations that are numbers, and that the current picture is still on at a time.\<close>

definition durations :: "'i materialcontext \<Rightarrow> rat set" where
  "durations c = {d. Some d \<in> set (fps_times c)}"

definition still_on :: "rounding \<Rightarrow> rat \<Rightarrow> 'i materialcontext \<Rightarrow> bool" where
  "still_on r ts c \<longleftrightarrow> (case gif_dur c of None \<Rightarrow> True | Some d \<Rightarrow> ts \<le> f_add r (cts c) d)"

lemma gif_dur_durations: "fps_times c \<noteq> [] \<Longrightarrow> gif_dur c = Some d \<Longrightarrow> d \<in> durations c"
  using gif_dur_mem [of c] by (simp add: durations_def)

lemma gif_advance_stays: "still_on r ts c \<Longrightarrow> gif_advance r ts c = Some c"
  by (subst gif_advance.simps) (simp add: still_on_def split: option.splits)

lemma gif_advance_returns:
  assumes "advances r e (durations c) ts" "fps_times c \<noteq> []" "ts - cts c \<le> of_nat n * e"
  shows "\<exists>c'. gif_advance r ts c = Some c' \<and> still_on r ts c'
    \<and> frames c' = frames c \<and> fps_times c' = fps_times c \<and> (c' = c \<or> cts c' < ts)"
  using assms
proof (induction n arbitrary: c)
  case 0
  then have "still_on r ts c"
    using advances_stay [of r e _ ts "cts c"] gif_dur_durations [of c]
    by (auto simp: still_on_def f_add_def split: option.splits)
  then show ?case using gif_advance_stays by blast
next
  case (Suc n)
  show ?case
  proof (cases "still_on r ts c")
    case True
    then show ?thesis using gif_advance_stays by blast
  next
    case False
    then obtain d where d: "gif_dur c = Some d" "f_add r (cts c) d < ts"
      by (auto simp: still_on_def split: option.splits)
    then have mem: "d \<in> durations c" using gif_dur_durations Suc.prems(2) by blast
    let ?c = "c\<lparr>cts := f_add r (cts c) d, findex := findex c + 1\<rparr>"
    have lt: "cts c < ts"
      using d(2) advances_stay [OF Suc.prems(1) _ mem, of "cts c"] by (force simp: f_add_def)
    have "cts c + e \<le> cts ?c" using advances_step [OF Suc.prems(1) lt mem] by (simp add: f_add_def)
    moreover have "ts - cts c \<le> of_nat n * e + e" using Suc.prems(3) by (simp add: algebra_simps)
    ultimately have le: "ts - cts ?c \<le> of_nat n * e" by linarith
    have "durations ?c = durations c" by (simp add: durations_def)
    then obtain c' where "gif_advance r ts ?c = Some c'" "still_on r ts c'"
      "frames c' = frames c" "fps_times c' = fps_times c" "c' = ?c \<or> cts c' < ts"
      using Suc.IH [of ?c] Suc.prems(1,2) le by auto
    then show ?thesis using d by (subst gif_advance.simps) auto
  qed
qed

text \<open>For a gif whose durations advance the clock, the search for the current picture ends
  and yields a picture of the gif that is still on at the asked time; the gif's clock does
  not run past that time.\<close>

lemma gif_frame_current:
  assumes "advances r e (durations c) ts" "frames c \<noteq> []" "length (fps_times c) = length (frames c)"
  shows "\<exists>i c'. gif_frame r ts c = Some (Some i, c') \<and> i = frames c ! nat (gif_cur c') \<and> i \<in> set (frames c)
    \<and> still_on r ts c' \<and> (c' = c \<or> cts c' < ts)"
proof -
  have ne: "fps_times c \<noteq> []" using assms by auto
  have at: "frame_at (frames c) (gif_cur c') = Some (frames c ! nat (gif_cur c')) \<and> frames c ! nat (gif_cur c') \<in> set (frames c)"
    if "fps_times c' = fps_times c" for c' :: "'a materialcontext"
    using gif_cur_bounds [of c'] ne assms(3) that by (simp add: frame_at_def nat_less_iff)
  show ?thesis
  proof (cases "case gif_dur c of None \<Rightarrow> True | Some d \<Rightarrow> f_add r (cts c) d > ts")
    case True
    then have "still_on r ts c" by (auto simp: still_on_def split: option.splits)
    then show ?thesis using True assms at [of c] by (auto simp: gif_frame_def)
  next
    case False
    have e: "0 < e" using assms(1) by (simp add: advances_def)
    obtain n where "(ts - cts c) / e < of_nat n" using reals_Archimedean2 by blast
    then have "(ts - cts c) / e \<le> of_nat n" by simp
    then have "ts - cts c \<le> of_nat n * e" using e by (simp add: pos_divide_le_eq)
    then obtain c' where "gif_advance r ts c = Some c'" "still_on r ts c'"
      "frames c' = frames c" "fps_times c' = fps_times c" "c' = c \<or> cts c' < ts"
      using gif_advance_returns [OF assms(1) ne] by blast
    then show ?thesis using False assms at [of c'] by (auto simp: gif_frame_def)
  qed
qed

definition gif_example :: "int materialcontext" where
  "gif_example = \<lparr>cw = 1, ch = 1, cfps = 10, findex = 0, cts = 0, tstep = 100, frames = [7, 8],
     fps_times = [Some 100, Some 50], bufindex = 0, time_opacity = 0, time_rotation = 0, ftype = FT_None,
     clock_x_ratio = 1, clock_y_ratio = 1\<rparr>"

lemma gif_frame_current_example:
  "\<exists>i c'. gif_frame (\<lambda>x. x) 120 gif_example = Some (Some i, c') \<and> still_on (\<lambda>x. x) 120 c' \<and> cts c' < 120"
proof -
  have "advances (\<lambda>x. x) 50 (durations gif_example) 120"
    by (auto simp: advances_def durations_def gif_example_def)
  from gif_frame_current [OF this] show ?thesis
    by (fastforce simp: gif_example_def)
qed

text \<open>With durations that add nothing the search never ends.\<close>

definition stuck_gif :: "rounding \<Rightarrow> rat \<Rightarrow> 'i materialcontext \<Rightarrow> bool" where
  "stuck_gif r ts c \<longleftrightarrow>
     (\<forall>x \<in> set (fps_times c). \<exists>d. x = Some d \<and> r (cts c + d) = cts c) \<and> fps_times c \<noteq> [] \<and> cts c < ts"

lemma gif_zero_durations_hang:
  fixes c :: "'a materialcontext"
  assumes "\<forall>x \<in> set (fps_times c). \<exists>d. x = Some d \<and> r (cts c + d) = cts c" "fps_times c \<noteq> []" "cts c < ts"
  shows "gif_advance r ts c = None"
proof -
  have never: "\<not> stuck_gif r ts c" if "gif_advance r ts c = Some y" for r ts and c y :: "'a materialcontext"
  proof (rule gif_advance.raw_induct [where P = "\<lambda>r ts c y. \<not> stuck_gif r ts c", OF _ that])
    fix f :: "rounding \<Rightarrow> rat \<Rightarrow> 'a materialcontext \<Rightarrow> 'a materialcontext option" and r ts c y
    assume ih: "\<And>r ts c y. f r ts c = Some y \<Longrightarrow> \<not> stuck_gif r ts c"
    assume step: "(case gif_dur c of None \<Rightarrow> Some c
      | Some d \<Rightarrow> if f_add r (cts c) d < ts
          then f r ts (c\<lparr>cts := f_add r (cts c) d, findex := findex c + 1\<rparr>) else Some c) = Some y"
    show "\<not> stuck_gif r ts c"
    proof
      assume a: "stuck_gif r ts c"
      then obtain d where "gif_dur c = Some d" "f_add r (cts c) d = cts c" "cts c < ts"
        using gif_dur_mem [of c] by (auto simp: f_add_def stuck_gif_def)
      then have "f r ts (c\<lparr>findex := findex c + 1\<rparr>) = Some y"
        using step by simp
      moreover have "stuck_gif r ts (c\<lparr>findex := findex c + 1\<rparr>)" using a by (simp add: stuck_gif_def)
      ultimately show False using ih by blast
    qed
  qed
  have "stuck_gif r ts c" using assms by (simp add: stuck_gif_def)
  with never show ?thesis by (cases "gif_advance r ts c") blast+
qed

section \<open>Video materials\<close>

definition on_grid :: "rounding \<Rightarrow> rat \<Rightarrow> rat \<Rightarrow> nat \<Rightarrow> bool" where
  "on_grid r a t n \<longleftrightarrow> (\<forall>k \<le> n. r (a + of_nat k * t) = a + of_nat k * t)"

lemma on_grid_step: "on_grid r a t (Suc n) \<Longrightarrow> f_add r a t = a + t \<and> on_grid r (a + t) t n"
  unfolding on_grid_def f_add_def
proof (intro conjI allI impI)
  assume a: "\<forall>k \<le> Suc n. r (a + of_nat k * t) = a + of_nat k * t"
  from a [rule_format, of 1] show "r (a + t) = a + t" by simp
  fix k assume "k \<le> n"
  with a [rule_format, of "Suc k"] show "r (a + t + of_nat k * t) = a + t + of_nat k * t"
    by (simp add: algebra_simps)
qed

definition always_reads :: "('r, 'b, 'i) frame_ops \<Rightarrow> material \<Rightarrow> ('r \<Rightarrow> 'r) \<Rightarrow> bool" where
  "always_reads ops m nxt \<longleftrightarrow>
     (\<forall>rd. \<exists>b ret. rd_video ops rd = ((ret, Some b), nxt rd) \<and> \<not> mat_empty ops (to_mat ops m b))"

lemma video_loop_pace:
  assumes "always_reads ops m nxt" "on_grid (rnd ops) (cts c) (tstep c) (Suc N)"
    "ts \<le> cts c + of_nat (Suc N) * tstep c" "\<forall>i. mat = Some i \<longrightarrow> \<not> mat_empty ops i"
  shows "\<exists>n mat'. video_loop ops ts m mat use_old rd c =
      Some (mat', use_old \<and> n = 0, (nxt ^^ n) rd, c\<lparr>cts := cts c + of_nat n * tstep c\<rparr>)
    \<and> ts \<le> cts c + of_nat (Suc n) * tstep c \<and> (n = 0 \<or> cts c + of_nat n * tstep c < ts)
    \<and> (n = 0 \<longrightarrow> mat' = mat) \<and> (n \<noteq> 0 \<longrightarrow> (\<exists>i. mat' = Some i)) \<and> (\<forall>i. mat' = Some i \<longrightarrow> \<not> mat_empty ops i)"
  using assms
proof (induction N arbitrary: c rd mat use_old)
  case 0
  then have "\<not> f_add (rnd ops) (cts c) (tstep c) < ts" using on_grid_step [of "rnd ops" "cts c" "tstep c" 0] by simp
  then show ?case using 0 by (intro exI [of _ 0]) (subst video_loop.simps, simp)
next
  case (Suc N)
  have g: "f_add (rnd ops) (cts c) (tstep c) = cts c + tstep c" "on_grid (rnd ops) (cts c + tstep c) (tstep c) (Suc N)"
    using on_grid_step [OF Suc.prems(2)] by auto
  show ?case
  proof (cases "cts c + tstep c < ts")
    case False
    then show ?thesis using g Suc.prems(4) by (intro exI [of _ 0]) (subst video_loop.simps, simp)
  next
    case True
    let ?c = "c\<lparr>cts := cts c + tstep c\<rparr>"
    obtain b ret where b: "rd_video ops rd = ((ret, Some b), nxt rd)" "\<not> mat_empty ops (to_mat ops m b)"
      using Suc.prems(1) unfolding always_reads_def by blast
    have "video_loop ops ts m mat use_old rd c = video_loop ops ts m (Some (to_mat ops m b)) False (nxt rd) ?c"
      by (subst video_loop.simps) (simp add: g True b)
    moreover obtain n mat' where n: "video_loop ops ts m (Some (to_mat ops m b)) False (nxt rd) ?c =
        Some (mat', False, (nxt ^^ n) (nxt rd), ?c\<lparr>cts := cts ?c + of_nat n * tstep ?c\<rparr>)"
      "ts \<le> cts ?c + of_nat (Suc n) * tstep ?c" "n = 0 \<or> cts ?c + of_nat n * tstep ?c < ts"
      "n = 0 \<longrightarrow> mat' = Some (to_mat ops m b)" "n \<noteq> 0 \<longrightarrow> (\<exists>i. mat' = Some i)" "\<forall>i. mat' = Some i \<longrightarrow> \<not> mat_empty ops i"
      using Suc.IH [of ?c "Some (to_mat ops m b)" False "nxt rd"] Suc.prems(1,3) g(2) b(2)
      by (auto simp: algebra_simps)
    ultimately show ?thesis using True
      by (intro exI [of _ "Suc n"]) (cases "n = 0"; auto simp: algebra_simps funpow_swap1)
  qed
qed

text \<open>A video material with a steady decoder is read at its own pace: a call reads exactly
  as many pictures as intervals have passed, shows the last one read (or the old one when
  none was due), and afterwards the next picture is due no earlier than the asked time.\<close>

lemma video_frame_pace:
  assumes "always_reads ops m nxt" "on_grid (rnd ops) (cts c) (tstep c) (Suc N)"
    "ts \<le> cts c + of_nat (Suc N) * tstep c" "length (frames c) = 1" "bufindex c = 1"
  shows "\<exists>n img c'. video_frame ops ts m rd c = Some (Some img, (nxt ^^ n) rd, c')
    \<and> frames c' = [img] \<and> (n = 0 \<longrightarrow> frames c' = frames c) \<and> cts c' = cts c + of_nat n * tstep c
    \<and> ts \<le> cts c' + tstep c \<and> (n = 0 \<or> cts c' < ts)"
proof -
  obtain f where f: "frames c = [f]" using assms(4) by (cases "frames c") auto
  obtain n mat' where n: "video_loop ops ts m None True rd c =
      Some (mat', n = 0, (nxt ^^ n) rd, c\<lparr>cts := cts c + of_nat n * tstep c\<rparr>)"
    "ts \<le> cts c + of_nat (Suc n) * tstep c" "n = 0 \<or> cts c + of_nat n * tstep c < ts"
    "n = 0 \<longrightarrow> mat' = None" "n \<noteq> 0 \<longrightarrow> (\<exists>i. mat' = Some i)" "\<forall>i. mat' = Some i \<longrightarrow> \<not> mat_empty ops i"
    using video_loop_pace [OF assms(1,2,3), of None True rd] by auto
  show ?thesis
  proof (cases "n = 0")
    case True
    then show ?thesis using n f assms(5)
      by (intro exI [of _ 0] exI [of _ f])
        (simp add: video_frame_def frame_at_def size_t_def)
  next
    case False
    then obtain i where "mat' = Some i" using n(5) by blast
    then show ?thesis using n f False
      by (intro exI [of _ n] exI [of _ i]) (simp add: video_frame_def set_front_def algebra_simps)
  qed
qed

definition toy_ops :: "(nat, nat, nat) frame_ops" where
  "toy_ops = \<lparr>rnd = (\<lambda>x. x), rd_video = (\<lambda>n. ((0, Some n), Suc n)), rd_dims = (\<lambda>_. (4, 2, 25)),
     to_mat = (\<lambda>_ b. b), mat_empty = (\<lambda>_. False), mat_cols = (\<lambda>_. 4), mat_rows = (\<lambda>_. 2),
     draw_text = (\<lambda>_ _ _. 0), rotate_mat = (\<lambda>_ i. i), mat_resize = (\<lambda>i _ _. i), overlay_bgra = (\<lambda>_ i _ _ _ _. i),
     strftime = (\<lambda>s _. s), local_hms = (\<lambda>_. (1, 2, 3)), time_now = 1\<rparr>"

lemma video_frame_pace_example:
  "\<exists>n img c'. video_frame toy_ops 130 material0 3
      (\<lparr>cw = 4, ch = 2, cfps = 25, findex = 0, cts = 40, tstep = 40, frames = [2], fps_times = [],
        bufindex = 1, time_opacity = 0, time_rotation = 0, ftype = FT_None,
     clock_x_ratio = 1, clock_y_ratio = 1\<rparr>) = Some (Some img, (Suc ^^ n) 3, c')
    \<and> 130 \<le> cts c' + 40"
proof -
  have a: "always_reads toy_ops material0 Suc" by (simp add: always_reads_def toy_ops_def)
  have b: "on_grid (rnd toy_ops) 40 40 (Suc 2)" by (simp add: on_grid_def toy_ops_def)
  show ?thesis
    using video_frame_pace [OF a, of "\<lparr>cw = 4, ch = 2, cfps = 25, findex = 0, cts = 40, tstep = 40, frames = [2],
      fps_times = [], bufindex = 1, time_opacity = 0, time_rotation = 0, ftype = FT_None,
     clock_x_ratio = 1, clock_y_ratio = 1\<rparr>" 2 130 3] b by fastforce
qed

section \<open>Clock and time materials\<close>

lemma clock_angles_bounds:
  assumes "0 \<le> h" "h < 24" "0 \<le> mi" "mi < 60" "0 \<le> s" "s \<le> 60"
  shows "\<forall>a \<in> set (clock_angles (h, mi, s)). 0 \<le> a \<and> a < 720"
proof -
  have "c_div mi 2 = mi div 2" "c_div s 10 = s div 10" using assms by (auto simp: c_div_def sgn_if)
  then show ?thesis using assms by (auto simp: clock_angles_def)
qed

lemma put_hand_cong:
  assumes "clock_x_ratio c' = clock_x_ratio c" "clock_y_ratio c' = clock_y_ratio c"
  shows "put_hand ops c' = put_hand ops c"
  using assms by (simp add: put_hand_def fun_eq_iff)

lemma clock_image_times [simp]:
  "clock_image ops (c\<lparr>tstep := a, cts := b\<rparr>) = clock_image ops c"
  by (simp add: clock_image_def fun_eq_iff put_hand_cong [of "c\<lparr>tstep := a, cts := b\<rparr>" c])

lemma clock_frame_first:
  assumes "length (frames c) = 4" "rnd ops (ts + 1000) = ts + 1000"
  shows "\<exists>m1. clock_frame ops ts m c =
    (Some (clock_image ops c (local_hms ops (shown_second m1 ts))), m1,
     c\<lparr>tstep := 1000, cts := ts + 1000,
       frames := frames c @ [clock_image ops c (local_hms ops (shown_second m1 ts))]\<rparr>)
   \<and> clock_starttime m1 = (if clock_starttime m = 0 then time_now ops else clock_starttime m)"
  using assms by (auto simp: clock_frame_def Let_def f_add_def frame_at_def nth_append)

text \<open>The first picture of a clock stays for two seconds, not one: when it is drawn at \<open>ts\<close>
  its time stamp is already put one interval ahead, so the clock is redrawn only by a call
  later than \<open>ts + 2000\<close>; such a call shows its own second.\<close>

lemma clock_first_picture_two_seconds:
  assumes "length (frames c) = 4" "clock_frame ops ts m c = (Some img, m1, c1)"
    "rnd ops (ts + 1000) = ts + 1000" "rnd ops (ts + 2000) = ts + 2000"
  shows "img = clock_image ops c (local_hms ops (shown_second m1 ts))
    \<and> (ts' \<le> ts + 2000 \<longrightarrow> clock_frame ops ts' m1 c1 = (Some img, m1, c1))
    \<and> (ts + 2000 < ts' \<and> clock_starttime m1 \<noteq> 0 \<longrightarrow> fst (clock_frame ops ts' m1 c1) =
         Some (clock_image ops c1 (local_hms ops (shown_second m1 ts'))))"
proof -
  define i where "i = clock_image ops c (local_hms ops (shown_second m1 ts))"
  have c1: "img = i" "c1 = c\<lparr>tstep := 1000, cts := ts + 1000, frames := frames c @ [i]\<rparr>"
    using clock_frame_first [OF assms(1,3), of m] assms(2) by (auto simp: i_def)
  have l: "length (frames c1) = 5" using c1 assms(1) by simp
  have n: "f_add (rnd ops) (cts c1) (tstep c1) = ts + 2000" using c1 assms(4) by (simp add: f_add_def add.commute)
  have a: "frame_at (frames c1) 4 = Some i" using c1 assms(1) by (simp add: frame_at_def nth_append)
  have "clock_frame ops ts' m1 c1 = (Some i, m1, c1)" if "ts' \<le> ts + 2000"
    using l that a by (simp add: clock_frame_def n not_less)
  moreover have "fst (clock_frame ops ts' m1 c1) =
      Some (clock_image ops c1 (local_hms ops (shown_second m1 ts')))"
    if "ts + 2000 < ts'" "clock_starttime m1 \<noteq> 0"
    using l that by (simp add: clock_frame_def n frame_at_def Let_def)
  ultimately show ?thesis using c1(1) by (simp add: i_def)
qed

definition clock_example :: "nat materialcontext" where
  "clock_example = \<lparr>cw = 4, ch = 2, cfps = 0, findex = 0, cts = 0, tstep = 0, frames = [1, 2, 3, 4],
     fps_times = [], bufindex = 0, time_opacity = 0, time_rotation = 0, ftype = FT_None,
     clock_x_ratio = 1, clock_y_ratio = 1\<rparr>"

lemma clock_first_picture_two_seconds_example:
  "let (img, m1, c1) = clock_frame toy_ops 0 material0 clock_example
   in clock_frame toy_ops 1999 m1 c1 = (img, m1, c1)"
proof -
  obtain img m1 c1 where c: "clock_frame toy_ops 0 material0 clock_example = (Some img, m1, c1)"
    using clock_frame_first [of clock_example toy_ops 0 material0] by (auto simp: clock_example_def toy_ops_def)
  have "clock_frame toy_ops 1999 m1 c1 = (Some img, m1, c1)"
    using clock_first_picture_two_seconds [OF _ c, of 1999] by (simp add: clock_example_def toy_ops_def)
  then show ?thesis by (simp add: c)
qed

lemma get_text_image_turned:
  assumes "mtype m = MT_Time" "time_rotation c = 90" "rotation m = 0" "opacity m = 100"
    "\<And>txt m op. mat_cols ops (draw_text ops txt m op) = rwidth (mrect m)
        \<and> mat_rows ops (draw_text ops txt m op) = rheight (mrect m)"
    "\<And>i. mat_cols ops (rotate_mat ops 90 i) = mat_rows ops i \<and> mat_rows ops (rotate_mat ops 90 i) = mat_cols ops i"
  shows "fst (get_text_image ops txt m c) = m\<lparr>opacity := 100, rotation := 0, mrect :=
      \<lparr>rx = rx (mrect m) + c_div (rwidth (mrect m) - rheight (mrect m)) 2,
       ry = ry (mrect m) + c_div (rheight (mrect m) - rwidth (mrect m)) 2,
       rwidth = rheight (mrect m), rheight = rwidth (mrect m)\<rparr>\<rparr>
    \<and> time_rotation (snd (get_text_image ops txt m c)) = 90"
proof -
  have "c_rem 0 360 = 0" "c_rem 90 360 = 90" "c_rem 90 180 = 90" "c_rem 90 90 = 0" by (simp_all add: c_rem_def c_div_def)
  with assms show ?thesis by (simp add: get_text_image_def RotateMat_def Let_def)
qed

text \<open>A time material turned by a quarter is redrawn every second into the rectangle of the
  turned picture before: width and height swap at each redraw and the position jumps, so the
  text is drawn alternately for the upright and the turned rectangle.\<close>

lemma rotated_time_rect_alternates:
  assumes "mtype m = MT_Time" "time_rotation c = 90" "rotation m = 0" "opacity m = 100"
    "\<And>txt m op. mat_cols ops (draw_text ops txt m op) = rwidth (mrect m)
        \<and> mat_rows ops (draw_text ops txt m op) = rheight (mrect m)"
    "\<And>i. mat_cols ops (rotate_mat ops 90 i) = mat_rows ops i \<and> mat_rows ops (rotate_mat ops 90 i) = mat_cols ops i"
    "get_text_image ops txt m c = (m1, c1)" "get_text_image ops txt' m1 c1 = (m2, c2)"
  shows "rwidth (mrect m1) = rheight (mrect m) \<and> rheight (mrect m1) = rwidth (mrect m)
    \<and> rx (mrect m1) = rx (mrect m) + c_div (rwidth (mrect m) - rheight (mrect m)) 2 \<and> mrect m2 = mrect m"
proof -
  have m1: "m1 = m\<lparr>opacity := 100, rotation := 0, mrect :=
      \<lparr>rx = rx (mrect m) + c_div (rwidth (mrect m) - rheight (mrect m)) 2,
       ry = ry (mrect m) + c_div (rheight (mrect m) - rwidth (mrect m)) 2,
       rwidth = rheight (mrect m), rheight = rwidth (mrect m)\<rparr>\<rparr>" "time_rotation c1 = 90"
    using assms(7) get_text_image_turned [of m c ops "txt"] assms(1,2,3,4,5,6) by simp_all
  have m2: "mrect m2 =
      \<lparr>rx = rx (mrect m1) + c_div (rwidth (mrect m1) - rheight (mrect m1)) 2,
       ry = ry (mrect m1) + c_div (rheight (mrect m1) - rwidth (mrect m1)) 2,
       rwidth = rheight (mrect m1), rheight = rwidth (mrect m1)\<rparr>"
    using assms(8) get_text_image_turned [of m1 c1 ops txt'] m1 assms(1,5,6) by simp
  have sym: "c_div (a - b) 2 + c_div (b - a) 2 = 0" for a b :: int
    by (auto simp: c_div_def abs_minus_commute sgn_if)
  have "mrect m2 = mrect m" unfolding m2 using m1 by (simp add: add.assoc sym)
  with m1 show ?thesis by simp
qed

definition rect_ops :: "(nat, nat, int \<times> int) frame_ops" where
  "rect_ops = \<lparr>rnd = (\<lambda>x. x), rd_video = (\<lambda>n. ((0, None), n)), rd_dims = (\<lambda>_. (4, 2, 25)),
     to_mat = (\<lambda>_ _. (4, 2)), mat_empty = (\<lambda>_. False), mat_cols = fst, mat_rows = snd,
     draw_text = (\<lambda>_ m _. (rwidth (mrect m), rheight (mrect m))), rotate_mat = (\<lambda>_ i. (snd i, fst i)),
     mat_resize = (\<lambda>i _ _. i), overlay_bgra = (\<lambda>_ i _ _ _ _. i), strftime = (\<lambda>s _. s), local_hms = (\<lambda>_. (1, 2, 3)), time_now = 1\<rparr>"

lemma rotated_time_rect_alternates_example:
  "let m = material0\<lparr>mtype := MT_Time, rotation := 0, opacity := 100, mrect := \<lparr>rx = 10, ry = 20, rwidth = 300, rheight = 40\<rparr>\<rparr>;
       c = \<lparr>cw = 0, ch = 0, cfps = 1, findex = 0, cts = 0, tstep = 1000, frames = [], fps_times = [],
             bufindex = 0, time_opacity = 0, time_rotation = 90, ftype = FT_None,
     clock_x_ratio = 1, clock_y_ratio = 1\<rparr>;
       (m1, c1) = get_text_image rect_ops ''a'' m c;
       (m2, c2) = get_text_image rect_ops ''b'' m1 c1
   in rwidth (mrect m1) = 40 \<and> rx (mrect m1) = 140 \<and> mrect m2 = mrect m"
proof -
  define m where "m = material0\<lparr>mtype := MT_Time, rotation := 0, opacity := 100, mrect := \<lparr>rx = 10, ry = 20, rwidth = 300, rheight = 40\<rparr>\<rparr>"
  define c :: "(int \<times> int) materialcontext" where
    "c = \<lparr>cw = 0, ch = 0, cfps = 1, findex = 0, cts = 0, tstep = 1000, frames = [], fps_times = [],
             bufindex = 0, time_opacity = 0, time_rotation = 90, ftype = FT_None,
     clock_x_ratio = 1, clock_y_ratio = 1\<rparr>"
  obtain m1 c1 where 1: "get_text_image rect_ops ''a'' m c = (m1, c1)" by fastforce
  obtain m2 c2 where 2: "get_text_image rect_ops ''b'' m1 c1 = (m2, c2)" by fastforce
  have "rwidth (mrect m1) = rheight (mrect m) \<and> rheight (mrect m1) = rwidth (mrect m)
    \<and> rx (mrect m1) = rx (mrect m) + c_div (rwidth (mrect m) - rheight (mrect m)) 2 \<and> mrect m2 = mrect m"
    by (rule rotated_time_rect_alternates [OF _ _ _ _ _ _ 1 2]) (simp_all add: m_def c_def rect_ops_def)
  then show ?thesis unfolding m_def [symmetric] c_def [symmetric] by (simp add: 1 2) (simp add: m_def c_div_def)
qed

end
