(* ===== verification/Raw_Media.thy ===== *)
theory Raw_Media
  imports DV_Prelude
begin

text \<open>
  The raw media channel: packets of a 12 byte head (version, type, length) and a body, read from
  a file or pipe and from the shared memory ring (\<^verbatim>\<open>read_rawvideo_frame\<close>,
  \<^verbatim>\<open>read_rawaudio_frame\<close> and their \<^verbatim>\<open>_shm\<close> forms in \<^verbatim>\<open>videoplayer.cpp\<close>), the raw part of
  \<^verbatim>\<open>read_video_frame\<close> and \<^verbatim>\<open>read_audio_data\<close>, and the mixing of audio (\<^verbatim>\<open>mverge_audio\<close>).
  A file is the bytes still to come and how it ends. An out of range \<^verbatim>\<open>resize\<close> throws:
  \<open>RThrow\<close>. Scaling a frame is libswscale's, a parameter.
\<close>

section \<open>Numbers in bytes\<close>

definition le32 :: "byte list \<Rightarrow> int" where
  "le32 bs = to_i32 (uint (bs ! 0) + 256 * (uint (bs ! 1) + 256 * (uint (bs ! 2) + 256 * uint (bs ! 3))))"

definition enc32 :: "int \<Rightarrow> byte list" where
  "enc32 x = [word_of_int x, word_of_int (x div 256), word_of_int (x div 256 div 256), word_of_int (x div 256 div 256 div 256)]"

lemma uint_byte_mod: "uint (word_of_int y :: byte) = y mod 256"
  by (simp add: uint_word_of_int)

lemma byte_digits:
  fixes x a b c d p q r s :: int
  assumes "x = 256 * a + p" "a = 256 * b + q" "b = 256 * c + r" "c = 256 * d + s"
  shows "x = p + 256 * (q + 256 * (r + 256 * s)) + 4294967296 * d"
  using assms by simp

lemma le32_enc32: "- (2 ^ 31) \<le> x \<Longrightarrow> x < 2 ^ 31 \<Longrightarrow> le32 (enc32 x @ r) = x"
proof -
  assume x: "- (2 ^ 31) \<le> x" "x < 2 ^ 31"
  define a where "a = x div 256"
  define b where "b = a div 256"
  define c where "c = b div 256"
  have x1: "x = 256 * a + x mod 256" "a = 256 * b + a mod 256" "b = 256 * c + b mod 256" "c = 256 * (c div 256) + c mod 256"
    by (simp_all add: a_def b_def c_def)
  have "x = x mod 256 + 256 * (a mod 256 + 256 * (b mod 256 + 256 * (c mod 256))) + 4294967296 * (c div 256)"
    by (rule byte_digits [OF x1])
  then have "x mod 256 + 256 * (a mod 256 + 256 * (b mod 256 + 256 * (c mod 256))) = x - 4294967296 * (c div 256)"
    by simp
  moreover have "to_i32 (x - 4294967296 * (c div 256)) = to_i32 x"
    unfolding to_i32_def by (simp add: mod_diff_right_eq [symmetric] algebra_simps)
  ultimately show ?thesis
    using x by (simp add: le32_def enc32_def uint_byte_mod a_def b_def c_def to_i32_id)
qed

lemma length_enc32 [simp]: "length (enc32 x) = 4"
  by (simp add: enc32_def)

definition EC_RAWMEDIA_VIDEO :: int where "EC_RAWMEDIA_VIDEO = 1"
definition EC_RAWMEDIA_AUDIO :: int where "EC_RAWMEDIA_AUDIO = 2"
definition EC_RAWMEDIA_EXT_AUDIO :: int where "EC_RAWMEDIA_EXT_AUDIO = 3"
definition SIZEOF_MSGHEAD :: int where "SIZEOF_MSGHEAD = 12"
definition SIZEOF_EXTHEAD :: int where "SIZEOF_EXTHEAD = 4"
definition MAX_AUDIO_LEN :: int where "MAX_AUDIO_LEN = 1024 * 1024"
definition AUDIO_DELTA :: int where "AUDIO_DELTA = 64"

definition MsgHead :: "byte list \<Rightarrow> int \<times> int \<times> int" where
  "MsgHead bs = (le32 bs, le32 (drop 4 bs), le32 (drop 8 bs))"

definition put_head :: "int \<Rightarrow> int \<Rightarrow> byte list" where
  "put_head ty len = enc32 1 @ enc32 ty @ enc32 len"

definition bad_head :: "int \<Rightarrow> int \<Rightarrow> bool" where
  "bad_head ver ty \<longleftrightarrow> ver \<noteq> 1 \<or> (ty \<noteq> EC_RAWMEDIA_VIDEO \<and> ty \<noteq> EC_RAWMEDIA_AUDIO \<and> ty \<noteq> EC_RAWMEDIA_EXT_AUDIO)"

section \<open>Files\<close>

record raw_file =
  f_data :: "byte list"
  f_error :: bool

datatype fread_result = FOk "byte list" | FEof | FErr

text \<open>\<^verbatim>\<open>fread (p, n, 1, f)\<close>: reading no bytes reads no item and is no end of file.\<close>

definition fread :: "raw_file \<Rightarrow> int \<Rightarrow> fread_result \<times> raw_file" where
  "fread f n =
     (if n \<le> 0 then (FErr, f)
      else if n \<le> int (length (f_data f)) then (FOk (take (nat n) (f_data f)), f\<lparr>f_data := drop (nat n) (f_data f)\<rparr>)
      else (if f_error f then FErr else FEof, f\<lparr>f_data := []\<rparr>))"

lemma fread_ok_shorter: "fread f n = (FOk bs, f') \<Longrightarrow> length (f_data f') < length (f_data f)"
  by (auto simp: fread_def split: if_splits)

lemma fread_not_longer: "fread f n = (r, f') \<Longrightarrow> length (f_data f') \<le> length (f_data f)"
  by (auto simp: fread_def split: if_splits)

section \<open>The reader\<close>

record FFReader =
  decode_video :: bool
  decode_audio :: bool
  aud_fmt :: bool
  framesize :: int
  same_format :: bool
  rd_product :: int
  audio_size :: int
  rawAudio :: "byte list"
  rawBuffer :: "byte list"
  update_time :: int

definition write_at :: "byte list \<Rightarrow> int \<Rightarrow> byte list \<Rightarrow> byte list" where
  "write_at xs off bs = take (nat off) xs @ bs @ drop (nat off + length bs) xs"

definition grow_audio :: "int \<Rightarrow> FFReader \<Rightarrow> FFReader" where
  "grow_audio len r =
     (if size_t (len + audio_size r) > int (length (rawAudio r))
      then r\<lparr>rawAudio := rawAudio r @ replicate (nat (1024 * 1024)) 0\<rparr> else r)"

definition append_audio :: "byte list \<Rightarrow> FFReader \<Rightarrow> FFReader" where
  "append_audio bs r =
     r\<lparr>rawAudio := write_at (rawAudio r) (audio_size r) bs, audio_size := audio_size r + int (length bs)\<rparr>"

definition switch_product :: "int \<Rightarrow> FFReader \<Rightarrow> FFReader" where
  "switch_product p r = (if p \<noteq> rd_product r then r\<lparr>rd_product := p, audio_size := 0\<rparr> else r)"

definition bad_audio_len :: "int \<Rightarrow> bool" where
  "bad_audio_len len \<longleftrightarrow> len \<le> 0 \<or> len > 1024 * 1024"

definition ext_product :: "int \<Rightarrow> raw_file \<Rightarrow> fread_result \<times> raw_file" where
  "ext_product ty f = (if ty = EC_RAWMEDIA_EXT_AUDIO then fread f SIZEOF_EXTHEAD else (FOk (enc32 0), f))"

lemma ext_product_not_longer: "ext_product ty f = (r, f') \<Longrightarrow> length (f_data f') \<le> length (f_data f)"
  by (auto simp: ext_product_def dest: fread_not_longer split: if_splits)

datatype head_result = HFail | HNull | HBody

text \<open>A turn of the loop of \<^verbatim>\<open>read_rawvideo_frame\<close> that buffers audio until a video head;
  \<open>None\<close> goes round again.\<close>

definition raw_head_step :: "FFReader \<Rightarrow> raw_file \<Rightarrow> head_result option \<times> FFReader \<times> raw_file" where
  "raw_head_step r f =
     (if \<not> aud_fmt r then (Some HBody, r, f)
      else case fread f SIZEOF_MSGHEAD of
        (FEof, f1) \<Rightarrow> (Some HNull, r, f1)
      | (FErr, f1) \<Rightarrow> (Some HFail, r, f1)
      | (FOk hb, f1) \<Rightarrow>
          (case MsgHead hb of (ver, ty, len) \<Rightarrow>
            if bad_head ver ty then (Some HFail, r, f1)
            else if ty = EC_RAWMEDIA_VIDEO then (Some (if len \<noteq> framesize r then HFail else HBody), r, f1)
            else case ext_product ty f1 of
              (FEof, f2) \<Rightarrow> (Some HBody, r, f2)
            | (FErr, f2) \<Rightarrow> (Some HFail, r, f2)
            | (FOk eb, f2) \<Rightarrow>
                let r1 = switch_product (le32 eb) r
                in if bad_audio_len len then (Some HFail, r1, f2)
                   else let r2 = grow_audio len r1
                        in case fread f2 len of
                             (FEof, f3) \<Rightarrow> (Some HNull, r2, f3)
                           | (FErr, f3) \<Rightarrow> (Some HFail, r2, f3)
                           | (FOk body, f3) \<Rightarrow> (None, append_audio body r2, f3)))"

lemma raw_head_step_shorter:
  "(None, r', f') = raw_head_step r f \<Longrightarrow> length (f_data f') < length (f_data f)"
  by (auto simp: raw_head_step_def Let_def split: if_splits prod.splits fread_result.splits
      dest!: fread_ok_shorter ext_product_not_longer)

function read_raw_heads :: "FFReader \<Rightarrow> raw_file \<Rightarrow> head_result \<times> FFReader \<times> raw_file" where
  "read_raw_heads r f =
     (case raw_head_step r f of
        (Some h, r1, f1) \<Rightarrow> (h, r1, f1)
      | (None, r1, f1) \<Rightarrow> read_raw_heads r1 f1)"
  by pat_completeness auto
termination
  by (relation "measure (\<lambda>(r, f). length (f_data f))") (auto dest: raw_head_step_shorter)

declare read_raw_heads.simps [simp del]

datatype frame_result = RFail | RNull | RFrame "byte list" | RThrow

definition out_frame :: "(byte list \<Rightarrow> byte list option) \<Rightarrow> FFReader \<Rightarrow> frame_result" where
  "out_frame scale r =
     (if same_format r then RFrame (rawBuffer r)
      else case scale (rawBuffer r) of None \<Rightarrow> RFail | Some d \<Rightarrow> RFrame d)"

definition read_rawvideo_frame ::
  "(byte list \<Rightarrow> byte list option) \<Rightarrow> FFReader \<Rightarrow> raw_file \<Rightarrow> frame_result \<times> FFReader \<times> raw_file" where
  "read_rawvideo_frame scale r f =
     (case read_raw_heads r f of
        (HFail, r1, f1) \<Rightarrow> (RFail, r1, f1)
      | (HNull, r1, f1) \<Rightarrow> (RNull, r1, f1)
      | (HBody, r1, f1) \<Rightarrow>
          (case fread f1 (framesize r1) of
             (FEof, f2) \<Rightarrow> (RNull, r1, f2)
           | (FErr, f2) \<Rightarrow> (RFail, r1, f2)
           | (FOk body, f2) \<Rightarrow>
               let r2 = r1\<lparr>rawBuffer := write_at (rawBuffer r1) 0 body\<rparr> in (out_frame scale r2, r2, f2)))"

text \<open>A turn of \<^verbatim>\<open>read_rawaudio_frame\<close>: video is read and discarded; \<open>HBody\<close> stands for
  the return of 0, \<open>HNull\<close> for an exception (a negative length given to \<^verbatim>\<open>resize\<close>).\<close>

definition raw_audio_step :: "int \<Rightarrow> FFReader \<Rightarrow> raw_file \<Rightarrow> head_result option \<times> FFReader \<times> raw_file" where
  "raw_audio_step max_length r f =
     (if \<not> aud_fmt r then (Some HBody, r, f)
      else case fread f SIZEOF_MSGHEAD of
        (FEof, f1) \<Rightarrow> (Some HBody, r, f1)
      | (FErr, f1) \<Rightarrow> (Some HFail, r, f1)
      | (FOk hb, f1) \<Rightarrow>
          (case MsgHead hb of (ver, ty, len) \<Rightarrow>
            if bad_head ver ty then (Some HFail, r, f1)
            else if ty = EC_RAWMEDIA_VIDEO then
              (if len < 0 then (Some HNull, r, f1)
               else let r1 = r\<lparr>rawBuffer := take (nat len) (rawBuffer r @ replicate (nat len) 0)\<rparr>
                    in case fread f1 len of
                         (FEof, f2) \<Rightarrow> (Some HBody, r1, f2)
                       | (FErr, f2) \<Rightarrow> (Some HFail, r1, f2)
                       | (FOk body, f2) \<Rightarrow> (None, r\<lparr>rawBuffer := body\<rparr>, f2))
            else case ext_product ty f1 of
              (FEof, f2) \<Rightarrow> (Some HBody, r, f2)
            | (FErr, f2) \<Rightarrow> (Some HFail, r, f2)
            | (FOk eb, f2) \<Rightarrow>
                let r1 = (if le32 eb \<noteq> rd_product r then (switch_product (le32 eb) r)\<lparr>rawBuffer := []\<rparr> else r)
                in if bad_audio_len len then (Some HFail, r1, f2)
                   else let r2 = grow_audio len r1
                        in case fread f2 len of
                             (FEof, f3) \<Rightarrow> (Some HBody, r2, f3)
                           | (FErr, f3) \<Rightarrow> (Some HFail, r2, f3)
                           | (FOk body, f3) \<Rightarrow>
                               let r3 = append_audio body r2
                               in (if audio_size r3 + AUDIO_DELTA \<ge> max_length then Some HBody else None, r3, f3)))"

lemma raw_audio_step_shorter:
  "(None, r', f') = raw_audio_step mx r f \<Longrightarrow> length (f_data f') < length (f_data f)"
  by (auto simp: raw_audio_step_def Let_def split: if_splits prod.splits fread_result.splits
      dest!: fread_ok_shorter ext_product_not_longer)

function read_rawaudio_frame :: "int \<Rightarrow> FFReader \<Rightarrow> raw_file \<Rightarrow> head_result \<times> FFReader \<times> raw_file" where
  "read_rawaudio_frame max_length r f =
     (case raw_audio_step max_length r f of
        (Some h, r1, f1) \<Rightarrow> (h, r1, f1)
      | (None, r1, f1) \<Rightarrow> read_rawaudio_frame max_length r1 f1)"
  by pat_completeness auto
termination
  by (relation "measure (\<lambda>(_, r, f). length (f_data f))") (auto dest: raw_audio_step_shorter)

declare read_rawaudio_frame.simps [simp del]

section \<open>Packets from the shared memory ring\<close>

text \<open>What a round of \<^verbatim>\<open>sq_get\<close> polling yields: a packet, an error, or nothing for a minute. The
  packet lands in a static buffer \<open>raw\<close> that keeps the rest of what it held before.\<close>

datatype shm_read = ShmPacket "byte list" | ShmError | ShmQuiet

definition land :: "byte list \<Rightarrow> byte list \<Rightarrow> byte list" where
  "land bs raw = bs @ drop (length bs) raw"

definition bytes_at :: "byte list \<Rightarrow> int \<Rightarrow> int \<Rightarrow> byte list" where
  "bytes_at raw off n = take (nat n) (drop (nat off) raw)"

definition sizes_less :: "int \<Rightarrow> int \<Rightarrow> int \<Rightarrow> bool" where
  "sizes_less n fixed len \<longleftrightarrow> size_t n < size_t (fixed + size_t len)"

text \<open>What a packet does in \<^verbatim>\<open>read_rawvideo_frame_shm\<close>, and in \<^verbatim>\<open>read_rawaudio_frame_shm\<close>.\<close>

definition shm_head_step :: "FFReader \<Rightarrow> byte list \<Rightarrow> int \<Rightarrow> head_result option \<times> FFReader" where
  "shm_head_step r raw n =
     (if \<not> aud_fmt r
      then (if n \<noteq> framesize r then (Some HFail, r)
            else (Some HBody, r\<lparr>rawBuffer := write_at (rawBuffer r) 0 (bytes_at raw 0 (framesize r))\<rparr>))
      else if n < SIZEOF_MSGHEAD then (Some HFail, r)
      else case MsgHead raw of (ver, ty, len) \<Rightarrow>
        if bad_head ver ty then (Some HFail, r)
        else if ty = EC_RAWMEDIA_VIDEO then
          (if len \<noteq> framesize r then (Some HFail, r)
           else if sizes_less n SIZEOF_MSGHEAD len then (Some HFail, r)
           else (Some HBody, r\<lparr>rawBuffer := write_at (rawBuffer r) 0 (bytes_at raw SIZEOF_MSGHEAD (framesize r))\<rparr>))
        else
          let ext = (ty = EC_RAWMEDIA_EXT_AUDIO)
          in if ext \<and> sizes_less n (SIZEOF_MSGHEAD + SIZEOF_EXTHEAD) len then (Some HFail, r)
             else let r1 = (if ext then switch_product (le32 (drop 12 raw)) r else r);
                      off = (if ext then SIZEOF_MSGHEAD + SIZEOF_EXTHEAD else SIZEOF_MSGHEAD)
                  in if bad_audio_len len then (Some HFail, r1)
                     else (None, append_audio (bytes_at raw off len) (grow_audio len r1)))"

definition shm_audio_step :: "int \<Rightarrow> FFReader \<Rightarrow> byte list \<Rightarrow> int \<Rightarrow> head_result option \<times> FFReader" where
  "shm_audio_step mx r raw n =
     (if n < SIZEOF_MSGHEAD then (Some HFail, r)
      else case MsgHead raw of (ver, ty, len) \<Rightarrow>
        if bad_head ver ty then (Some HFail, r)
        else if ty = EC_RAWMEDIA_VIDEO then (None, r)
        else
          let ext = (ty = EC_RAWMEDIA_EXT_AUDIO)
          in if ext \<and> sizes_less n (SIZEOF_MSGHEAD + SIZEOF_EXTHEAD) len then (Some HFail, r)
             else let r1 = (if ext then switch_product (le32 (drop 12 raw)) r else r);
                      off = (if ext then SIZEOF_MSGHEAD + SIZEOF_EXTHEAD else SIZEOF_MSGHEAD)
                  in if bad_audio_len len then (Some HFail, r1)
                     else let r2 = append_audio (bytes_at raw off len) (grow_audio len r1)
                          in (if audio_size r2 + AUDIO_DELTA \<ge> mx then Some HBody else None, r2))"

text \<open>The two loops over what the polling yields; a quiet minute ends in an error, as a packet of
  length 0 does.\<close>

fun shm_packets ::
  "(FFReader \<Rightarrow> byte list \<Rightarrow> int \<Rightarrow> head_result option \<times> FFReader) \<Rightarrow> FFReader \<Rightarrow> byte list \<Rightarrow> shm_read list
     \<Rightarrow> head_result \<times> FFReader \<times> byte list \<times> shm_read list" where
  "shm_packets step r raw (ShmPacket bs # ps) =
     (case step r (land bs raw) (int (length bs)) of
        (Some h, r1) \<Rightarrow> (h, r1, land bs raw, ps)
      | (None, r1) \<Rightarrow> shm_packets step r1 (land bs raw) ps)"
| "shm_packets step r raw (ShmError # ps) = (HFail, r, raw, ps)"
| "shm_packets step r raw (ShmQuiet # ps) = (HFail, r, raw, ps)"
| "shm_packets step r raw [] = (HFail, r, raw, [])"

definition read_shm_heads ::
  "FFReader \<Rightarrow> byte list \<Rightarrow> shm_read list \<Rightarrow> head_result \<times> FFReader \<times> byte list \<times> shm_read list" where
  "read_shm_heads r raw ps = shm_packets shm_head_step r raw ps"

definition read_rawaudio_frame_shm ::
  "int \<Rightarrow> FFReader \<Rightarrow> byte list \<Rightarrow> shm_read list \<Rightarrow> head_result \<times> FFReader \<times> byte list \<times> shm_read list" where
  "read_rawaudio_frame_shm mx r raw ps =
     (if \<not> aud_fmt r then (HBody, r, raw, ps) else shm_packets (shm_audio_step mx) r raw ps)"

definition read_rawvideo_frame_shm ::
  "(byte list \<Rightarrow> byte list option) \<Rightarrow> FFReader \<Rightarrow> byte list \<Rightarrow> shm_read list
     \<Rightarrow> frame_result \<times> FFReader \<times> byte list \<times> shm_read list" where
  "read_rawvideo_frame_shm scale r raw ps =
     (case read_shm_heads r raw ps of
        (HBody, r1, raw1, ps1) \<Rightarrow> (out_frame scale r1, r1, raw1, ps1)
      | (_, r1, raw1, ps1) \<Rightarrow> (RFail, r1, raw1, ps1))"

section \<open>The raw sources of a reader\<close>

text \<open>A ring source carries the static buffers of the video and of the audio reader.\<close>

datatype raw_source = SrcFile raw_file | SrcShm "byte list" "byte list" "shm_read list"

definition read_video_frame ::
  "(byte list \<Rightarrow> byte list option) \<Rightarrow> int \<Rightarrow> FFReader \<Rightarrow> raw_source \<Rightarrow> frame_result \<times> FFReader \<times> raw_source" where
  "read_video_frame scale now r src =
     (if \<not> decode_video r then (RNull, r, src)
      else let (res, r1, src1) =
             (case src of
                SrcFile f \<Rightarrow> (case read_rawvideo_frame scale r f of (res, r1, f1) \<Rightarrow> (res, r1, SrcFile f1))
              | SrcShm vraw araw ps \<Rightarrow>
                  (case read_rawvideo_frame_shm scale r vraw ps of (res, r1, vraw1, ps1) \<Rightarrow> (res, r1, SrcShm vraw1 araw ps1)))
           in (res, (case res of RFrame _ \<Rightarrow> r1\<lparr>update_time := now\<rparr> | _ \<Rightarrow> r1), src1))"

text \<open>The label \<^verbatim>\<open>_read_pcm_buffer\<close> of \<^verbatim>\<open>read_audio_data\<close>. The adjustment to the video's time
  stamps there is switched off by the assignment before it and is left out.\<close>

definition take_pcm :: "int \<Rightarrow> int \<Rightarrow> 'a FFReader_scheme \<Rightarrow> byte list option \<times> 'a FFReader_scheme" where
  "take_pcm now max_length r =
     (let n = (if max_length > audio_size r \<or> max_length = 0 then audio_size r else max_length)
      in if n < 0 then (None, r)
         else (Some (take (nat n) (rawAudio r)),
               r\<lparr>rawAudio := (if audio_size r > n
                               then write_at (rawAudio r) 0 (bytes_at (rawAudio r) n (audio_size r - n)) else rawAudio r),
                 audio_size := audio_size r - n, update_time := now\<rparr>))"

datatype audio_result = AFail | AData "byte list" | AThrow

definition pcm_result :: "byte list option \<times> 'r \<Rightarrow> audio_result \<times> 'r" where
  "pcm_result p = (case p of (None, r) \<Rightarrow> (AThrow, r) | (Some bs, r) \<Rightarrow> (AData bs, r))"

definition read_audio_data :: "int \<Rightarrow> int \<Rightarrow> FFReader \<Rightarrow> raw_source \<Rightarrow> audio_result \<times> FFReader \<times> raw_source" where
  "read_audio_data now max_length r src =
     (if \<not> decode_audio r then (AData [], r, src)
      else if audio_size r + AUDIO_DELTA \<ge> max_length
      then (case pcm_result (take_pcm now max_length r) of (a, r1) \<Rightarrow> (a, r1, src))
      else if max_length = 0 then (AData [], r, src)
      else let (h, r1, src1) =
             (case src of
                SrcFile f \<Rightarrow> (case read_rawaudio_frame max_length r f of (h, r1, f1) \<Rightarrow> (h, r1, SrcFile f1))
              | SrcShm vraw araw ps \<Rightarrow>
                  (case read_rawaudio_frame_shm max_length r araw ps of (h, r1, araw1, ps1) \<Rightarrow> (h, r1, SrcShm vraw araw1 ps1)))
           in case h of
                HFail \<Rightarrow> (AFail, r1, src1)
              | HNull \<Rightarrow> (AThrow, r1, src1)
              | HBody \<Rightarrow> (case pcm_result (take_pcm now max_length (r1\<lparr>update_time := now\<rparr>)) of (a, r2) \<Rightarrow> (a, r2, src1)))"

section \<open>Mixing\<close>

text \<open>A source is its samples and its volume; samples are 16 bits signed.\<close>

definition to_i16 :: "int \<Rightarrow> int" where "to_i16 x = (x + 2 ^ 15) mod 2 ^ 16 - 2 ^ 15"

type_synonym pcm_info = "int list \<times> int"

definition mix_sum :: "pcm_info list \<Rightarrow> nat \<Rightarrow> int" where
  "mix_sum pcms i = (\<Sum>(pcm, volum) \<leftarrow> pcms. if i < length pcm then pcm ! i * volum else 0)"

definition mverge_audio :: "pcm_info list \<Rightarrow> nat \<Rightarrow> int list" where
  "mverge_audio pcms n =
     (if pcms = [] then replicate n 0
      else if length pcms = 1 then take n (fst (hd pcms)) @ replicate (n - length (fst (hd pcms))) 0
      else let all_volum = (\<Sum>p \<leftarrow> pcms. snd p)
           in if all_volum \<le> 0 then replicate n 0
              else map (\<lambda>i. to_i16 (c_div (to_i32 (mix_sum pcms i)) all_volum)) [0..<n])"

end
