(* ===== verification/Raw_Media_Thms.thy ===== *)
theory Raw_Media_Thms
  imports Raw_Media
begin

text \<open>
  The raw media channel carries what was sent: the abstract reader holds a product number and
  the pending audio, a packet acts on it by \<open>feed\<close>, and the reading functions implement that.
  The audio buffer never overruns; mixing stays within 16 bits.
\<close>

section \<open>Abstract reader\<close>

datatype media_packet = AudioPacket "byte list" | ExtAudioPacket int "byte list"

fun packet_body :: "media_packet \<Rightarrow> byte list" where
  "packet_body (AudioPacket b) = b"
| "packet_body (ExtAudioPacket p b) = b"

fun packet_product :: "media_packet \<Rightarrow> int" where
  "packet_product (AudioPacket b) = 0"
| "packet_product (ExtAudioPacket p b) = p"

fun packet_bytes :: "media_packet \<Rightarrow> byte list" where
  "packet_bytes (AudioPacket b) = put_head EC_RAWMEDIA_AUDIO (int (length b)) @ b"
| "packet_bytes (ExtAudioPacket p b) = put_head EC_RAWMEDIA_EXT_AUDIO (int (length b)) @ enc32 p @ b"

definition packet_ok :: "media_packet \<Rightarrow> bool" where
  "packet_ok k \<longleftrightarrow> packet_body k \<noteq> [] \<and> length (packet_body k) \<le> 1024 * 1024
     \<and> - (2 ^ 31) \<le> packet_product k \<and> packet_product k < 2 ^ 31"

definition feed :: "int \<times> byte list \<Rightarrow> media_packet \<Rightarrow> int \<times> byte list" where
  "feed s k = (packet_product k, (if packet_product k = fst s then snd s else []) @ packet_body k)"

definition pending :: "FFReader \<Rightarrow> int \<times> byte list" where
  "pending r = (rd_product r, take (nat (audio_size r)) (rawAudio r))"

definition reader_ok :: "FFReader \<Rightarrow> bool" where
  "reader_ok r \<longleftrightarrow> 0 \<le> audio_size r \<and> audio_size r \<le> int (length (rawAudio r)) \<and> length (rawAudio r) < 2 ^ 62"

section \<open>Reading what was written\<close>

lemma length_put_head [simp]: "length (put_head ty len) = 12"
  by (simp add: put_head_def)

lemma MsgHead_put_head:
  "- (2 ^ 31) \<le> ty \<Longrightarrow> ty < 2 ^ 31 \<Longrightarrow> 0 \<le> len \<Longrightarrow> len < 2 ^ 31 \<Longrightarrow> MsgHead (put_head ty len @ x) = (1, ty, len)"
  using le32_enc32 [of 1] le32_enc32 [of ty] le32_enc32 [of len] by (simp add: MsgHead_def put_head_def)

lemma fread_append: "bs \<noteq> [] \<Longrightarrow> n = int (length bs) \<Longrightarrow>
    fread \<lparr>f_data = bs @ rest, f_error = e\<rparr> n = (FOk bs, \<lparr>f_data = rest, f_error = e\<rparr>)"
  by (simp add: fread_def)

lemma fread_head: "fread \<lparr>f_data = put_head ty len @ rest, f_error = e\<rparr> SIZEOF_MSGHEAD
    = (FOk (put_head ty len), \<lparr>f_data = rest, f_error = e\<rparr>)"
  by (rule fread_append) (simp_all add: SIZEOF_MSGHEAD_def put_head_def enc32_def)

lemmas ec_defs = EC_RAWMEDIA_VIDEO_def EC_RAWMEDIA_AUDIO_def EC_RAWMEDIA_EXT_AUDIO_def

lemma ec_distinct [simp]:
  "EC_RAWMEDIA_AUDIO \<noteq> EC_RAWMEDIA_VIDEO" "EC_RAWMEDIA_EXT_AUDIO \<noteq> EC_RAWMEDIA_VIDEO"
  "EC_RAWMEDIA_AUDIO \<noteq> EC_RAWMEDIA_EXT_AUDIO"
  by (simp_all add: ec_defs)

definition take_packet :: "media_packet \<Rightarrow> FFReader \<Rightarrow> FFReader" where
  "take_packet k r = append_audio (packet_body k)
     (grow_audio (int (length (packet_body k))) (switch_product (packet_product k) r))"

lemma read_raw_heads_packet:
  assumes "aud_fmt r" "packet_ok k"
  shows "read_raw_heads r \<lparr>f_data = packet_bytes k @ rest, f_error = e\<rparr>
    = read_raw_heads (take_packet k r) \<lparr>f_data = rest, f_error = e\<rparr>"
proof (cases k)
  case (AudioPacket b)
  have l: "b \<noteq> []" "int (length b) \<le> 1048576" using assms(2) AudioPacket by (auto simp: packet_ok_def)
  have h: "MsgHead (put_head EC_RAWMEDIA_AUDIO (int (length b))) = (1, EC_RAWMEDIA_AUDIO, int (length b))"
    using MsgHead_put_head [of EC_RAWMEDIA_AUDIO "int (length b)" "[]"] l by (simp add: ec_defs)
  have z: "le32 (enc32 0) = 0" using le32_enc32 [of 0 "[]"] by simp
  show ?thesis
    using l assms(1) by (subst read_raw_heads.simps)
      (simp add: raw_head_step_def AudioPacket fread_head h z bad_head_def ext_product_def bad_audio_len_def fread_append Let_def
        take_packet_def)
next
  case (ExtAudioPacket p b)
  have l: "b \<noteq> []" "int (length b) \<le> 1048576" "- (2 ^ 31) \<le> p" "p < 2 ^ 31"
    using assms(2) ExtAudioPacket by (auto simp: packet_ok_def)
  have h: "MsgHead (put_head EC_RAWMEDIA_EXT_AUDIO (int (length b))) = (1, EC_RAWMEDIA_EXT_AUDIO, int (length b))"
    using MsgHead_put_head [of EC_RAWMEDIA_EXT_AUDIO "int (length b)" "[]"] l by (simp add: ec_defs)
  have z: "le32 (enc32 p) = p" using le32_enc32 [of p "[]"] l by simp
  have e: "fread \<lparr>f_data = enc32 p @ y, f_error = e\<rparr> SIZEOF_EXTHEAD = (FOk (enc32 p), \<lparr>f_data = y, f_error = e\<rparr>)" for y
    by (rule fread_append) (simp_all add: SIZEOF_EXTHEAD_def enc32_def)
  show ?thesis
    using l assms(1) by (subst read_raw_heads.simps)
      (simp add: raw_head_step_def ExtAudioPacket fread_head h z e bad_head_def ext_product_def bad_audio_len_def fread_append Let_def
        take_packet_def)
qed

lemma append_grow_ok:
  assumes "reader_ok r" "0 < len" "len \<le> 1024 * 1024" "len = int (length bs)"
    "length (rawAudio (grow_audio len r)) < 2 ^ 62"
  shows "reader_ok (append_audio bs (grow_audio len r))"
    and "pending (append_audio bs (grow_audio len r)) = (rd_product r, snd (pending r) @ bs)"
    and "audio_size (append_audio bs (grow_audio len r)) = audio_size r + len"
proof -
  have s: "size_t (len + audio_size r) = len + audio_size r"
    using assms(1,2,3) by (intro size_t_id) (auto simp: reader_ok_def)
  have g: "audio_size (grow_audio len r) = audio_size r" "audio_size (grow_audio (int (length bs)) r) = audio_size r" "rd_product (grow_audio len r) = rd_product r"
    "take (nat (audio_size r)) (rawAudio (grow_audio len r)) = take (nat (audio_size r)) (rawAudio r)"
    using assms(1) by (auto simp: grow_audio_def reader_ok_def)
  have fit: "audio_size r + len \<le> int (length (rawAudio (grow_audio len r)))"
    using assms(1-3) s by (auto simp: grow_audio_def reader_ok_def)
  have lw: "length (write_at (rawAudio (grow_audio len r)) (audio_size r) bs) = length (rawAudio (grow_audio len r))"
    using fit assms(1,4) by (auto simp: write_at_def reader_ok_def)
  show "audio_size (append_audio bs (grow_audio len r)) = audio_size r + len"
    by (simp add: append_audio_def g assms(4))
  show "reader_ok (append_audio bs (grow_audio len r))"
    using fit assms lw unfolding assms(4) by (simp add: reader_ok_def append_audio_def g)
  show "pending (append_audio bs (grow_audio len r)) = (rd_product r, snd (pending r) @ bs)"
  proof -
    have "nat (audio_size r + int (length bs)) = nat (audio_size r) + length bs"
      using assms(1) by (simp add: reader_ok_def nat_add_distrib)
    moreover have "length (take (nat (audio_size r)) (rawAudio r)) = nat (audio_size r)"
      using assms(1) by (auto simp: reader_ok_def)
    ultimately show ?thesis by (simp add: pending_def append_audio_def g write_at_def)
  qed
qed

lemma switch_product_ok:
  "reader_ok r \<Longrightarrow> reader_ok (switch_product p r)"
  "pending (switch_product p r) = (p, if p = rd_product r then snd (pending r) else [])"
  "rawAudio (switch_product p r) = rawAudio r"
  by (auto simp: switch_product_def reader_ok_def pending_def)

lemma grow_audio_length: "length (rawAudio (grow_audio len r)) \<le> length (rawAudio r) + 1024 * 1024"
  by (simp add: grow_audio_def)

lemma take_packet_ok:
  assumes "reader_ok r" "packet_ok k" "length (rawAudio r) + 1024 * 1024 < 2 ^ 62"
  shows "reader_ok (take_packet k r) \<and> pending (take_packet k r) = feed (pending r) k"
proof -
  have b: "length (rawAudio (grow_audio (int (length (packet_body k))) (switch_product (packet_product k) r))) < 2 ^ 62"
    using grow_audio_length [of "int (length (packet_body k))" "switch_product (packet_product k) r"] assms(3)
    by (simp add: switch_product_ok(3))
  have rp: "rd_product (switch_product (packet_product k) r) = packet_product k"
    by (simp add: switch_product_def)
  let ?r = "switch_product (packet_product k) r" and ?n = "int (length (packet_body k))"
  have n: "0 < ?n" "?n \<le> 1024 * 1024" using assms(2) by (auto simp: packet_ok_def)
  note a = append_grow_ok [OF switch_product_ok(1) [OF assms(1)] n refl b]
  have "pending (append_audio (packet_body k) (grow_audio ?n ?r)) = feed (pending r) k"
    unfolding a(2) rp switch_product_ok(2) by (simp add: feed_def pending_def)
  with a(1) show ?thesis by (simp add: take_packet_def)
qed

lemma take_packet_frame:
  "aud_fmt (take_packet k r) = aud_fmt r" "framesize (take_packet k r) = framesize r"
  "rawBuffer (take_packet k r) = rawBuffer r" "same_format (take_packet k r) = same_format r"
  by (simp_all add: take_packet_def append_audio_def grow_audio_def switch_product_def)

lemma take_packet_length:
  assumes "reader_ok r" "packet_ok k"
  shows "length (rawAudio (take_packet k r)) \<le> length (rawAudio r) + 1024 * 1024"
proof -
  let ?r = "switch_product (packet_product k) r" and ?b = "packet_body k"
  have "reader_ok ?r" using switch_product_ok(1) [OF assms(1)] .
  moreover have "size_t (int (length ?b) + audio_size ?r) = int (length ?b) + audio_size ?r"
    using assms(2) \<open>reader_ok ?r\<close> by (intro size_t_id) (auto simp: reader_ok_def packet_ok_def)
  ultimately show ?thesis
    using assms(2) switch_product_ok(3) [of "packet_product k" r]
    by (auto simp: take_packet_def append_audio_def grow_audio_def write_at_def reader_ok_def packet_ok_def)
qed

lemma read_raw_heads_packets:
  assumes "aud_fmt r" "reader_ok r" "\<forall>k \<in> set ks. packet_ok k"
    "length (rawAudio r) + length ks * (1024 * 1024) < 2 ^ 62"
  shows "\<exists>r'. read_raw_heads r \<lparr>f_data = concat (map packet_bytes ks) @ rest, f_error = e\<rparr>
      = read_raw_heads r' \<lparr>f_data = rest, f_error = e\<rparr>
    \<and> reader_ok r' \<and> pending r' = foldl feed (pending r) ks \<and> aud_fmt r' \<and> framesize r' = framesize r
    \<and> rawBuffer r' = rawBuffer r \<and> same_format r' = same_format r"
  using assms
proof (induction ks arbitrary: r)
  case Nil
  then show ?case by auto
next
  case (Cons k ks)
  have k: "packet_ok k" using Cons.prems(3) by simp
  have "length (rawAudio (take_packet k r)) + length ks * (1024 * 1024) < 2 ^ 62"
    using take_packet_length [OF Cons.prems(2) k] Cons.prems(4) by simp
  moreover have "reader_ok (take_packet k r) \<and> pending (take_packet k r) = feed (pending r) k"
    using take_packet_ok [OF Cons.prems(2) k] Cons.prems(4) by simp
  ultimately show ?case
    using Cons.IH [of "take_packet k r"] read_raw_heads_packet [OF Cons.prems(1) k] Cons.prems(1,3)
    by (auto simp: take_packet_frame)
qed


definition small_reader :: FFReader where
  "small_reader = \<lparr>decode_video = True, decode_audio = True, aud_fmt = True, framesize = 2, same_format = True,
     rd_product = 0, audio_size = 0, rawAudio = [0, 0, 0, 0], rawBuffer = [0, 0], update_time = 0\<rparr>"


section \<open>The audio buffer is never overrun\<close>

text \<open>Only \<^verbatim>\<open>resize\<close> may change the length of the buffer: a write past its end would show as
  another length.\<close>

definition audio_kept :: "FFReader \<Rightarrow> FFReader \<Rightarrow> bool" where
  "audio_kept r r' \<longleftrightarrow> 0 \<le> audio_size r' \<and> audio_size r' \<le> int (length (rawAudio r'))
     \<and> (\<exists>k. length (rawAudio r') = length (rawAudio r) + k * (1024 * 1024))"

definition audio_fits :: "FFReader \<Rightarrow> bool" where
  "audio_fits r \<longleftrightarrow> 0 \<le> audio_size r \<and> audio_size r \<le> int (length (rawAudio r))"

lemma audio_kept_refl: "audio_fits r \<Longrightarrow> audio_kept r r"
  by (auto simp: audio_kept_def audio_fits_def intro: exI [of _ 0])

lemma audio_kept_fits: "audio_kept r r' \<Longrightarrow> audio_fits r'"
  by (simp add: audio_kept_def audio_fits_def)

lemma audio_kept_trans: "audio_kept r r' \<Longrightarrow> audio_kept r' r'' \<Longrightarrow> audio_kept r r''"
proof -
  assume a: "audio_kept r r'" "audio_kept r' r''"
  then obtain k k' where "length (rawAudio r') = length (rawAudio r) + k * (1024 * 1024)"
    "length (rawAudio r'') = length (rawAudio r') + k' * (1024 * 1024)" by (auto simp: audio_kept_def)
  then have "length (rawAudio r'') = length (rawAudio r) + (k + k') * (1024 * 1024)" by simp
  with a(2) show ?thesis unfolding audio_kept_def by blast
qed

lemma audio_kept_same:
  "audio_kept r r' \<Longrightarrow> audio_size r'' = audio_size r' \<Longrightarrow> length (rawAudio r'') = length (rawAudio r') \<Longrightarrow> audio_kept r r''"
  by (simp add: audio_kept_def)

lemma grow_audio_kept: "audio_fits r \<Longrightarrow> audio_kept r (grow_audio len r)"
  by (auto simp: audio_kept_def audio_fits_def grow_audio_def intro: exI [of _ 0] exI [of _ 1])

lemma switch_product_kept: "audio_fits r \<Longrightarrow> audio_kept r (switch_product p r)"
  by (auto simp: audio_kept_def audio_fits_def switch_product_def intro: exI [of _ 0])

lemma switch_product_size: "audio_fits r \<Longrightarrow> audio_size (switch_product p r) \<le> audio_size r"
  by (simp add: switch_product_def audio_fits_def)

lemma append_audio_kept:
  assumes "audio_fits r" "\<not> bad_audio_len len" "audio_size r + len < 2 ^ 31" "int (length bs) \<le> len"
  shows "audio_kept r (append_audio bs (grow_audio len r))"
    and "audio_size (append_audio bs (grow_audio len r)) = audio_size r + int (length bs)"
proof -
  let ?g = "grow_audio len r"
  have "size_t (len + audio_size r) = len + audio_size r"
    using assms by (intro size_t_id) (auto simp: audio_fits_def bad_audio_len_def)
  then have fit: "audio_size r + len \<le> int (length (rawAudio ?g))" and sz: "audio_size ?g = audio_size r"
    using assms by (auto simp: grow_audio_def audio_fits_def bad_audio_len_def)
  have l: "length (write_at (rawAudio ?g) (audio_size r) bs) = length (rawAudio ?g)"
    using fit assms by (auto simp: write_at_def audio_fits_def)
  show "audio_size (append_audio bs ?g) = audio_size r + int (length bs)"
    by (simp add: append_audio_def sz)
  obtain k where "length (rawAudio ?g) = length (rawAudio r) + k * (1024 * 1024)"
    using grow_audio_kept [OF assms(1)] by (auto simp: audio_kept_def)
  then show "audio_kept r (append_audio bs ?g)"
    using fit l assms unfolding audio_kept_def
    by (auto simp: append_audio_def sz audio_fits_def intro!: exI [of _ k])
qed

lemma fread_ok_length: "fread f n = (FOk bs, f') \<Longrightarrow> int (length bs) = n \<and> length (f_data f') + length bs = length (f_data f)"
  by (auto simp: fread_def split: if_splits)

definition audio_room :: "FFReader \<Rightarrow> raw_file \<Rightarrow> bool" where
  "audio_room r f \<longleftrightarrow> audio_fits r \<and> audio_size r + int (length (f_data f)) < 2 ^ 31"

text \<open>One audio packet of a file: the steps the two file readers share.\<close>

lemma file_packet_kept:
  assumes "audio_room r f" "fread f SIZEOF_MSGHEAD = (FOk hb, f1)" "ext_product ty f1 = (FOk eb, f2)"
    "\<not> bad_audio_len len" "audio_kept r r1" "audio_size r1 \<le> audio_size r"
    "fread f2 len = (FOk body, f3)"
  shows "audio_kept r (append_audio body (grow_audio len r1)) \<and> audio_room (append_audio body (grow_audio len r1)) f3"
proof -
  have l: "length (f_data f2) \<le> length (f_data f)" "int (length body) = len"
    "length (f_data f3) + length body = length (f_data f2)"
    using fread_not_longer [OF assms(2)] ext_product_not_longer [OF assms(3)] fread_ok_length [OF assms(7)] by auto
  have f1: "audio_fits r1" by (rule audio_kept_fits [OF assms(5)])
  have "audio_size r1 + len < 2 ^ 31" using l assms(1,6) by (simp add: audio_room_def)
  note a = append_audio_kept [OF f1 assms(4) this, of body]
  have "audio_kept r (append_audio body (grow_audio len r1))"
    using audio_kept_trans [OF assms(5) a(1)] l by simp
  then show ?thesis
    using a(2) l assms(1,6) audio_kept_fits by (auto simp: audio_room_def)
qed

lemma raw_head_step_kept:
  assumes "audio_room r f" "raw_head_step r f = (x, r', f')"
  shows "audio_kept r r' \<and> (x = None \<longrightarrow> audio_room r' f')"
proof -
  have fit: "audio_fits r" using assms(1) by (simp add: audio_room_def)
  note refl = audio_kept_refl [OF fit]
  have sw: "audio_kept r (switch_product p r)" "audio_size (switch_product p r) \<le> audio_size r" for p
    using switch_product_kept [OF fit] switch_product_size [OF fit] by auto
  have gr: "audio_kept r (grow_audio len (switch_product p r))" for len p
    using audio_kept_trans [OF sw(1) grow_audio_kept [OF audio_kept_fits [OF sw(1)]]] .
  show ?thesis
    using assms(2) refl sw(1) gr file_packet_kept [OF assms(1) _ _ _ sw]
    by (auto simp: raw_head_step_def Let_def split: if_splits prod.splits fread_result.splits)
qed

lemma read_raw_heads_kept:
  "audio_room r f \<Longrightarrow> read_raw_heads r f = (h, r', f') \<Longrightarrow> audio_kept r r'"
proof (induction r f rule: read_raw_heads.induct)
  case (1 r f)
  obtain x r1 f1 where st: "raw_head_step r f = (x, r1, f1)" by (cases "raw_head_step r f") auto
  note k = raw_head_step_kept [OF "1.prems"(1) st]
  show ?case
  proof (cases x)
    case None
    then have "audio_kept r1 r'" using 1 st k by (auto simp: read_raw_heads.simps [of r f])
    then show ?thesis using k audio_kept_trans by blast
  next
    case (Some a)
    then show ?thesis using "1.prems"(2) st k by (simp add: read_raw_heads.simps [of r f])
  qed
qed

lemma raw_audio_step_kept:
  assumes "audio_room r f" "raw_audio_step mx r f = (x, r', f')"
  shows "audio_kept r r' \<and> (x = None \<longrightarrow> audio_room r' f')"
proof -
  have fit: "audio_fits r" using assms(1) by (simp add: audio_room_def)
  note refl = audio_kept_refl [OF fit]
  define sw where "sw p = (if p \<noteq> rd_product r then (switch_product p r)\<lparr>rawBuffer := []\<rparr> else r)" for p
  have sw1: "audio_kept r (sw p)" "audio_size (sw p) \<le> audio_size r" for p
    using audio_kept_same [OF switch_product_kept [OF fit], of "sw p" p] refl switch_product_size [OF fit, of p]
    by (auto simp: sw_def)
  have gr: "audio_kept r (grow_audio len (sw p))" for len p
    using audio_kept_trans [OF sw1(1) grow_audio_kept [OF audio_kept_fits [OF sw1(1)]]] .
  have buf: "audio_kept r (r\<lparr>rawBuffer := b\<rparr>)" for b
    by (rule audio_kept_same [OF refl]) simp_all
  have room: "audio_room (r\<lparr>rawBuffer := b\<rparr>) f2"
    if "fread f SIZEOF_MSGHEAD = (FOk hb, f1)" "fread f1 len = (y, f2)" for b hb f1 len y f2
    using assms(1) fread_not_longer [OF that(1)] fread_not_longer [OF that(2)]
    by (simp add: audio_room_def audio_fits_def)
  show ?thesis
    using assms(2) refl sw1(1) gr buf room file_packet_kept [OF assms(1) _ _ _ sw1]
    by (auto simp: raw_audio_step_def sw_def [symmetric] Let_def split: if_splits prod.splits fread_result.splits)
qed

lemma read_rawaudio_frame_kept:
  "audio_room r f \<Longrightarrow> read_rawaudio_frame mx r f = (h, r', f') \<Longrightarrow> audio_kept r r'"
proof (induction mx r f rule: read_rawaudio_frame.induct)
  case (1 mx r f)
  obtain x r1 f1 where st: "raw_audio_step mx r f = (x, r1, f1)" by (cases "raw_audio_step mx r f") auto
  note k = raw_audio_step_kept [OF "1.prems"(1) st]
  show ?case
  proof (cases x)
    case None
    then have "audio_kept r1 r'" using 1 st k by (auto simp: read_rawaudio_frame.simps [of mx r f])
    then show ?thesis using k audio_kept_trans by blast
  next
    case (Some a)
    then show ?thesis using "1.prems"(2) st k by (simp add: read_rawaudio_frame.simps [of mx r f])
  qed
qed

text \<open>The same for packets of the ring: each brings at most a megabyte, whatever its length.\<close>

definition shm_kept :: "FFReader \<Rightarrow> FFReader \<Rightarrow> bool" where
  "shm_kept r r' \<longleftrightarrow> audio_kept r r' \<and> audio_size r' \<le> audio_size r + 1024 * 1024"

definition shm_room :: "FFReader \<Rightarrow> nat \<Rightarrow> bool" where
  "shm_room r n \<longleftrightarrow> audio_fits r \<and> audio_size r + int n * (1024 * 1024) < 2 ^ 31"

definition shm_step_safe :: "(FFReader \<Rightarrow> byte list \<Rightarrow> int \<Rightarrow> head_result option \<times> FFReader) \<Rightarrow> bool" where
  "shm_step_safe step \<longleftrightarrow> (\<forall>r raw n x r'. shm_room r 1 \<longrightarrow> step r raw n = (x, r') \<longrightarrow> shm_kept r r')"

lemma shm_audio_packet_kept:
  assumes "shm_room r 1" "\<not> bad_audio_len len"
  shows "shm_kept r (append_audio (bytes_at raw off len) (grow_audio len (if ext then switch_product p r else r)))"
proof -
  let ?r1 = "if ext then switch_product p r else r"
  have fit: "audio_fits r" using assms(1) by (simp add: shm_room_def)
  have k: "audio_kept r ?r1" "audio_size ?r1 \<le> audio_size r"
    using switch_product_kept [OF fit] switch_product_size [OF fit, of p] audio_kept_refl [OF fit] by auto
  have l: "0 < len" "len \<le> 1024 * 1024" "int (length (bytes_at raw off len)) \<le> len"
    using assms(2) by (auto simp: bad_audio_len_def bytes_at_def)
  have room: "audio_size ?r1 + len < 2 ^ 31" using k(2) l assms(1) by (simp add: shm_room_def)
  note a = append_audio_kept [OF audio_kept_fits [OF k(1)] assms(2) room l(3)]
  show ?thesis using audio_kept_trans [OF k(1) a(1)] a(2) k(2) l by (simp add: shm_kept_def)
qed

lemma shm_frame_kept:
  assumes "shm_room r 1"
  shows "shm_kept r r" "shm_kept r (if ext then switch_product p r else r)" "shm_kept r (r\<lparr>rawBuffer := b\<rparr>)"
proof -
  have fit: "audio_fits r" using assms by (simp add: shm_room_def)
  note k = audio_kept_refl [OF fit]
  show "shm_kept r r" using k by (simp add: shm_kept_def)
  show "shm_kept r (if ext then switch_product p r else r)"
    using k switch_product_kept [OF fit] switch_product_size [OF fit, of p] by (auto simp: shm_kept_def)
  show "shm_kept r (r\<lparr>rawBuffer := b\<rparr>)"
    using audio_kept_same [OF k, of "r\<lparr>rawBuffer := b\<rparr>"] by (simp add: shm_kept_def)
qed

lemma if_pairE: "(if b then x else y) = z \<Longrightarrow> (b \<Longrightarrow> x = z \<Longrightarrow> P) \<Longrightarrow> (\<not> b \<Longrightarrow> y = z \<Longrightarrow> P) \<Longrightarrow> P"
  by (cases b) auto

lemma pairE: "(a, b) = (x, y) \<Longrightarrow> (b = y \<Longrightarrow> P) \<Longrightarrow> P"
  by simp

lemma shm_head_step_safe: "shm_step_safe shm_head_step"
  unfolding shm_step_safe_def
proof (intro allI impI)
  fix r raw n x r'
  assume a: "shm_room r 1" and s: "shm_head_step r raw n = (x, r')"
  obtain ver ty len where m: "MsgHead raw = (ver, ty, len)" by (cases "MsgHead raw") auto
  from s show "shm_kept r r'"
    unfolding shm_head_step_def m Let_def prod.case
    by (elim if_pairE pairE)
      (use shm_frame_kept(1,3) [OF a] shm_frame_kept(2) [OF a, of True, simplified]
        shm_audio_packet_kept [OF a, where ext = "ty = EC_RAWMEDIA_EXT_AUDIO" and p = "le32 (drop 12 raw)"]
       in blast)+
qed

lemma shm_audio_step_safe: "shm_step_safe (shm_audio_step mx)"
  unfolding shm_step_safe_def
proof (intro allI impI)
  fix r raw n x r'
  assume a: "shm_room r 1" and s: "shm_audio_step mx r raw n = (x, r')"
  obtain ver ty len where m: "MsgHead raw = (ver, ty, len)" by (cases "MsgHead raw") auto
  from s show "shm_kept r r'"
    unfolding shm_audio_step_def m Let_def prod.case
    by (elim if_pairE pairE)
      (use shm_frame_kept(1,3) [OF a] shm_frame_kept(2) [OF a, of True, simplified]
        shm_audio_packet_kept [OF a, where ext = "ty = EC_RAWMEDIA_EXT_AUDIO" and p = "le32 (drop 12 raw)"]
       in blast)+
qed

lemma shm_packets_kept:
  "shm_step_safe step \<Longrightarrow> shm_room r (length ps) \<Longrightarrow> shm_packets step r raw ps = (h, r', raw', ps') \<Longrightarrow> audio_kept r r'"
proof (induction step r raw ps rule: shm_packets.induct)
  case (1 step r raw bs ps)
  obtain x r1 where st: "step r (land bs raw) (int (length bs)) = (x, r1)" by fastforce
  have "shm_room r 1" using "1.prems"(2) by (simp add: shm_room_def)
  then have k: "shm_kept r r1" using "1.prems"(1) st unfolding shm_step_safe_def by blast
  then have room: "shm_room r1 (length ps)"
    using "1.prems"(2) audio_kept_fits by (auto simp: shm_room_def shm_kept_def algebra_simps)
  show ?case
  proof (cases x)
    case None
    then have "audio_kept r1 r'" using "1.IH" [OF st [symmetric]] "1.prems" st room by simp
    then show ?thesis using k audio_kept_trans by (auto simp: shm_kept_def)
  next
    case (Some a)
    then show ?thesis using "1.prems" st k by (auto simp: shm_kept_def)
  qed
qed (auto simp: shm_room_def intro: audio_kept_refl)



section \<open>File and ring differ\<close>

text \<open>From a file a plain audio packet belongs to product 0 and drops the audio of another
  product; from the ring it joins whatever product is current.\<close>

lemma plain_audio_joins_product_in_shm:
  assumes "aud_fmt r" "b \<noteq> []" "length b \<le> 1024 * 1024"
  shows "shm_head_step r (packet_bytes (AudioPacket b)) (12 + int (length b))
    = (None, append_audio b (grow_audio (int (length b)) r))"
proof -
  have h: "MsgHead (put_head EC_RAWMEDIA_AUDIO (int (length b)) @ b) = (1, EC_RAWMEDIA_AUDIO, int (length b))"
    using MsgHead_put_head [of EC_RAWMEDIA_AUDIO "int (length b)" b] assms by (simp add: ec_defs)
  have o: "bytes_at (put_head EC_RAWMEDIA_AUDIO (int (length b)) @ b) SIZEOF_MSGHEAD (int (length b)) = b"
    by (simp add: bytes_at_def SIZEOF_MSGHEAD_def)
  show ?thesis using assms
    by (simp add: shm_head_step_def h o bad_head_def bad_audio_len_def Let_def) (simp add: SIZEOF_MSGHEAD_def)
qed

text \<open>The length of a plain audio packet is not compared with what arrived: a short packet is
  completed with bytes of earlier packets.\<close>

lemma shm_short_audio_takes_stale_bytes:
  assumes "aud_fmt r" "0 < len" "len \<le> 1024 * 1024" "int (length b) < len" "nat len \<le> length b + length old"
  shows "shm_head_step r (put_head EC_RAWMEDIA_AUDIO len @ b @ old) (12 + int (length b))
    = (None, append_audio (b @ take (nat len - length b) old) (grow_audio len r))"
proof -
  have h: "MsgHead (put_head EC_RAWMEDIA_AUDIO len @ b @ old) = (1, EC_RAWMEDIA_AUDIO, len)"
    using MsgHead_put_head [of EC_RAWMEDIA_AUDIO len "b @ old"] assms by (simp add: ec_defs)
  have o: "bytes_at (put_head EC_RAWMEDIA_AUDIO len @ b @ old) SIZEOF_MSGHEAD len = b @ take (nat len - length b) old"
    using assms(4) by (simp add: bytes_at_def SIZEOF_MSGHEAD_def)
  show ?thesis using assms
    by (simp add: shm_head_step_def h o bad_head_def bad_audio_len_def Let_def) (simp add: SIZEOF_MSGHEAD_def)
qed

section \<open>Mixing\<close>

definition source_ok :: "pcm_info \<Rightarrow> bool" where
  "source_ok p \<longleftrightarrow> (\<forall>x \<in> set (fst p). - 32768 \<le> x \<and> x \<le> 32767) \<and> 0 \<le> snd p \<and> snd p \<le> 100"

lemma mix_sum_bounds:
  "\<forall>p \<in> set pcms. source_ok p \<Longrightarrow>
     - 32768 * (\<Sum>p \<leftarrow> pcms. snd p) \<le> mix_sum pcms i \<and> mix_sum pcms i \<le> 32767 * (\<Sum>p \<leftarrow> pcms. snd p)"
proof (induction pcms)
  case (Cons p ps)
  obtain pcm v where p: "p = (pcm, v)" by (cases p)
  have "- 32768 * v \<le> (if i < length pcm then pcm ! i * v else 0) \<and> (if i < length pcm then pcm ! i * v else 0) \<le> 32767 * v"
  proof (cases "i < length pcm")
    case True
    then have "- 32768 \<le> pcm ! i" "pcm ! i \<le> 32767" "0 \<le> v" using Cons.prems p by (auto simp: source_ok_def)
    then show ?thesis using True by (simp add: mult_right_mono mult_right_mono [of "- 32768" "pcm ! i" v, simplified])
  next
    case False
    then show ?thesis using Cons.prems p by (simp add: source_ok_def)
  qed
  then show ?case using Cons p by (auto simp: mix_sum_def algebra_simps)
qed (simp add: mix_sum_def)

lemma volume_bounds:
  "\<forall>p \<in> set pcms. source_ok p \<Longrightarrow> 0 \<le> (\<Sum>p \<leftarrow> pcms. snd p) \<and> (\<Sum>p \<leftarrow> pcms. snd p) \<le> 100 * int (length pcms)"
  by (induction pcms) (auto simp: source_ok_def)

lemma c_div_bounds:
  assumes "0 < v" "- 32768 * v \<le> s" "s \<le> 32767 * v"
  shows "- 32768 \<le> c_div s v \<and> c_div s v \<le> 32767"
proof (cases "0 \<le> s")
  case True
  have "s div v \<le> 32767" using assms zdiv_mono1 [of s "32767 * v" v] by simp
  moreover have "0 \<le> s div v" using True assms(1) by (simp add: pos_imp_zdiv_nonneg_iff)
  ultimately show ?thesis using True assms(1) by (simp add: c_div_nonneg)
next
  case False
  have "(- s) div v \<le> 32768" using assms zdiv_mono1 [of "- s" "32768 * v" v] by simp
  moreover have "0 \<le> (- s) div v" using False assms(1) by (simp add: pos_imp_zdiv_nonneg_iff)
  moreover have "c_div s v = - ((- s) div v)" using False assms(1) by (simp add: c_div_def)
  ultimately show ?thesis by simp
qed

lemma to_i16_id: "- 32768 \<le> x \<Longrightarrow> x \<le> 32767 \<Longrightarrow> to_i16 x = x"
  by (simp add: to_i16_def)

text \<open>C32. Mixing two to 650 sources with volumes up to 100 gives exactly as many samples as asked
  for; each is the weighted mean, rounded towards zero, and no step of the sum or the
  conversion to 16 bits wraps.\<close>

theorem mix_is_weighted_mean:
  assumes "\<forall>p \<in> set pcms. source_ok p" "2 \<le> length pcms" "length pcms \<le> 650" "0 < (\<Sum>p \<leftarrow> pcms. snd p)"
  shows "length (mverge_audio pcms n) = n \<and> (\<forall>i < n. mverge_audio pcms n ! i = c_div (mix_sum pcms i) (\<Sum>p \<leftarrow> pcms. snd p)
    \<and> - 32768 \<le> mverge_audio pcms n ! i \<and> mverge_audio pcms n ! i \<le> 32767)"
proof -
  let ?v = "\<Sum>p \<leftarrow> pcms. snd p"
  have m: "mverge_audio pcms n = map (\<lambda>i. to_i16 (c_div (to_i32 (mix_sum pcms i)) ?v)) [0..<n]"
    using assms by (auto simp: mverge_audio_def)
  have v: "?v \<le> 65000" using volume_bounds [OF assms(1)] assms(3) by simp
  have "to_i16 (c_div (to_i32 (mix_sum pcms i)) ?v) = c_div (mix_sum pcms i) ?v
      \<and> - 32768 \<le> c_div (mix_sum pcms i) ?v \<and> c_div (mix_sum pcms i) ?v \<le> 32767" for i
  proof -
    note b = mix_sum_bounds [OF assms(1), of i]
    have "to_i32 (mix_sum pcms i) = mix_sum pcms i" using b v by (intro to_i32_id) auto
    moreover have "- 32768 \<le> c_div (mix_sum pcms i) ?v \<and> c_div (mix_sum pcms i) ?v \<le> 32767"
      using c_div_bounds [OF assms(4)] b by simp
    ultimately show ?thesis by (simp add: to_i16_id)
  qed
  then show ?thesis by (simp add: m)
qed

theorem mix_is_weighted_mean_witness:
  "mverge_audio [([100, 32767], 100), ([- 100], 50)] 2 = [33, 21844]"
proof -
  have "length (mverge_audio [([100, 32767], 100), ([- 100], 50)] 2) = 2 \<and>
    (\<forall>i < 2. mverge_audio [([100, 32767], 100), ([- 100], 50)] 2 ! i
       = c_div (mix_sum [([100, 32767], 100), ([- 100], 50)] i) (\<Sum>p \<leftarrow> [([100, 32767], 100), ([- 100], 50)]. snd p))"
    using mix_is_weighted_mean [of "[([100, 32767], 100), ([- 100], 50)]" 2] by (simp add: source_ok_def)
  then show ?thesis
    by (intro nth_equalityI) (auto simp: less_Suc_eq numeral_2_eq_2 mix_sum_def c_div_def)
qed

text \<open>A single source is copied without regard to its volume.\<close>

lemma single_source_ignores_volume: "mverge_audio [(pcm, v)] n = take n pcm @ replicate (n - length pcm) 0"
  by (simp add: mverge_audio_def)

end
