(* ===== verification/Decoder_Thread.thy ===== *)
theory Decoder_Thread
  imports Safe_Queue Raw_Media C_Double
begin

text \<open>
  The decoder threads (\<^verbatim>\<open>FFVideoDecodeThread\<close> and the functions \<^verbatim>\<open>cache_video_data\<close>,
  \<^verbatim>\<open>start_video_decoder_thread\<close>, \<^verbatim>\<open>stop_video_decoder_thread\<close>, \<^verbatim>\<open>read_thread_*\<close>,
  \<^verbatim>\<open>close_video_thread\<close> of \<^verbatim>\<open>videoplayer.cpp\<close>). A reader is opaque here: \<open>reader_ops\<close> names
  what the thread asks of it, so that ffmpeg's decoders, which the source only calls, and the raw
  readers of \<^verbatim>\<open>Raw_Media\<close> (\<open>raw_reader_ops\<close>) both fit. Loops whose number of turns the code does
  not bound run on fuel, and \<open>None\<close> means that it was used up.
\<close>

section \<open>Readers and decoders\<close>

record 'r reader_ops =
  ro_rnd :: rounding
  ro_video :: "'r \<Rightarrow> (int \<times> byte list option) \<times> 'r"
  ro_audio :: "int \<Rightarrow> 'r \<Rightarrow> (int \<times> byte list) \<times> 'r"
  ro_decode_video :: "'r \<Rightarrow> bool"
  ro_decode_audio :: "'r \<Rightarrow> bool"
  ro_buffers :: "'r \<Rightarrow> int"
  ro_audio_size :: "'r \<Rightarrow> int"
  ro_update_time :: "'r \<Rightarrow> int"
  ro_product :: "'r \<Rightarrow> int"
  ro_fps :: "'r \<Rightarrow> rat"
  ro_rate :: "'r \<Rightarrow> int"
  ro_is_stream :: "'r \<Rightarrow> bool"
  ro_open :: "'r \<Rightarrow> int \<times> 'r"
  ro_reopen :: "'r \<Rightarrow> int \<times> 'r"
  ro_close :: "'r \<Rightarrow> 'r"

datatype CacheMode = AV_TOGETHER | AV_SEPARATE | AV_STREAMING

record RawFrame =
  f_product :: int
  f_video :: "byte list"
  f_audio :: "byte list"

record decoder =
  d_stopped :: bool
  d_exit :: bool
  d_eof :: bool
  videoQueue :: "RawFrame safe_queue"
  vQueue :: "byte list safe_queue"
  aQueue :: "(int \<times> byte list) safe_queue"
  d_runner :: bool
  error_ret :: int
  cache_mode :: CacheMode
  floor_size :: int
  last_video :: "byte list"
  last_audio :: "byte list"
  last_product :: int
  last_reopen :: int
  reopen_time :: int

definition FFVideoDecodeThread :: decoder where
  "FFVideoDecodeThread = \<lparr>d_stopped = False, d_exit = False, d_eof = False, videoQueue = SafeQueue, vQueue = SafeQueue,
     aQueue = SafeQueue, d_runner = False, error_ret = 0, cache_mode = AV_TOGETHER, floor_size = 0, last_video = [],
     last_audio = [], last_product = 0, last_reopen = 0, reopen_time = 0\<rparr>"

definition clear_queues :: "decoder \<Rightarrow> decoder" where
  "clear_queues d = d\<lparr>videoQueue := Clear (videoQueue d), vQueue := Clear (vQueue d), aQueue := Clear (aQueue d)\<rparr>"

definition decoder_STOP :: "bool \<Rightarrow> decoder \<Rightarrow> decoder" where
  "decoder_STOP force d =
     (let d1 = d\<lparr>d_stopped := True\<rparr>
      in if force then (clear_queues d1)\<lparr>last_audio := [], last_video := [], last_product := 0\<rparr> else d1)"

definition decoder_INIT :: "CacheMode \<Rightarrow> int \<Rightarrow> decoder \<Rightarrow> decoder" where
  "decoder_INIT mode fl d = d\<lparr>d_exit := False, d_stopped := False, d_eof := False, cache_mode := mode, floor_size := fl,
     last_product := 0, last_reopen := 0, last_audio := [], last_video := [], reopen_time := 0\<rparr>"

definition decoder_START :: "CacheMode \<Rightarrow> int \<Rightarrow> decoder \<Rightarrow> decoder" where
  "decoder_START mode fl d = (decoder_INIT mode fl d)\<lparr>d_runner := True\<rparr>"

text \<open>\<^verbatim>\<open>EXIT\<close>; without \<open>force\<close> it joins through the thread pointer, and a null pointer there is
  \<open>None\<close>; \<open>wait_end\<close> gives the state found when the thread has ended.\<close>

definition decoder_EXIT :: "(decoder \<Rightarrow> decoder) \<Rightarrow> bool \<Rightarrow> decoder \<Rightarrow> decoder option" where
  "decoder_EXIT wait_end force d =
     (let d1 = d\<lparr>d_exit := True\<rparr>
      in if force then Some ((clear_queues d1)\<lparr>d_runner := False\<rparr>)
         else if \<not> d_runner d1 then None
         else Some ((wait_end d1)\<lparr>d_runner := False\<rparr>))"

section \<open>The decoder map\<close>

text \<open>\<^verbatim>\<open>decodermap\<close>: readers, named by \<open>'k\<close>, to their decoders; a null reader is \<open>None\<close>.\<close>

definition start_video_decoder_thread ::
  "'k option \<Rightarrow> CacheMode \<Rightarrow> int \<Rightarrow> ('k \<rightharpoonup> decoder) \<Rightarrow> int \<times> ('k \<rightharpoonup> decoder)" where
  "start_video_decoder_thread v mode fl dm =
     (case v of None \<Rightarrow> (0, dm)
      | Some k \<Rightarrow> (case dm k of
           None \<Rightarrow> (0, dm(k \<mapsto> decoder_START mode fl FFVideoDecodeThread))
         | Some d \<Rightarrow> (0, dm(k \<mapsto> decoder_START mode fl d))))"

definition stop_video_decoder_thread ::
  "'k option \<Rightarrow> CacheMode \<Rightarrow> int \<Rightarrow> ('k \<rightharpoonup> decoder) \<Rightarrow> int \<times> ('k \<rightharpoonup> decoder)" where
  "stop_video_decoder_thread v mode fl dm =
     (case v of None \<Rightarrow> (0, dm)
      | Some k \<Rightarrow> (case dm k of
           None \<Rightarrow> (0, dm(k \<mapsto> decoder_STOP True (decoder_INIT mode fl FFVideoDecodeThread)))
         | Some d \<Rightarrow> (0, dm(k \<mapsto> decoder_STOP True d))))"

definition close_video_thread ::
  "(decoder \<Rightarrow> decoder) \<Rightarrow> 'k \<Rightarrow> bool \<Rightarrow> ('k \<rightharpoonup> decoder) \<Rightarrow> (int \<times> ('k \<rightharpoonup> decoder)) option" where
  "close_video_thread wait_end k force dm =
     (case dm k of None \<Rightarrow> Some (-1, dm)
      | Some d \<Rightarrow> (case decoder_EXIT wait_end force d of
           None \<Rightarrow> None
         | Some d' \<Rightarrow> Some (0, if force then dm(k \<mapsto> d') else dm(k := None))))"

section \<open>Filling the queues\<close>

text \<open>The number of audio bytes for the next frame: the running total as a double, less what was
  received, made even.\<close>

definition wanted_bytes :: "rounding \<Rightarrow> rat \<Rightarrow> rat \<Rightarrow> int \<Rightarrow> int" where
  "wanted_bytes r apf f i = (let w = f_trunc (f_add r f apf) - i in if odd w then w + 1 else w)"

definition audio_per_frame :: "'r reader_ops \<Rightarrow> 'r \<Rightarrow> rat" where
  "audio_per_frame ops r =
     (let fps = (if ro_fps ops r < 1 then 25 else ro_fps ops r) in f_div (ro_rnd ops) (of_int (ro_rate ops r)) fps)"

type_synonym 'r cache_state = "decoder \<times> 'r \<times> rat \<times> int"

text \<open>A turn of the loop of mode \<^verbatim>\<open>AV_TOGETHER\<close>; the result is there when the function returns.\<close>

definition together_step :: "'r reader_ops \<Rightarrow> rat \<Rightarrow> int \<Rightarrow> 'r cache_state \<Rightarrow> int option \<times> 'r cache_state" where
  "together_step ops apf n st =
     (case st of (d, r, f, i) \<Rightarrow>
       if d_exit d \<or> \<not> Size (videoQueue d) < n then (Some 0, st)
       else case ro_video ops r of ((ret, buffer), r1) \<Rightarrow>
         if ret < 0 then (Some ret, (d, r1, f, i))
         else
           let v = (case buffer of None \<Rightarrow> [] | Some b \<Rightarrow> b);
               dv = ro_decode_video ops r1;
               reads = ro_decode_audio ops r1 \<and> (\<not> dv \<or> v \<noteq> []);
               w = (if dv then 0 else wanted_bytes (ro_rnd ops) apf f i);
               ((aret, a), r2) = (if reads then ro_audio ops w r1 else ((0, []), r1));
               (f', i') = (if reads \<and> \<not> dv \<and> 0 \<le> aret
                           then (f_add (ro_rnd ops) f apf, i + int (length a)) else (f, i))
           in if reads \<and> aret < 0 then (Some aret, (d, r2, f', i'))
              else
                let p = (if reads then ro_product ops r2 else 0);
                    d1 = (if v \<noteq> [] \<or> a \<noteq> []
                          then d\<lparr>videoQueue := snd (PushMove (videoQueue d) \<lparr>f_product = p, f_video = v, f_audio = a\<rparr>)\<rparr>
                          else d)
                in if (dv \<and> buffer = None) \<or> (\<not> dv \<and> a = [])
                   then (Some 0, (d1\<lparr>d_eof := True\<rparr>, r2, f', i'))
                   else (None, (d1, r2, f', i')))"

text \<open>The other modes: all buffered pictures, or one picture.\<close>

fun drain_pictures :: "nat \<Rightarrow> 'r reader_ops \<Rightarrow> decoder \<Rightarrow> 'r \<Rightarrow> (int option \<times> decoder \<times> 'r) option" where
  "drain_pictures 0 ops d r = None"
| "drain_pictures (Suc k) ops d r =
     (case ro_video ops r of ((ret, buffer), r1) \<Rightarrow>
        if ret < 0 then Some (Some ret, d, r1)
        else case buffer of
               None \<Rightarrow> Some (None, d, r1)
             | Some b \<Rightarrow>
                 let d1 = d\<lparr>vQueue := snd (PushMove (vQueue d) b)\<rparr>
                 in if 0 < ro_buffers ops r1 then drain_pictures k ops d1 r1 else Some (None, d1, r1))"

definition reset_late :: "int \<Rightarrow> decoder \<Rightarrow> decoder" where
  "reset_late now d = d\<lparr>vQueue := Clear (vQueue d), aQueue := Clear (aQueue d), reopen_time := now\<rparr>"

definition one_picture :: "'r reader_ops \<Rightarrow> int \<Rightarrow> int \<Rightarrow> decoder \<Rightarrow> 'r \<Rightarrow> int option \<times> int \<times> decoder \<times> 'r" where
  "one_picture ops now old d r =
     (case ro_video ops r of ((ret, buffer), r1) \<Rightarrow>
        if ret < 0 then (Some ret, old, d, r1)
        else
          let late = (cache_mode d = AV_STREAMING \<and> old + 1 < ro_update_time ops r1);
              d1 = (if late then reset_late now d else d);
              old1 = (if late then ro_update_time ops r1 else old)
          in case buffer of
               Some b \<Rightarrow> (None, old1, d1\<lparr>vQueue := snd (PushMove (vQueue d1) b)\<rparr>, r1)
             | None \<Rightarrow> (Some 0, old1, d1\<lparr>d_eof := True\<rparr>, r1))"

text \<open>Audio: as many whole frames as are buffered, or one.\<close>

fun audio_frames :: "nat \<Rightarrow> 'r reader_ops \<Rightarrow> rat \<Rightarrow> 'r cache_state \<Rightarrow> int option \<times> 'r cache_state" where
  "audio_frames 0 ops apf st = (None, st)"
| "audio_frames (Suc k) ops apf st =
     (case st of (d, r, f, i) \<Rightarrow>
        let w = wanted_bytes (ro_rnd ops) apf f i in
        case ro_audio ops w r of ((ret, a), r1) \<Rightarrow>
          if ret < 0 then (Some ret, (d, r1, f, i))
          else
            let d1 = (if a \<noteq> [] then d\<lparr>aQueue := snd (PushMove (aQueue d) (ro_product ops r1, a))\<rparr> else d);
                st1 = (d1, r1, f_add (ro_rnd ops) f apf, i + int (length a))
            in if int (length a) < w then (None, st1) else audio_frames k ops apf st1)"

definition one_audio :: "'r reader_ops \<Rightarrow> rat \<Rightarrow> int \<Rightarrow> int \<Rightarrow> 'r cache_state \<Rightarrow> int option \<times> 'r cache_state" where
  "one_audio ops apf now old st =
     (case st of (d, r, f, i) \<Rightarrow>
        case ro_audio ops (wanted_bytes (ro_rnd ops) apf f i) r of ((ret, a), r1) \<Rightarrow>
          if ret < 0 then (Some ret, (d, r1, f, i))
          else
            let late = (cache_mode d = AV_STREAMING \<and> old + 1 < ro_update_time ops r1);
                d1 = (if late then reset_late now d else d);
                f1 = (if late then 0 else f_add (ro_rnd ops) f apf);
                i1 = (if late then 0 else i + int (length a))
            in if a \<noteq> [] then (None, (d1\<lparr>aQueue := snd (PushMove (aQueue d1) (ro_product ops r1, a))\<rparr>, r1, f1, i1))
               else if \<not> ro_decode_video ops r1 then (Some 0, (d1\<lparr>d_eof := True\<rparr>, r1, f1, i1))
               else (None, (d1, r1, f1, i1)))"

definition split_step ::
  "nat \<Rightarrow> 'r reader_ops \<Rightarrow> rat \<Rightarrow> int \<Rightarrow> int \<Rightarrow> 'r cache_state \<Rightarrow> (int option \<times> 'r cache_state) option" where
  "split_step fuel ops apf n now st =
     (case st of (d, r, f, i) \<Rightarrow>
       if d_exit d then Some (Some 0, st)
       else
         let old = ro_update_time ops r;
             has_v = (ro_decode_video ops r \<and> Size (vQueue d) < n);
             vpart = (if \<not> has_v then Some (None, old, d, r)
                      else if 0 < ro_buffers ops r
                      then (case drain_pictures fuel ops d r of None \<Rightarrow> None | Some (x, d1, r1) \<Rightarrow> Some (x, old, d1, r1))
                      else Some (one_picture ops now old d r))
         in case vpart of
              None \<Rightarrow> None
            | Some (Some ret, old1, d1, r1) \<Rightarrow> Some (Some ret, (d1, r1, f, i))
            | Some (None, old1, d1, r1) \<Rightarrow>
                if ro_decode_audio ops r1 \<and> Size (aQueue d1) < n
                then let avail = f_trunc (f_div (ro_rnd ops) (of_int (ro_audio_size ops r1)) apf)
                     in Some (if avail \<noteq> 0 then audio_frames (nat avail) ops apf (d1, r1, f, i)
                              else one_audio ops apf now old1 (d1, r1, f, i))
                else Some (if has_v then None else Some 0, (d1, r1, f, i)))"

fun cache_loop ::
  "nat \<Rightarrow> ('r cache_state \<Rightarrow> (int option \<times> 'r cache_state) option) \<Rightarrow> 'r cache_state \<Rightarrow> (int \<times> 'r cache_state) option" where
  "cache_loop 0 step st = None"
| "cache_loop (Suc k) step st =
     (case step st of
        None \<Rightarrow> None
      | Some (Some ret, st1) \<Rightarrow> Some (ret, st1)
      | Some (None, st1) \<Rightarrow> cache_loop k step st1)"

definition cache_video_data ::
  "nat \<Rightarrow> 'r reader_ops \<Rightarrow> int \<Rightarrow> int \<Rightarrow> decoder \<Rightarrow> 'r \<Rightarrow> (int \<times> decoder \<times> 'r) option" where
  "cache_video_data fuel ops n now d r =
     (if (\<not> ro_decode_audio ops r \<and> \<not> ro_decode_video ops r) \<or> d_eof d then Some (0, d, r)
      else
        let apf = audio_per_frame ops r;
            step = (if cache_mode d = AV_TOGETHER then (\<lambda>st. Some (together_step ops apf n st))
                    else split_step fuel ops apf n now)
        in case cache_loop fuel step (d, r, 0, 0) of
             None \<Rightarrow> None
           | Some (ret, (d1, r1, _, _)) \<Rightarrow> Some (ret, d1, r1))"

section \<open>The thread\<close>

text \<open>A turn of \<^verbatim>\<open>RUN\<close> (the queue bound is 100). \<open>pause\<close> is what the other threads do to
  the decoder while it waits for the queue of a finished video to be used up. The second
  component says that the loop goes on.\<close>

definition decoder_RUN ::
  "nat \<Rightarrow> 'r reader_ops \<Rightarrow> int \<Rightarrow> (decoder \<Rightarrow> decoder) \<Rightarrow> decoder \<times> 'r \<Rightarrow> ((decoder \<times> 'r) \<times> bool) option" where
  "decoder_RUN fuel ops now pause s =
     (case s of (d, r) \<Rightarrow>
       if d_exit d then Some (s, False)
       else
         let (oret, r1) = (if d_stopped d then (0, r) else ro_open ops r)
         in if \<not> d_stopped d \<and> oret < 0 then Some ((clear_queues d\<lparr>reopen_time := now\<rparr>, r1), True)
            else if d_stopped d then Some ((clear_queues d\<lparr>reopen_time := now\<rparr>, ro_close ops r1), True)
            else case (if d_eof d then Some (0, d, r1) else cache_video_data fuel ops 100 now d r1) of
              None \<Rightarrow> None
            | Some (ret, d2, r2) \<Rightarrow>
                if ret < 0 \<and> cache_mode d2 \<noteq> AV_STREAMING then Some ((d2\<lparr>error_ret := ret\<rparr>, r2), False)
                else
                  let d3 = (if ret < 0 then d2\<lparr>d_eof := True\<rparr> else d2)
                  in if \<not> d_eof d3 then Some ((d3, r2), True)
                     else if cache_mode d3 \<noteq> AV_STREAMING then Some ((d3, r2), False)
                     else
                       let d4 = pause d3
                       in if d_exit d4 then Some ((d4, r2), False)
                          else case ro_reopen ops r2 of (rret, r3) \<Rightarrow>
                            Some ((if rret = 0 then (clear_queues d4)\<lparr>reopen_time := now, d_eof := False\<rparr> else d4, r3), True))"

section \<open>Taking frames from a decoder\<close>

text \<open>Popping with a timed wait; \<open>pause i\<close> is what the others do during the \<open>i\<close>-th second of waiting.\<close>

definition pop_wait ::
  "(decoder \<Rightarrow> 'x safe_queue) \<Rightarrow> ('x safe_queue \<Rightarrow> decoder \<Rightarrow> decoder) \<Rightarrow> int \<Rightarrow> (nat \<Rightarrow> decoder \<Rightarrow> decoder)
     \<Rightarrow> nat \<Rightarrow> decoder \<Rightarrow> 'x option \<times> decoder" where
  "pop_wait queue put_queue t pause i d =
     (let d1 = (if m_q (queue d) = [] \<and> 0 < t then pause i d else d);
          (x, q) = PopMove (\<lambda>_. queue d1) t (queue d)
      in (x, put_queue q d1))"

text \<open>The loop the three reading functions share: result code, value, decoder.\<close>

function read_loop ::
  "(nat \<Rightarrow> decoder \<Rightarrow> 'x option \<times> decoder) \<Rightarrow> int \<Rightarrow> nat \<Rightarrow> decoder \<Rightarrow> int \<times> 'x option \<times> decoder" where
  "read_loop pop timeout i d =
     (if timeout \<noteq> 0 \<and> \<not> int i < timeout then (1, None, d)
      else case pop i d of
        (Some x, d1) \<Rightarrow> (0, Some x, d1)
      | (None, d1) \<Rightarrow>
          if error_ret d1 \<noteq> 0 then (error_ret d1, None, d1)
          else if d_eof d1 then (0, None, d1)
          else if timeout = 0 then (1, None, d1)
          else if int (Suc i) + 1 \<ge> timeout then (1, None, d1)
          else read_loop pop timeout (Suc i) d1)"
  by pat_completeness auto
termination
  by (relation "measure (\<lambda>(_, timeout, i, _). nat (timeout - int i))") auto

declare read_loop.simps [simp del]

definition wait_ms :: "int \<Rightarrow> int" where "wait_ms timeout = (if timeout \<noteq> 0 then 1000 else 0)"

definition read_thread_merge_data ::
  "(nat \<Rightarrow> decoder \<Rightarrow> decoder) \<Rightarrow> int \<Rightarrow> decoder option \<Rightarrow> int \<times> RawFrame option \<times> decoder option" where
  "read_thread_merge_data pause timeout od =
     (case od of None \<Rightarrow> (-1, None, None)
      | Some d \<Rightarrow>
          if d_eof d \<and> Size (videoQueue d) = 0 then (0, None, Some d)
          else
            let d1 = (if 0 < floor_size d then d\<lparr>videoQueue := snd (Floors (videoQueue d) (floor_size d))\<rparr> else d)
            in case read_loop (pop_wait videoQueue (\<lambda>q d. d\<lparr>videoQueue := q\<rparr>) (wait_ms timeout) pause) timeout 0 d1 of
                 (ret, x, d2) \<Rightarrow> (ret, x, Some d2))"

definition read_thread_separate_video_frame ::
  "(nat \<Rightarrow> decoder \<Rightarrow> decoder) \<Rightarrow> int \<Rightarrow> decoder option \<Rightarrow> int \<times> byte list option \<times> decoder option" where
  "read_thread_separate_video_frame pause timeout od =
     (case od of None \<Rightarrow> (-1, None, None)
      | Some d \<Rightarrow>
          if d_eof d \<and> Size (vQueue d) = 0 then (0, None, Some d)
          else case read_loop (pop_wait vQueue (\<lambda>q d. d\<lparr>vQueue := q\<rparr>) (wait_ms timeout) pause) timeout 0 d of
                 (ret, x, d2) \<Rightarrow> (ret, x, Some d2))"

definition read_thread_separate_audio_frame ::
  "(nat \<Rightarrow> decoder \<Rightarrow> decoder) \<Rightarrow> int \<Rightarrow> decoder option \<Rightarrow> int \<times> (int \<times> byte list) option \<times> decoder option" where
  "read_thread_separate_audio_frame pause timeout od =
     (case od of None \<Rightarrow> (-1, None, None)
      | Some d \<Rightarrow>
          if d_eof d \<and> Size (aQueue d) = 0 then (0, None, Some d)
          else case read_loop (pop_wait aQueue (\<lambda>q d. d\<lparr>aQueue := q\<rparr>) (wait_ms timeout) pause) timeout 0 d of
                 (ret, x, d2) \<Rightarrow> (ret, x, Some d2))"

section \<open>Streaming reads\<close>

text \<open>The sizes are compared as \<^verbatim>\<open>size_t\<close>, so a negative request is a huge one.\<close>

function gather_audio :: "int \<Rightarrow> decoder \<Rightarrow> int \<times> decoder" where
  "gather_audio mx d =
     (if size_t mx > int (length (last_audio d)) + AUDIO_DELTA
      then case PopMove (\<lambda>q. q) 0 (aQueue d) of
             (Some (p, a), q) \<Rightarrow> gather_audio mx (d\<lparr>aQueue := q, last_audio := last_audio d @ a\<rparr>)
           | (None, q) \<Rightarrow> (int (length (last_audio d)), d\<lparr>aQueue := q\<rparr>)
      else (mx, d))"
  by pat_completeness auto
termination
  by (relation "measure (\<lambda>(_, d). length (m_q (aQueue d)))")
    (auto simp: PopMove_def Let_def split: if_splits list.splits)

declare gather_audio.simps [simp del]

definition read_thread_stream_audio_frame ::
  "bool \<Rightarrow> int \<Rightarrow> decoder option \<Rightarrow> int \<times> (byte list \<times> int) option \<times> decoder option" where
  "read_thread_stream_audio_frame has_audio mx od =
     (case od of None \<Rightarrow> (-1, None, None)
      | Some d \<Rightarrow>
          if \<not> has_audio then (0, Some ([], 0), Some d)
          else
            let d1 = (if last_reopen d \<noteq> reopen_time d then d\<lparr>last_audio := [], last_reopen := reopen_time d\<rparr> else d);
                (m1, d2) = gather_audio mx d1;
                m2 = (if size_t m1 > int (length (last_audio d2)) then int (length (last_audio d2)) else m1)
            in (0, Some (take (nat m2) (last_audio d2), last_product d2),
                Some (d2\<lparr>last_audio := drop (nat m2) (last_audio d2)\<rparr>)))"

text \<open>\<^verbatim>\<open>read_thread_stream_video_frame\<close>. When too many pictures wait, some are dropped with the
  audio of the same time; \<open>None\<close> is \<^verbatim>\<open>Discard\<close> on fewer pictures than it is told to drop.\<close>

definition discard_late :: "'r reader_ops \<Rightarrow> 'r \<Rightarrow> decoder \<Rightarrow> decoder option" where
  "discard_late ops r d =
     (if \<not> (0 < floor_size d \<and> Size (vQueue d) \<ge> floor_size d) then Some d
      else if ro_decode_audio ops r then
        (let rn = ro_rnd ops;
             fps = (if ro_fps ops r < 1 then 25 else ro_fps ops r);
             may = Size (vQueue d) - c_div (floor_size d) 2;
             bpf = f_div rn (of_int (ro_rate ops r)) fps;
             may_audio = f_trunc (f_mul rn bpf (of_int may))
         in case read_thread_stream_audio_frame True may_audio (Some d) of
              (ret, Some (audio, _), Some d1) \<Rightarrow>
                (let n = f_trunc (f_add rn (f_div rn (of_int (int (length audio))) bpf) (1 / 2))
                 in case Discard (vQueue d1) n of None \<Rightarrow> None | Some (_, q) \<Rightarrow> Some (d1\<lparr>vQueue := q\<rparr>))
            | _ \<Rightarrow> Some d)
      else Some (d\<lparr>vQueue := snd (Floors (vQueue d) (c_div (floor_size d) 2))\<rparr>))"

text \<open>Empty pictures are skipped; with nothing queued the last picture is shown again.\<close>

fun take_picture :: "byte list list \<Rightarrow> byte list option \<times> byte list list" where
  "take_picture [] = (None, [])"
| "take_picture (v # vs) = (if v = [] then take_picture vs else (Some v, vs))"

definition read_thread_stream_video_frame ::
  "'r reader_ops \<Rightarrow> 'r \<Rightarrow> decoder option \<Rightarrow> (int \<times> byte list option \<times> decoder option) option" where
  "read_thread_stream_video_frame ops r od =
     (case od of None \<Rightarrow> Some (-1, None, None)
      | Some d \<Rightarrow> (case discard_late ops r d of
           None \<Rightarrow> None
         | Some d1 \<Rightarrow>
             let (v, vs) = (if m_abort (vQueue d1) then (None, m_q (vQueue d1)) else take_picture (m_q (vQueue d1)));
                 d2 = d1\<lparr>vQueue := (vQueue d1)\<lparr>m_q := vs\<rparr>\<rparr>
             in case v of
                  Some b \<Rightarrow> Some (0, Some b, Some (d2\<lparr>last_video := b\<rparr>))
                | None \<Rightarrow>
                    if error_ret d2 \<noteq> 0 then Some (error_ret d2, None, Some d2)
                    else if last_video d2 = [] then Some (0, None, Some d2)
                    else Some (0, Some (last_video d2), Some d2)))"

section \<open>Raw readers\<close>

text \<open>The raw reader with its source as a reader of a decoder thread; opening and closing have
  nothing to do for an open raw reader.\<close>

definition raw_reader_ops :: "rounding \<Rightarrow> (byte list \<Rightarrow> byte list option) \<Rightarrow> rat \<Rightarrow> int \<Rightarrow> int
    \<Rightarrow> (FFReader \<times> raw_source) reader_ops" where
  "raw_reader_ops rn scale fps rate now =
     \<lparr>ro_rnd = rn,
      ro_video = (\<lambda>(r, s). case read_video_frame scale now r s of (res, r1, s1) \<Rightarrow>
         ((case res of RFail \<Rightarrow> (-1, None) | RThrow \<Rightarrow> (-1, None) | RNull \<Rightarrow> (0, None) | RFrame b \<Rightarrow> (0, Some b)), (r1, s1))),
      ro_audio = (\<lambda>mx (r, s). case read_audio_data now mx r s of (res, r1, s1) \<Rightarrow>
         ((case res of AFail \<Rightarrow> (-1, []) | AThrow \<Rightarrow> (-1, []) | AData b \<Rightarrow> (0, b)), (r1, s1))),
      ro_decode_video = (\<lambda>(r, s). decode_video r), ro_decode_audio = (\<lambda>(r, s). decode_audio r),
      ro_buffers = (\<lambda>_. 0), ro_audio_size = (\<lambda>(r, s). audio_size r), ro_update_time = (\<lambda>(r, s). update_time r),
      ro_product = (\<lambda>(r, s). rd_product r), ro_fps = (\<lambda>_. fps), ro_rate = (\<lambda>_. rate), ro_is_stream = (\<lambda>_. False),
      ro_open = (\<lambda>s. (0, s)), ro_reopen = (\<lambda>s. (0, s)), ro_close = (\<lambda>s. s)\<rparr>"

end
