(* ===== verification/Decoder_Thread_Thms.thy ===== *)
theory Decoder_Thread_Thms
  imports Decoder_Thread
begin

text \<open>
  The decoder threads: the audio handed over per frame follows the exact total, the queue of
  frames stays within its bound and filling it ends, a reading thread gives up one second
  early, and a decoder whose thread has ended is not started again.
\<close>

section \<open>Audio per frame\<close>

definition even_up :: "int \<Rightarrow> int" where "even_up x = (if odd x then x + 1 else x)"

lemma even_even_up [simp]: "even (even_up x)"
  by (simp add: even_up_def)

lemma wanted_bytes_even:
  "even i \<Longrightarrow> i + wanted_bytes r apf f i = even_up (f_trunc (f_add r f apf))"
  by (auto simp: wanted_bytes_def even_up_def Let_def)

lemma even_up_mono: "a \<le> b \<Longrightarrow> even_up a \<le> even_up b"
proof -
  assume "a \<le> b"
  show ?thesis
  proof (cases "a = b")
    case False
    with \<open>a \<le> b\<close> show ?thesis by (auto simp: even_up_def)
  qed simp
qed

definition grid :: "rounding \<Rightarrow> rat \<Rightarrow> nat \<Rightarrow> bool" where
  "grid r apf n \<longleftrightarrow> (\<forall>k \<le> n. r (of_nat k * apf) = of_nat k * apf)"

definition gives_wanted :: "'r reader_ops \<Rightarrow> bool" where
  "gives_wanted ops \<longleftrightarrow> (\<forall>w r. 0 \<le> w \<longrightarrow> (\<exists>a r'. ro_audio ops w r = ((0, a), r') \<and> int (length a) = w))"

lemma f_trunc_mono_grid: "0 \<le> apf \<Longrightarrow> f_trunc (of_nat k * apf) \<le> f_trunc (of_nat (Suc k) * apf)"
proof -
  assume a: "0 \<le> apf"
  then have "0 \<le> of_nat k * apf" "0 \<le> of_nat (Suc k) * apf" "of_nat k * apf \<le> of_nat (Suc k) * apf"
    by (auto intro: mult_right_mono)
  moreover from this(3) have "\<lfloor>of_nat k * apf\<rfloor> \<le> \<lfloor>of_nat (Suc k) * apf\<rfloor>" by (rule floor_mono)
  ultimately show ?thesis unfolding f_trunc_def by (simp only: not_less [symmetric] if_False not_False_eq_True)
qed

lemma audio_frames_from:
  assumes "grid (ro_rnd ops) apf (k + n)" "gives_wanted ops" "0 \<le> apf"
  shows "\<exists>d' r'. audio_frames n ops apf (d, r, of_nat k * apf, even_up (f_trunc (of_nat k * apf)))
    = (None, (d', r', of_nat (k + n) * apf, even_up (f_trunc (of_nat (k + n) * apf))))"
  using assms
proof (induction n arbitrary: k d r)
  case 0
  then show ?case by simp
next
  case (Suc n)
  let ?i = "even_up (f_trunc (of_nat k * apf))" and ?f = "of_nat k * apf"
  let ?w = "wanted_bytes (ro_rnd ops) apf ?f ?i"
  have g: "f_add (ro_rnd ops) ?f apf = of_nat (Suc k) * apf"
    using Suc.prems(1) [unfolded grid_def, rule_format, of "Suc k"] by (simp add: f_add_def distrib_right add.commute)
  have w: "?i + ?w = even_up (f_trunc (of_nat (Suc k) * apf))"
    using wanted_bytes_even [of ?i "ro_rnd ops" apf ?f] by (simp add: g)
  have "0 \<le> ?w" using w even_up_mono [OF f_trunc_mono_grid [OF Suc.prems(3), of k]] by linarith
  then obtain a r1 where a: "ro_audio ops ?w r = ((0, a), r1)" "int (length a) = ?w"
    using Suc.prems(2) unfolding gives_wanted_def by blast
  have "grid (ro_rnd ops) apf (Suc k + n)" using Suc.prems(1) by simp
  note ih = Suc.IH [OF this Suc.prems(2,3)]
  have "audio_frames (Suc n) ops apf (d, r, ?f, ?i)
    = audio_frames n ops apf ((if a \<noteq> [] then d\<lparr>aQueue := snd (PushMove (aQueue d) (ro_product ops r1, a))\<rparr> else d),
        r1, of_nat (Suc k) * apf, even_up (f_trunc (of_nat (Suc k) * apf)))"
    using a w by (simp add: g Let_def)
  with ih show ?case by simp
qed


definition silent_ops :: "rat \<Rightarrow> unit reader_ops" where
  "silent_ops fps = \<lparr>ro_rnd = (\<lambda>x. x), ro_video = (\<lambda>r. ((0, Some [1]), r)), ro_audio = (\<lambda>w r. ((0, replicate (nat w) 0), r)),
     ro_decode_video = (\<lambda>_. True), ro_decode_audio = (\<lambda>_. True), ro_buffers = (\<lambda>_. 0), ro_audio_size = (\<lambda>_. 0),
     ro_update_time = (\<lambda>_. 0), ro_product = (\<lambda>_. 0), ro_fps = (\<lambda>_. fps), ro_rate = (\<lambda>_. 32000), ro_is_stream = (\<lambda>_. False),
     ro_open = (\<lambda>r. (0, r)), ro_reopen = (\<lambda>r. (0, r)), ro_close = (\<lambda>r. r)\<rparr>"


section \<open>Filling the queue of frames\<close>

lemma Size_small: "length (m_q q) < 2 ^ 31 \<Longrightarrow> Size q = int (length (m_q q))"
  by (simp add: Size_def to_i32_id)

lemma together_step_queue:
  assumes "together_step ops apf n (d, r, f, i) = (x, (d', r', f', i'))" "int (length (m_q (videoQueue d))) \<le> n" "n < 2 ^ 31"
  shows "int (length (m_q (videoQueue d'))) \<le> n \<and> d_exit d' = d_exit d \<and> cache_mode d' = cache_mode d
    \<and> (x \<noteq> None \<or> m_abort (videoQueue d) \<or> (\<exists>v. videoQueue d' = videoQueue d \<or> m_q (videoQueue d') = m_q (videoQueue d) @ [v]))"
  using assms Size_small [of "videoQueue d"]
  by (auto simp: together_step_def Let_def PushMove_def split: if_splits prod.splits option.splits)

definition full_reads :: "'r reader_ops \<Rightarrow> bool" where
  "full_reads ops \<longleftrightarrow> (\<forall>r. ro_decode_video ops r \<and> (\<forall>b. snd (fst (ro_video ops r)) = Some b \<longrightarrow> b \<noteq> []))"

lemma together_step_progress:
  assumes "together_step ops apf n (d, r, f, i) = (None, (d', r', f', i'))" "full_reads ops" "\<not> m_abort (videoQueue d)"
  shows "length (m_q (videoQueue d')) = Suc (length (m_q (videoQueue d))) \<and> \<not> m_abort (videoQueue d')"
proof -
  obtain ret buf r1 where v: "ro_video ops r = ((ret, buf), r1)" by (metis prod.exhaust)
  have "\<forall>b. buf = Some b \<longrightarrow> b \<noteq> []" using assms(2) v unfolding full_reads_def by (metis fst_conv snd_conv)
  moreover have "ro_decode_video ops r1" using assms(2) by (simp add: full_reads_def)
  ultimately show ?thesis
    using assms(1,3) v by (auto simp: together_step_def Let_def PushMove_def split: if_splits prod.splits option.splits)
qed

lemma together_loop_returns:
  assumes "full_reads ops" "\<not> m_abort (videoQueue d)" "int (length (m_q (videoQueue d))) \<le> n" "n < 2 ^ 31"
    "n - int (length (m_q (videoQueue d))) < int k"
  shows "\<exists>ret d' r' f' i'. cache_loop k (\<lambda>st. Some (together_step ops apf n st)) (d, r, f, i) = Some (ret, (d', r', f', i'))
    \<and> int (length (m_q (videoQueue d'))) \<le> n"
  using assms
proof (induction k arbitrary: d r f i)
  case 0
  then show ?case by simp
next
  case (Suc k)
  obtain x d' r' f' i' where s: "together_step ops apf n (d, r, f, i) = (x, (d', r', f', i'))"
    by (metis prod.exhaust)
  have q: "int (length (m_q (videoQueue d'))) \<le> n" using together_step_queue [OF s Suc.prems(3,4)] by blast
  show ?case
  proof (cases x)
    case None
    note p = together_step_progress [OF s [unfolded None] Suc.prems(1,2)]
    have "n - int (length (m_q (videoQueue d'))) < int k" using p Suc.prems(5) by simp
    from Suc.IH [OF Suc.prems(1) conjunct2 [OF p] q Suc.prems(4) this] show ?thesis
      using s None by simp
  next
    case (Some a)
    then show ?thesis using s q by simp
  qed
qed



section \<open>Waiting\<close>

lemma read_loop_silent:
  assumes "\<And>j. i \<le> j \<Longrightarrow> int j + 1 < timeout \<Longrightarrow> pop j d = (None, d)" "error_ret d = 0" "\<not> d_eof d"
    "0 < timeout" "int i + 1 < timeout"
  shows "read_loop pop timeout i d = (1, None, d)"
  using assms
proof (induction "nat (timeout - int i)" arbitrary: i rule: less_induct)
  case less
  have p: "pop i d = (None, d)" using less.prems(1) [of i] less.prems(5) by simp
  show ?case
  proof (cases "int (Suc i) + 1 \<ge> timeout")
    case True
    then show ?thesis using p less.prems by (subst read_loop.simps) simp
  next
    case False
    then have "read_loop pop timeout (Suc i) d = (1, None, d)"
      using less.hyps [of "Suc i"] less.prems by simp
    then show ?thesis using p less.prems False by (subst read_loop.simps) simp
  qed
qed

text \<open>A reader that asks for \<open>timeout\<close> seconds (two or more) waits one second less: if
  nothing happens during the first \<open>timeout - 1\<close> seconds the answer is a time-out, whatever
  would have arrived in the last one.\<close>

lemma merge_read_gives_up_early:
  assumes "2 \<le> timeout" "\<And>j. int j + 1 < timeout \<Longrightarrow> pause j d = d" "m_q (videoQueue d) = []"
    "error_ret d = 0" "\<not> d_eof d" "floor_size d \<le> 0"
  shows "read_thread_merge_data pause timeout (Some d) = (1, None, Some d)"
proof -
  have "pop_wait videoQueue (\<lambda>q d. d\<lparr>videoQueue := q\<rparr>) 1000 pause j d = (None, d)" if "int j + 1 < timeout" for j
    using assms(2) [OF that] assms(3) by (auto simp: pop_wait_def PopMove_def Let_def)
  then have "read_loop (pop_wait videoQueue (\<lambda>q d. d\<lparr>videoQueue := q\<rparr>) 1000 pause) timeout 0 d = (1, None, d)"
    using assms by (intro read_loop_silent) auto
  then show ?thesis using assms by (simp add: read_thread_merge_data_def wait_ms_def Let_def)
qed

definition late_pause :: "nat \<Rightarrow> decoder \<Rightarrow> decoder" where
  "late_pause j d = (if j < 2 then d
     else d\<lparr>videoQueue := snd (PushMove (videoQueue d) \<lparr>f_product = 0, f_video = [1], f_audio = []\<rparr>)\<rparr>)"

lemma merge_read_gives_up_early_example:
  "read_thread_merge_data late_pause 3 (Some FFVideoDecodeThread) = (1, None, Some FFVideoDecodeThread)"
  by (rule merge_read_gives_up_early) (auto simp: late_pause_def FFVideoDecodeThread_def SafeQueue_def)

section \<open>Starting and closing\<close>

text \<open>A decoder that was only stopped has no thread: closing it without force joins through a
  null pointer.\<close>

lemma close_of_never_started_crashes:
  assumes "dm k = None"
  shows "close_video_thread wait_end k False (snd (stop_video_decoder_thread (Some k) mode fl dm)) = None"
  using assms by (simp add: stop_video_decoder_thread_def close_video_thread_def decoder_EXIT_def decoder_STOP_def
      decoder_INIT_def FFVideoDecodeThread_def clear_queues_def Let_def)

text \<open>A stop empties every queue and forgets the last picture; a start resets the flags.\<close>

lemma stop_then_start:
  "\<exists>d'. snd (start_video_decoder_thread (Some k) mode fl (snd (stop_video_decoder_thread (Some k) mode0 fl0 dm))) k = Some d'
    \<and> m_q (videoQueue d') = [] \<and> m_q (vQueue d') = [] \<and> m_q (aQueue d') = [] \<and> last_video d' = [] \<and> \<not> d_stopped d'
    \<and> d_runner d' \<and> cache_mode d' = mode"
  by (cases "dm k") (auto simp: stop_video_decoder_thread_def start_video_decoder_thread_def decoder_START_def decoder_STOP_def
      decoder_INIT_def clear_queues_def FFVideoDecodeThread_def SafeQueue_def Clear_def Let_def)

end
