(* ===== verification/Frame_Loop.thy ===== *)
theory Frame_Loop
  imports Main_Commands Decoder_Thread
begin

text \<open>
  The frame loop in \<^verbatim>\<open>main\<close> (\<^verbatim>\<open>decorateVideo.cpp\<close>): the static materials drawn once
  before it, and a turn: the commands, reading the main picture and audio with time-outs and
  retries, switching the product, choosing the materials to draw, feeding the substream at its own
  frame rate, mixing and sending the audio of the frame, and the end of the stream. The decoder
  threads, the material readers and OpenCV are reached through \<open>loop_ops\<close> on a state
  \<open>'w\<close> of their own; a picture that OpenCV leaves empty is \<open>None\<close>. Drawing itself, the
  window, the real-time pacing (\<^verbatim>\<open>sleep_for\<close>) and messages are left out; the list of drawn
  materials stands for the drawing. A material without a reader counts as one whose audio read fails.
\<close>

section \<open>Configuration, state and the parts outside\<close>

record loop_cfg =
  main_video :: bool
  main_audio :: bool
  raw_audio :: bool
  out_fps :: int
  reader_fps :: rat
  has_stream_io :: bool
  shm_main :: bool
  read_timeout :: int
  audio_rate :: int
  mv_volume :: int
  ma_volume :: int
  reader_decodes_audio :: bool
  total_frames :: int

record ('w, 'i) loop_ops =
  lo_rnd :: rounding
  lo_merge :: "int \<Rightarrow> 'w \<Rightarrow> (int \<times> (byte list \<times> byte list \<times> int) option) \<times> 'w"
  lo_separate :: "int \<Rightarrow> 'w \<Rightarrow> (int \<times> (byte list \<times> int) option) \<times> 'w"
  lo_read_audio :: "int \<Rightarrow> 'w \<Rightarrow> (int \<times> byte list) \<times> 'w"
  lo_material_audio :: "nat \<Rightarrow> int \<Rightarrow> 'w \<Rightarrow> (int \<times> byte list) \<times> 'w"
  lo_picture :: "byte list \<Rightarrow> 'i option"

record 'i loop_state =
  l_num :: int
  l_ts :: rat
  l_timeouts :: int
  l_first_ready :: bool
  l_sent :: int
  l_frames :: "'i option list"
  l_cts :: rat
  l_tstep :: rat

section \<open>The audio of a frame\<close>

text \<open>\<^verbatim>\<open>audio_per_frame * (num+1) - sent_audio_bytes\<close> as an \<^verbatim>\<open>int\<close>, made even; the conversion of a
  double outside the range of \<^verbatim>\<open>int\<close> is undefined: \<open>None\<close>.\<close>

definition double_to_int :: "rat \<Rightarrow> int option" where
  "double_to_int x = (let i = f_trunc x in if - (2 ^ 31) \<le> i \<and> i < 2 ^ 31 then Some i else None)"

definition frame_audio_bytes :: "rounding \<Rightarrow> rat \<Rightarrow> int \<Rightarrow> int \<Rightarrow> int option" where
  "frame_audio_bytes r apf num sent =
     (case double_to_int (f_sub r (f_mul r apf (of_int (num + 1))) (of_int sent)) of
        None \<Rightarrow> None
      | Some b \<Rightarrow> Some (if odd b then b + 1 else b))"

definition loop_audio_per_frame :: "rounding \<Rightarrow> loop_cfg \<Rightarrow> rat" where
  "loop_audio_per_frame r cfg = f_div r (of_int (audio_rate cfg)) (of_int (out_fps cfg))"

section \<open>Reading the main video\<close>

record main_read =
  mr_video :: "byte list"
  mr_audio :: "byte list"
  mr_product :: int
  mr_use_old :: bool
  mr_cts :: rat
  mr_tstep :: rat
  mr_timeouts :: int

definition can_wait :: "loop_cfg \<Rightarrow> 'i loop_state \<Rightarrow> bool" where
  "can_wait cfg s \<longleftrightarrow> \<not> l_first_ready s \<or> \<not> has_stream_io cfg \<or> (main_video cfg \<and> shm_main cfg)"

text \<open>The read error test of both branches.\<close>

definition read_failed :: "loop_cfg \<Rightarrow> bool \<Rightarrow> int \<Rightarrow> int \<Rightarrow> bool" where
  "read_failed cfg waits ret timeouts \<longleftrightarrow> ret < 0 \<or> (waits \<and> ret = 1 \<and> timeouts \<ge> read_timeout cfg)"

text \<open>The reading loop when the output has a frame rate of its own; \<open>None\<close> inside is a read
  failure, outside it is that the fuel is used up. \<open>first\<close> says that no picture is kept yet.\<close>

fun adjusted_read ::
  "nat \<Rightarrow> ('w, 'i) loop_ops \<Rightarrow> loop_cfg \<Rightarrow> bool \<Rightarrow> bool \<Rightarrow> rat \<Rightarrow> main_read \<Rightarrow> 'w \<Rightarrow> (main_read option \<times> 'w) option" where
  "adjusted_read 0 ops cfg waits first ts m w = None"
| "adjusted_read (Suc k) ops cfg waits first ts m w =
     (if \<not> (first \<or> f_add (lo_rnd ops) (mr_cts m) (mr_tstep m) < ts) then Some (Some m, w)
      else
        let m0 = m\<lparr>mr_use_old := False\<rparr>;
            ((ret, got), w1) = lo_merge ops (if waits then 1 else 0) w
        in if read_failed cfg waits ret (mr_timeouts m0) then Some (None, w1)
           else if ret = 1 then Some (Some (m0\<lparr>mr_timeouts := mr_timeouts m0 + 1\<rparr>), w1)
           else
             let m1 = (case got of None \<Rightarrow> m0
                       | Some (v, a, p) \<Rightarrow> m0\<lparr>mr_video := v, mr_audio := mr_audio m0 @ a, mr_product := p\<rparr>);
                 m2 = m1\<lparr>mr_timeouts := 0\<rparr>
             in if mr_video m2 = [] then Some (Some m2, w1)
                else if first then Some (Some (m2\<lparr>mr_cts := 0, mr_tstep := f_div (lo_rnd ops) 1000 (reader_fps cfg)\<rparr>), w1)
                else adjusted_read k ops cfg waits first ts (m2\<lparr>mr_cts := f_add (lo_rnd ops) (mr_cts m2) (mr_tstep m2)\<rparr>) w1)"

definition needs_adjust :: "loop_cfg \<Rightarrow> rounding \<Rightarrow> bool" where
  "needs_adjust cfg r \<longleftrightarrow> reader_fps cfg \<ge> f_add r (of_int (out_fps cfg)) (1 / 10)
     \<or> reader_fps cfg \<le> f_sub r (of_int (out_fps cfg)) (1 / 10)"

definition plain_read ::
  "('w, 'i) loop_ops \<Rightarrow> loop_cfg \<Rightarrow> bool \<Rightarrow> main_read \<Rightarrow> 'w \<Rightarrow> main_read option \<times> 'w" where
  "plain_read ops cfg waits m w =
     (case lo_merge ops (if waits then 1 else 0) w of ((ret, got), w1) \<Rightarrow>
        if read_failed cfg waits ret (mr_timeouts m) then (None, w1)
        else if ret = 1 then (Some (m\<lparr>mr_timeouts := mr_timeouts m + 1\<rparr>), w1)
        else (Some ((case got of None \<Rightarrow> m
                     | Some (v, a, p) \<Rightarrow> m\<lparr>mr_video := v, mr_audio := mr_audio m @ a, mr_product := p\<rparr>)\<lparr>mr_timeouts := 0\<rparr>), w1))"

text \<open>What a turn knows after reading: the picture, the audio, the product, whether the main audio
  is missing.\<close>

record 'i turn_input =
  ti_frame :: "'i option"
  ti_video :: "byte list"
  ti_audio :: "byte list"
  ti_product :: int
  ti_missing :: bool

datatype 'i read_end = ReadFailed | ReadRetry | ReadOk "'i turn_input"

definition start_read :: "'i loop_state \<Rightarrow> main_read" where
  "start_read s = \<lparr>mr_video = [], mr_audio = [], mr_product = 0, mr_use_old = True, mr_cts = l_cts s, mr_tstep = l_tstep s,
     mr_timeouts = l_timeouts s\<rparr>"

definition store_read :: "main_read \<Rightarrow> 'i loop_state \<Rightarrow> 'i loop_state" where
  "store_read m s = s\<lparr>l_timeouts := mr_timeouts m, l_cts := mr_cts m, l_tstep := mr_tstep m\<rparr>"

definition after_video :: "bool \<Rightarrow> main_read \<Rightarrow> 'i option \<Rightarrow> 'i loop_state \<Rightarrow> 'i read_end \<times> 'i loop_state" where
  "after_video waits m frame s =
     (if frame = None \<and> waits \<and> 0 < l_timeouts s then (ReadRetry, s\<lparr>l_num := l_num s - 1\<rparr>)
      else (ReadOk \<lparr>ti_frame = frame, ti_video = mr_video m, ti_audio = mr_audio m, ti_product = mr_product m,
              ti_missing = False\<rparr>, s))"

definition read_main_video ::
  "nat \<Rightarrow> ('w, 'i) loop_ops \<Rightarrow> loop_cfg \<Rightarrow> 'i loop_state \<Rightarrow> 'w \<Rightarrow> (('i read_end \<times> 'i loop_state) \<times> 'w) option" where
  "read_main_video fuel ops cfg s w =
     (let waits = can_wait cfg s
      in if needs_adjust cfg (lo_rnd ops) then
           (case adjusted_read fuel ops cfg waits (l_frames s = []) (l_ts s) (start_read s) w of
              None \<Rightarrow> None
            | Some (None, w1) \<Rightarrow> Some ((ReadFailed, s), w1)
            | Some (Some m, w1) \<Rightarrow>
                let s1 = store_read m s;
                    frame = (if mr_video m = [] \<and> mr_use_old m \<and> l_frames s \<noteq> [] then hd (l_frames s)
                             else if mr_video m \<noteq> [] then lo_picture ops (mr_video m) else None);
                    s2 = (if mr_video m \<noteq> [] then s1\<lparr>l_frames := frame # drop 1 (l_frames s1)\<rparr> else s1)
                in Some (after_video waits m frame s2, w1))
         else
           (case plain_read ops cfg waits (start_read s) w of
              (None, w1) \<Rightarrow> Some ((ReadFailed, s), w1)
            | (Some m, w1) \<Rightarrow>
                Some (after_video waits m (if mr_video m \<noteq> [] then lo_picture ops (mr_video m) else None)
                        (store_read m s), w1)))"

text \<open>Raw main audio without a main video.\<close>

definition read_main_audio ::
  "('w, 'i) loop_ops \<Rightarrow> loop_cfg \<Rightarrow> int \<Rightarrow> 'i loop_state \<Rightarrow> 'w \<Rightarrow> ('i read_end \<times> 'i loop_state) \<times> 'w" where
  "read_main_audio ops cfg budget s w =
     (let waits = can_wait cfg s
      in case lo_separate ops (if waits then 1 else 0) w of ((ret, got), w1) \<Rightarrow>
        if read_failed cfg waits ret (l_timeouts s) then ((ReadFailed, s), w1)
        else if waits \<and> ret = 1 then ((ReadRetry, s\<lparr>l_timeouts := l_timeouts s + 1, l_num := l_num s - 1\<rparr>), w1)
        else ((ReadOk \<lparr>ti_frame = None, ti_video = [], ti_audio = (case got of None \<Rightarrow> [] | Some (a, _) \<Rightarrow> a),
                 ti_product = (case got of None \<Rightarrow> 0 | Some (_, p) \<Rightarrow> p), ti_missing = (ret = 1 \<and> budget > 1)\<rparr>,
               s\<lparr>l_timeouts := 0\<rparr>), w1))"

section \<open>Product and drawing\<close>

definition new_product :: "int \<Rightarrow> live \<Rightarrow> live" where
  "new_product prodid lv =
     (if 0 < prodid \<and> lv_product lv \<noteq> prodid
      then lv\<lparr>lv_product := prodid, lv_log := lv_log lv @ switch_decoders (lv_product lv) prodid (lv_mlist lv)\<rparr>
      else lv)"

definition drawn :: "int \<Rightarrow> material \<Rightarrow> bool" where
  "drawn product m \<longleftrightarrow> \<not> (0 < product_id m \<and> product \<noteq> product_id m) \<and> mtype m \<noteq> MT_MainAudio \<and> mtype m \<noteq> MT_Audio"

definition drawn_materials :: "int \<Rightarrow> nat \<Rightarrow> material list \<Rightarrow> material list" where
  "drawn_materials product static_idx ms = filter (drawn product) (drop static_idx ms)"

text \<open>The static images at the front of the list are drawn into the background once, before the
  loop; \<open>static_count\<close> is the \<^verbatim>\<open>static_idx\<close> it leaves, \<open>static_drawn\<close> what it draws.\<close>

definition not_static :: "bool \<Rightarrow> material \<Rightarrow> bool" where
  "not_static disable_opengl m \<longleftrightarrow> 0 < product_id m \<or>
     (mtype m \<noteq> MT_MainAudio \<and> mtype m \<noteq> MT_Audio \<and>
       (\<not> disable_opengl \<and> (0 < rotation m \<or> (0 < opacity m \<and> opacity m < 100)) \<or>
        mtype m = MT_Gif \<or> mtype m = MT_Video \<or> mtype m = MT_MainVideo \<or> mtype m = MT_Time \<or> mtype m = MT_Clock))"

fun static_count :: "bool \<Rightarrow> bool \<Rightarrow> material list \<Rightarrow> nat" where
  "static_count output_alpha disable_opengl [] = 0"
| "static_count output_alpha disable_opengl (m # ms) =
     (if output_alpha \<or> not_static disable_opengl m then 0 else Suc (static_count output_alpha disable_opengl ms))"

definition static_drawn :: "bool \<Rightarrow> bool \<Rightarrow> material list \<Rightarrow> material list" where
  "static_drawn output_alpha disable_opengl ms =
     filter (\<lambda>m. mtype m \<noteq> MT_MainAudio \<and> mtype m \<noteq> MT_Audio) (take (static_count output_alpha disable_opengl ms) ms)"

section \<open>The substream\<close>

text \<open>A division by a substream rate of zero gives an infinite time: such a substream is always
  ahead after its first picture.\<close>

definition substream_skips :: "rounding \<Rightarrow> int \<Rightarrow> int \<Rightarrow> substream \<Rightarrow> bool" where
  "substream_skips r fps num sub \<longleftrightarrow> cur_frameno sub > 0 \<and>
     (sub_fps sub = 0 \<or>
      f_div r (f_add r (of_int (cur_frameno sub)) (1 / 2)) (of_int (sub_fps sub))
        \<ge> f_div r (of_int (num - start_frameno sub)) (of_int fps))"

definition substream_turn :: "rounding \<Rightarrow> int \<Rightarrow> int \<Rightarrow> substream \<Rightarrow> bool \<times> substream" where
  "substream_turn r fps num sub =
     (if sub_running sub \<and> \<not> substream_skips r fps num sub
      then (True, sub\<lparr>cur_frameno := cur_frameno sub + 1\<rparr>) else (False, sub))"

section \<open>Mixing the audio\<close>

fun samples :: "byte list \<Rightarrow> int list" where
  "samples (a # b # r) = to_i16 (uint a + 256 * uint b) # samples r"
| "samples r = []"

text \<open>The main audio: none, a stub (audio exists but is not there yet), or samples.\<close>

datatype main_pcm = NoMain | MainStub | MainPcm "int list"

definition main_volume :: "loop_cfg \<Rightarrow> int" where
  "main_volume cfg =
     (let v = (if main_video cfg then mv_volume cfg else if main_audio cfg then ma_volume cfg else 100)
      in if v \<le> 0 \<or> v > 100 then 100 else v)"

definition pick_main_audio ::
  "('w, 'i) loop_ops \<Rightarrow> loop_cfg \<Rightarrow> int \<Rightarrow> 'i turn_input \<Rightarrow> 'w \<Rightarrow> (main_pcm \<times> byte list) \<times> 'w" where
  "pick_main_audio ops cfg budget t w =
     (if main_audio cfg \<and> \<not> raw_audio cfg then
        (if budget > 1 then
           (case lo_read_audio ops budget w of ((ret, b), w1) \<Rightarrow>
              if 0 \<le> ret \<and> length b > 1 then ((MainPcm (samples b), b), w1) else ((NoMain, []), w1))
         else ((NoMain, []), w))
      else if ti_audio t \<noteq> [] then ((if length (ti_audio t) > 1 then MainPcm (samples (ti_audio t)) else MainStub, ti_audio t), w)
      else if (ti_video t \<noteq> [] \<and> reader_decodes_audio cfg) \<or> budget < 2 then ((MainStub, ti_audio t), w)
      else ((NoMain, ti_audio t), w))"

definition mixes :: "int \<Rightarrow> material \<Rightarrow> bool" where
  "mixes product m \<longleftrightarrow> \<not> (0 < product_id m \<and> product \<noteq> product_id m)
     \<and> (mtype m = MT_Audio \<or> mtype m = MT_Video) \<and> 0 < volume m"

fun material_audios ::
  "('w, 'i) loop_ops \<Rightarrow> int \<Rightarrow> int \<Rightarrow> nat \<Rightarrow> material list \<Rightarrow> 'w \<Rightarrow> pcm_info list \<times> 'w" where
  "material_audios ops product n i [] w = ([], w)"
| "material_audios ops product n i (m # ms) w =
     (if \<not> mixes product m then material_audios ops product n (Suc i) ms w
      else case lo_material_audio ops i n w of ((ret, b), w1) \<Rightarrow>
        case material_audios ops product n (Suc i) ms w1 of (ps, w2) \<Rightarrow>
          (if 0 \<le> ret \<and> length b > 1 then (samples b, volume m) # ps else ps, w2))"

text \<open>What a turn sends: nothing, the mixed samples, or the exception of \<^verbatim>\<open>resize\<close> with a negative
  length (a budget below zero without main audio).\<close>

datatype mix_result = Silent | Mixed "int list" | MixThrows

definition mix_into :: "pcm_info list \<Rightarrow> int \<Rightarrow> mix_result" where
  "mix_into ps n = (if n < 0 then MixThrows else Mixed (mverge_audio ps (nat n)))"

definition mix_turn ::
  "('w, 'i) loop_ops \<Rightarrow> loop_cfg \<Rightarrow> int \<Rightarrow> int \<Rightarrow> material list \<Rightarrow> main_pcm \<Rightarrow> 'w \<Rightarrow> mix_result \<times> 'w" where
  "mix_turn ops cfg product budget ms main w =
     (case main of
        MainStub \<Rightarrow> (Silent, w)
      | NoMain \<Rightarrow>
          (case material_audios ops product budget 0 ms w of (ps, w1) \<Rightarrow> (mix_into ps (c_div budget 2), w1))
      | MainPcm pcm \<Rightarrow>
          (case material_audios ops product (int (length pcm) * 2) 0 ms w of (ps, w1) \<Rightarrow>
             (mix_into ((pcm, main_volume cfg) # ps) (int (length pcm)), w1)))"

text \<open>\<^verbatim>\<open>sent_audio_bytes\<close> is an \<^verbatim>\<open>int\<close> and wraps.\<close>

definition count_sent :: "mix_result \<Rightarrow> int \<Rightarrow> int" where
  "count_sent mixed sent = (case mixed of Mixed xs \<Rightarrow> to_i32 (sent + 2 * int (length xs)) | _ \<Rightarrow> sent)"

definition end_of_stream :: "loop_cfg \<Rightarrow> 'i turn_input \<Rightarrow> byte list \<Rightarrow> bool" where
  "end_of_stream cfg t adata \<longleftrightarrow>
     (main_video cfg \<and> ti_frame t = None) \<or> (\<not> main_video cfg \<and> main_audio cfg \<and> adata = [] \<and> \<not> ti_missing t)"

section \<open>A turn\<close>

datatype turn_end = TurnGoes | TurnEof | TurnFailed | TurnStopped | TurnUndefined | TurnThrows

record turn_output =
  to_drawn :: "material list"
  to_frame_out :: bool
  to_sub_out :: bool
  to_audio :: mix_result

definition no_output :: turn_output where
  "no_output = \<lparr>to_drawn = [], to_frame_out = False, to_sub_out = False, to_audio = Silent\<rparr>"

definition read_turn ::
  "nat \<Rightarrow> ('w, 'i) loop_ops \<Rightarrow> loop_cfg \<Rightarrow> int \<Rightarrow> 'i loop_state \<Rightarrow> 'w \<Rightarrow> (('i read_end \<times> 'i loop_state) \<times> 'w) option" where
  "read_turn fuel ops cfg budget s w =
     (if main_video cfg then read_main_video fuel ops cfg s w
      else if main_audio cfg \<and> raw_audio cfg then Some (read_main_audio ops cfg budget s w)
      else Some ((ReadOk \<lparr>ti_frame = None, ti_video = [], ti_audio = [], ti_product = 0, ti_missing = False\<rparr>, s), w))"

text \<open>The part of a turn after the commands; \<open>None\<close> is that the fuel of the reading loop is used
  up.\<close>

definition frame_turn ::
  "nat \<Rightarrow> ('w, 'i) loop_ops \<Rightarrow> loop_cfg \<Rightarrow> nat \<Rightarrow> live \<Rightarrow> 'i loop_state \<Rightarrow> 'w
     \<Rightarrow> ((turn_end \<times> turn_output) \<times> live \<times> 'i loop_state \<times> 'w) option" where
  "frame_turn fuel ops cfg static_idx lv s w =
     (let r = lo_rnd ops
      in case frame_audio_bytes r (loop_audio_per_frame r cfg) (l_num s) (l_sent s) of
           None \<Rightarrow> Some ((TurnUndefined, no_output), lv, s, w)
         | Some budget \<Rightarrow>
             (case read_turn fuel ops cfg budget s w of
                None \<Rightarrow> None
              | Some ((ReadFailed, s1), w1) \<Rightarrow> Some ((TurnFailed, no_output), lv, s1, w1)
              | Some ((ReadRetry, s1), w1) \<Rightarrow> Some ((TurnGoes, no_output), lv, s1, w1)
              | Some ((ReadOk t, s1), w1) \<Rightarrow>
                  let shows = (\<not> main_video cfg \<or> ti_frame t \<noteq> None);
                      lv1 = (if shows then new_product (ti_product t) lv else lv);
                      s2 = (if shows then s1\<lparr>l_first_ready := True\<rparr> else s1);
                      (sub_out, sub1) = (if shows then substream_turn r (out_fps cfg) (l_num s2) (lv_sub lv1)
                                         else (False, lv_sub lv1));
                      lv2 = lv1\<lparr>lv_sub := sub1\<rparr>;
                      ((main, adata), w2) = pick_main_audio ops cfg budget t w1;
                      (mixed, w3) = mix_turn ops cfg (lv_product lv2) budget (lv_mlist lv2) main w2;
                      s3 = s2\<lparr>l_sent := count_sent mixed (l_sent s2)\<rparr>;
                      out = \<lparr>to_drawn = (if shows then drawn_materials (lv_product lv2) static_idx (lv_mlist lv2) else []),
                             to_frame_out = shows, to_sub_out = sub_out, to_audio = mixed\<rparr>
                  in if mixed = MixThrows then Some ((TurnThrows, out), lv2, s3, w3)
                     else if end_of_stream cfg t adata then Some ((TurnEof, out), lv2, s3, w3)
                     else Some ((TurnGoes, out), lv2, s3\<lparr>l_ts := f_add r (l_ts s3) (f_div r 1000 (of_int (out_fps cfg)))\<rparr>, w3)))"

text \<open>A whole turn: \<^verbatim>\<open>while (++num >= 0)\<close>, the total number of frames, the commands, the frame.\<close>

definition main_turn ::
  "nat \<Rightarrow> ('w, 'i) loop_ops \<Rightarrow> loop_cfg \<Rightarrow> (material list \<Rightarrow> material list option) \<Rightarrow> live_env \<Rightarrow> nat
     \<Rightarrow> stream_cmd_info list \<Rightarrow> live \<times> mailbox \<Rightarrow> 'i loop_state \<Rightarrow> 'w
     \<Rightarrow> ((turn_end \<times> turn_output) \<times> (live \<times> mailbox) \<times> 'i loop_state \<times> 'w) option" where
  "main_turn fuel ops cfg open_materials e static_idx cmds lm s0 w =
     (let s = s0\<lparr>l_num := l_num s0 + 1\<rparr>
      in if l_num s < 0 \<or> (\<not> main_video cfg \<and> l_num s \<ge> total_frames cfg) then Some ((TurnEof, no_output), lm, s, w)
         else case commands_turn open_materials (e\<lparr>le_num := l_num s, le_fps := out_fps cfg\<rparr>) cmds (fst lm) (snd lm) of
           None \<Rightarrow> Some ((TurnStopped, no_output), lm, s, w)
         | Some (lv, mb) \<Rightarrow>
             (case frame_turn fuel ops cfg static_idx lv s w of
                None \<Rightarrow> None
              | Some (out, lv', s', w') \<Rightarrow> Some (out, (lv', mb), s', w')))"

text \<open>The loop with the commands that arrive in each turn: the outputs of its turns and how it stands
  after them; it stops at the first turn that ends it.\<close>

fun main_loop ::
  "nat \<Rightarrow> ('w, 'i) loop_ops \<Rightarrow> loop_cfg \<Rightarrow> (material list \<Rightarrow> material list option) \<Rightarrow> live_env \<Rightarrow> nat
     \<Rightarrow> stream_cmd_info list list \<Rightarrow> live \<times> mailbox \<Rightarrow> 'i loop_state \<Rightarrow> 'w
     \<Rightarrow> ((turn_end \<times> turn_output) list \<times> (live \<times> mailbox) \<times> 'i loop_state \<times> 'w) option" where
  "main_loop fuel ops cfg open_materials e static_idx [] lm s w = Some ([], lm, s, w)"
| "main_loop fuel ops cfg open_materials e static_idx (cmds # rest) lm s w =
     (case main_turn fuel ops cfg open_materials e static_idx cmds lm s w of
        None \<Rightarrow> None
      | Some (out, lm1, s1, w1) \<Rightarrow>
          if fst out \<noteq> TurnGoes then Some ([out], lm1, s1, w1)
          else (case main_loop fuel ops cfg open_materials e static_idx rest lm1 s1 w1 of
                  None \<Rightarrow> None
                | Some (outs, lm2, s2, w2) \<Rightarrow> Some (out # outs, lm2, s2, w2)))"

section \<open>The decoder thread as the main reader\<close>

text \<open>Reading the main picture from a decoder (\<^verbatim>\<open>read_thread_merge_data\<close>) as the loop sees it.\<close>

definition decoder_merge :: "(nat \<Rightarrow> decoder \<Rightarrow> decoder) \<Rightarrow> int \<Rightarrow> decoder option
    \<Rightarrow> (int \<times> (byte list \<times> byte list \<times> int) option) \<times> decoder option" where
  "decoder_merge pause timeout od =
     (case read_thread_merge_data pause timeout od of (ret, x, od') \<Rightarrow>
        ((ret, map_option (\<lambda>f. (f_video f, f_audio f, f_product f)) x), od'))"

end
