(* ===== verification/Frame_Loop_Thms.thy ===== *)
theory Frame_Loop_Thms
  imports Frame_Loop
begin

text \<open>
  The frame loop: the substream keeps its rate, the audio sent keeps up with the pictures until
  its counter overflows, every material is drawn once, and what deleting a static image and a late
  picture do to the output.
\<close>

section \<open>The substream keeps its rate\<close>

lemma fraction_gap:
  assumes "0 < (b::int)" "0 < d" "(of_int a :: rat) / of_int b < of_int c / of_int d"
  shows "of_int c / of_int d - of_int a / of_int b \<ge> 1 / (of_int b * of_int d :: rat)"
proof -
  have bd: "0 < (of_int b :: rat)" "0 < (of_int d :: rat)" using assms by simp_all
  have "(of_int (a * d) :: rat) < of_int (c * b)" using assms(3) bd by (simp add: divide_simps mult.commute)
  then have "a * d + 1 \<le> c * b" by linarith
  then have "(of_int (a * d + 1) :: rat) \<le> of_int (c * b)" by (simp only: of_int_le_iff)
  then have "1 \<le> of_int c * of_int b - of_int a * (of_int d :: rat)" by simp
  then show ?thesis using bd by (simp add: field_simps)
qed

lemma ieee_fraction_close:
  assumes "ieee r" "0 < y" "0 \<le> x" "x \<le> 2 ^ 30"
  shows "\<bar>r (of_int x / of_int y) - of_int x / of_int y\<bar> \<le> 3 / 2 ^ 24"
proof (rule ieee_close [OF assms(1), where k = 30])
  have "(of_int x :: rat) \<le> of_int (2 ^ 30)" using assms(4) by (simp only: of_int_le_iff)
  moreover have "(1::rat) \<le> of_int y" using assms(2) by simp
  moreover have "(0::rat) \<le> of_int x" using assms(3) by simp
  ultimately have "of_int x \<le> (2::rat) ^ 30 * of_int y"
    by (metis mult.commute mult_left_mono mult_1 of_int_numeral of_int_power order_trans zero_le_numeral zero_le_power)
  then show "\<bar>of_int x / of_int y\<bar> \<le> (2::rat) ^ 30" using assms(2,3) by (simp add: divide_le_eq)
qed simp_all

lemma close_less:
  fixes x y g :: rat
  assumes "\<bar>x' - x\<bar> \<le> 3 / 2 ^ 24" "\<bar>y' - y\<bar> \<le> 3 / 2 ^ 24" "1 / 2 ^ 21 \<le> g" "g \<le> y - x"
  shows "x' < y'"
proof -
  have "x' \<le> x + 3 / 2 ^ 24" "y - 3 / 2 ^ 24 \<le> y'" using assms(1,2) by (simp_all only: abs_le_iff) linarith+
  moreover have "3 / 2 ^ 24 + 3 / 2 ^ 24 < (1 / 2 ^ 21 :: rat)" by simp
  ultimately show ?thesis using assms(3,4) by linarith
qed

lemma ieee_compare:
  assumes "ieee r" "0 < b" "b \<le> 2 ^ 11" "0 < d" "d \<le> 2 ^ 10" "0 \<le> a" "a \<le> 2 ^ 30" "0 \<le> c" "c \<le> 2 ^ 30"
  shows "r (of_int a / of_int b) \<ge> r (of_int c / of_int d) \<longleftrightarrow> (of_int a / of_int b :: rat) \<ge> of_int c / of_int d"
proof -
  let ?A = "of_int a / of_int b :: rat" and ?C = "of_int c / of_int d :: rat"
  have close: "\<bar>r ?A - ?A\<bar> \<le> 3 / 2 ^ 24" "\<bar>r ?C - ?C\<bar> \<le> 3 / 2 ^ 24"
    using ieee_fraction_close assms by blast+
  have bd: "b * d \<le> 2 ^ 11 * 2 ^ 10" using assms by (intro mult_mono) simp_all
  have "(of_int b * of_int d :: rat) = of_int (b * d)" by simp
  also have "\<dots> \<le> of_int (2 ^ 11 * 2 ^ 10)" using bd by (simp only: of_int_le_iff)
  finally have "of_int b * of_int d \<le> (2 ^ 21 :: rat)" by simp
  then have gap: "1 / 2 ^ 21 \<le> 1 / (of_int b * of_int d :: rat)"
    using assms by (intro divide_left_mono) simp_all
  show ?thesis
  proof (cases ?A ?C rule: linorder_cases)
    case less
    then have "r ?A < r ?C" 
      by (intro close_less [OF close gap] fraction_gap [OF assms(2,4)])
    then show ?thesis using less by simp
  next
    case greater
    then have "r ?C < r ?A" 
      using fraction_gap [OF assms(4,2) greater] by (intro close_less [OF close(2,1) gap]) (simp add: mult.commute)
    then show ?thesis using greater by simp
  qed simp
qed

text \<open>The comparison by which a source with its own rate \<open>sf\<close> keeps its picture \<open>c\<close> at frame \<open>n\<close>.\<close>

lemma rate_keep_iff:
  assumes "ieee r" "0 < fps" "fps \<le> 2 ^ 10" "0 < sf" "sf \<le> 2 ^ 10" "0 < c" "c \<le> 2 ^ 28" "0 \<le> n" "n \<le> 2 ^ 28"
  shows "f_div r (f_add r (of_int c) (1 / 2)) (of_int sf) \<ge> f_div r (of_int n) (of_int fps) \<longleftrightarrow>
    \<lceil>of_int (n * sf) / of_int fps - 1 / 2 :: rat\<rceil> \<le> c"
proof -
  have h: "f_add r (of_int c) (1 / 2) = of_int (2 * c + 1) / 2"
    using ieee_half [OF assms(1), of "2 * c + 1"] assms(6,7) by (simp add: f_add_def add_divide_distrib)
  have "f_div r (f_add r (of_int c) (1 / 2)) (of_int sf) \<ge> f_div r (of_int n) (of_int fps) \<longleftrightarrow>
      r (of_int (2 * c + 1) / of_int (2 * sf)) \<ge> r (of_int n / of_int fps)"
    by (simp add: f_div_def h)
  also have "\<dots> \<longleftrightarrow> of_int (2 * c + 1) / of_int (2 * sf) \<ge> (of_int n / of_int fps :: rat)"
    using assms by (intro ieee_compare) simp_all
  also have "\<dots> \<longleftrightarrow> of_int (n * sf) / of_int fps - 1 / 2 \<le> (of_int c :: rat)"
    using assms(2,4) by (simp add: field_simps)
  also have "\<dots> \<longleftrightarrow> \<lceil>of_int (n * sf) / of_int fps - 1 / 2 :: rat\<rceil> \<le> c"
    by (simp add: ceiling_le_iff)
  finally show ?thesis .
qed

text \<open>The substream in consecutive turns from the one that started it.\<close>

fun sub_turns :: "rounding \<Rightarrow> int \<Rightarrow> nat \<Rightarrow> substream \<Rightarrow> substream" where
  "sub_turns r fps 0 sub = sub"
| "sub_turns r fps (Suc k) sub =
     (let s = sub_turns r fps k sub in snd (substream_turn r fps (start_frameno sub + int k) s))"

lemma sub_turns_keep [simp]:
  "start_frameno (sub_turns r fps k sub) = start_frameno sub"
  "sub_fps (sub_turns r fps k sub) = sub_fps sub" "sub_running (sub_turns r fps k sub) = sub_running sub"
  by (induction k) (auto simp: substream_turn_def Let_def)

lemma ceiling_add_le_one: "y \<le> 1 \<Longrightarrow> \<lceil>x + y - 1 / 2 :: rat\<rceil> \<le> \<lceil>x - 1 / 2\<rceil> + 1"
proof -
  assume "y \<le> 1"
  then have "x + y - 1 / 2 \<le> of_int (\<lceil>x - 1 / 2\<rceil> + 1)" using le_of_int_ceiling [of "x - 1 / 2"] by linarith
  then show ?thesis by (simp only: ceiling_le_iff)
qed

text \<open>The picture due at frame \<open>n\<close>: it moves by at most one per frame.\<close>

definition due_picture :: "int \<Rightarrow> int \<Rightarrow> nat \<Rightarrow> int" where
  "due_picture sf fps n = \<lceil>of_int (int n * sf) / of_int fps - 1 / 2 :: rat\<rceil>"

lemma due_picture_step:
  assumes "0 < sf" "sf \<le> fps"
  shows "due_picture sf fps n \<le> due_picture sf fps (Suc n)" "due_picture sf fps (Suc n) \<le> due_picture sf fps n + 1"
    "due_picture sf fps n \<le> int n" "due_picture sf fps 0 = 0"
proof -
  have step: "(of_int (int (Suc n) * sf) / of_int fps :: rat) = of_int (int n * sf) / of_int fps + of_int sf / of_int fps"
    by (simp add: add_divide_distrib distrib_right)
  have "(of_int sf / of_int fps :: rat) \<le> 1" "0 \<le> (of_int sf / of_int fps :: rat)"
    using assms by simp_all
  then show "due_picture sf fps n \<le> due_picture sf fps (Suc n)" "due_picture sf fps (Suc n) \<le> due_picture sf fps n + 1"
    unfolding due_picture_def step using ceiling_add_le_one by (auto intro!: ceiling_mono)
  have "int n * sf \<le> int n * fps" using assms(2) by (intro mult_left_mono) simp_all
  then have "(of_int (int n * sf) / of_int fps :: rat) \<le> of_int (int n)"
    using less_le_trans [OF assms] by (simp only: divide_le_eq of_int_0_less_iff of_int_mult [symmetric] of_int_le_iff if_True)
  then show "due_picture sf fps n \<le> int n" unfolding due_picture_def by (simp add: ceiling_le_iff)
  show "due_picture sf fps 0 = 0" by (simp add: due_picture_def ceiling_eq_iff)
qed

lemma substream_skips_iff:
  assumes "ieee r" "0 < fps" "fps \<le> 2 ^ 10" "0 < sub_fps sub" "sub_fps sub \<le> 2 ^ 10" "0 < cur_frameno sub"
    "cur_frameno sub \<le> 2 ^ 28" "k < 2 ^ 28"
  shows "substream_skips r fps (start_frameno sub + int k) sub \<longleftrightarrow> due_picture (sub_fps sub) fps k \<le> cur_frameno sub"
  using rate_keep_iff [OF assms(1-7), of "int k"] assms(4,6,8) by (simp add: substream_skips_def due_picture_def)

text \<open>A substream whose rate is at most the output rate gets, after the turns of \<open>k + 1\<close> frames,
  as many pictures as its rate asks for, rounded to the nearest number (and at least the first
  one): no drift however long it runs, with double arithmetic, for \<open>2 ^ 28\<close> frames.\<close>

lemma substream_pace:
  assumes "ieee r" "0 < sub_fps sub" "sub_fps sub \<le> fps" "fps \<le> 1024" "sub_running sub" "cur_frameno sub = 0"
    "k < 2 ^ 28"
  shows "cur_frameno (sub_turns r fps (Suc k) sub) =
    max 1 \<lceil>of_int (int k * sub_fps sub) / of_int fps - 1 / 2 :: rat\<rceil>"
  unfolding due_picture_def [symmetric] using assms(7)
proof (induction k)
  case 0
  show ?case using assms(2,3,5,6) due_picture_step(4)
    by (simp add: Let_def substream_turn_def substream_skips_def)
next
  case (Suc k)
  define s where "s = sub_turns r fps (Suc k) sub"
  note due = due_picture_step(1-3) [OF assms(2,3), of k]
  have cur: "cur_frameno s = max 1 (due_picture (sub_fps sub) fps k)" using Suc unfolding s_def by simp
  have s: "start_frameno s = start_frameno sub" "sub_fps s = sub_fps sub" "sub_running s"
    using assms(5) by (simp_all only: s_def sub_turns_keep)
  have skip: "substream_skips r fps (start_frameno sub + int (Suc k)) s \<longleftrightarrow>
      due_picture (sub_fps sub) fps (Suc k) \<le> cur_frameno s"
    using substream_skips_iff [OF assms(1), of fps s "Suc k"] assms cur Suc.prems s due(3) by simp
  have "cur_frameno (sub_turns r fps (Suc (Suc k)) sub) =
      (if substream_skips r fps (start_frameno sub + int (Suc k)) s then cur_frameno s else cur_frameno s + 1)"
    unfolding sub_turns.simps(2) [of _ _ "Suc k"] s_def [symmetric] Let_def
    using s(3) by (simp add: substream_turn_def)
  also have "\<dots> = max 1 (due_picture (sub_fps sub) fps (Suc k))" using skip cur due(1,2) by auto
  finally show ?case .
qed

definition sub_example :: substream where
  "sub_example = \<lparr>rtmpout = None, sub_w = 320, sub_h = 180, sub_fps = 10, sub_bitrate = 0, sub_disable_audio = 1,
     sub_audio_fifo = [], sub_running = True, start_frameno = 7, cur_frameno = 0\<rparr>"

lemma substream_pace_example: "cur_frameno (sub_turns (\<lambda>x. x) 25 6 sub_example) = 2"
proof -
  have "\<lceil>3 / 2 :: rat\<rceil> = 2" by (simp add: ceiling_eq_iff)
  moreover have "cur_frameno (sub_turns (\<lambda>x. x) 25 (Suc 5) sub_example) =
      max 1 \<lceil>of_int (int 5 * sub_fps sub_example) / of_int 25 - 1 / 2 :: rat\<rceil>"
    by (rule substream_pace) (simp_all add: ieee_exact sub_example_def)
  ultimately show ?thesis by (simp add: sub_example_def eval_nat_numeral del: sub_turns.simps)
qed

lemma length_mverge_audio: "length (mverge_audio ps n) = n"
  by (auto simp: mverge_audio_def Let_def)

section \<open>The audio keeps up with the pictures\<close>

text \<open>The bytes of audio due after \<open>n\<close> frames, exactly; \<open>near\<close> is within one byte and a rounding error.\<close>

definition audio_due :: "loop_cfg \<Rightarrow> int \<Rightarrow> rat" where
  "audio_due cfg n = of_int (audio_rate cfg * n) / of_int (out_fps cfg)"

definition near :: "rat \<Rightarrow> int \<Rightarrow> bool" where
  "near t sent \<longleftrightarrow> \<bar>of_int sent - t\<bar> \<le> 1 + 1 / 2 ^ 16"

lemma due_rounded:
  assumes "ieee r" "0 < out_fps cfg" "0 \<le> audio_rate cfg" "audio_rate cfg \<le> 2 ^ 30" "0 \<le> n" "n \<le> 2 ^ 32"
    "audio_due cfg n \<le> 2 ^ 32"
  shows "\<bar>f_mul r (loop_audio_per_frame r cfg) (of_int n) - audio_due cfg n\<bar> \<le> 1 / 2 ^ 18"
proof -
  define a where "a = (of_int (audio_rate cfg) / of_int (out_fps cfg) :: rat)"
  define m where "m = (of_int n :: rat)"
  have T: "audio_due cfg n = a * m" by (simp add: audio_due_def a_def m_def)
  have a0: "0 \<le> a" and m0: "0 \<le> m" using assms by (simp_all add: a_def m_def)
  have m: "m \<le> 2 ^ 32" using assms(6) unfolding m_def by (metis of_int_le_iff of_int_numeral of_int_power)
  have "a \<le> of_int (audio_rate cfg)" using assms(2,3) by (simp add: a_def divide_le_eq mult_le_cancel_left1)
  also have "\<dots> \<le> of_int (2 ^ 30)" using assms(4) by (simp only: of_int_le_iff)
  finally have "\<bar>a\<bar> \<le> 2 ^ 1000" using a0 by simp
  then have "\<bar>r a - a\<bar> \<le> a / 2 ^ 53 + 1 / 2 ^ 1074" using ieee_error [OF assms(1), of a] unfolding abs_of_nonneg [OF a0] by blast
  then have "\<bar>r a - a\<bar> * m \<le> (a / 2 ^ 53 + 1 / 2 ^ 1074) * m" using m0 by (rule mult_right_mono)
  also have "\<dots> = a * m / 2 ^ 53 + m / 2 ^ 1074" by (simp add: distrib_right)
  also have "\<dots> \<le> 2 ^ 32 / 2 ^ 53 + 2 ^ 32 / 2 ^ 1074"
    using m assms(7) unfolding T by (intro add_mono divide_right_mono) simp_all
  also have "\<dots> \<le> 1 / 2 ^ 20" by simp
  finally have d: "\<bar>r a * m - a * m\<bar> \<le> 1 / 2 ^ 20" using m0 by (simp add: abs_mult left_diff_distrib [symmetric])
  have am: "0 \<le> a * m" "a * m \<le> 2 ^ 32" using a0 m0 assms(7) T by simp_all
  have "\<bar>r a * m\<bar> \<le> \<bar>r a * m - a * m\<bar> + \<bar>a * m\<bar>" by linarith
  also have "\<dots> \<le> 1 / 2 ^ 20 + 2 ^ 32" using d am by (intro add_mono) simp_all
  also have "\<dots> \<le> 2 ^ 33" by simp
  finally have "\<bar>r a * m\<bar> \<le> 2 ^ 33" .
  then have "\<bar>r (r a * m) - r a * m\<bar> \<le> 1 / 2 ^ 19" by (rule ieee_close [OF assms(1)]) simp_all
  then have "\<bar>r (r a * m) - a * m\<bar> \<le> 1 / 2 ^ 19 + 1 / 2 ^ 20" using d by linarith
  also have "\<dots> \<le> 1 / 2 ^ 18" by simp
  finally show ?thesis by (simp add: f_mul_def loop_audio_per_frame_def f_div_def T a_def m_def)
qed

lemma trunc_even:
  fixes d :: rat
  defines "b \<equiv> (if odd (f_trunc d) then f_trunc d + 1 else f_trunc d)"
  shows "even b" "2 \<le> b \<Longrightarrow> \<bar>of_int b - d\<bar> \<le> 1" "\<not> 2 \<le> b \<Longrightarrow> d < 1"
proof -
  show "even b" by (simp add: b_def)
  have nonneg: "0 \<le> d" if "0 < f_trunc d" using that by (rule_tac ccontr) (simp add: f_trunc_def)
  show "\<bar>of_int b - d\<bar> \<le> 1" if "2 \<le> b"
  proof -
    have "0 < f_trunc d" using that by (auto simp: b_def split: if_splits)
    then have "of_int (f_trunc d) \<le> d \<and> d < of_int (f_trunc d) + 1" using nonneg f_trunc_bounds by blast
    moreover have "b = f_trunc d \<or> b = f_trunc d + 1" by (simp add: b_def)
    ultimately show ?thesis by auto
  qed
  show "d < 1" if "\<not> 2 \<le> b"
  proof -
    have "f_trunc d \<le> 0" using that by (auto simp: b_def split: if_splits)
    then show ?thesis using f_trunc_bounds [of d] by (cases "0 \<le> d") auto
  qed
qed

lemma budget_near:
  assumes "ieee r" "0 < out_fps cfg" "0 \<le> audio_rate cfg" "audio_rate cfg \<le> 2 ^ 30" "0 \<le> n" "n < 2 ^ 32"
    "audio_due cfg (n + 1) \<le> 2 ^ 32" "near (audio_due cfg n) sent"
  obtains b where "frame_audio_bytes r (loop_audio_per_frame r cfg) n sent = Some b" "even b"
    "near (audio_due cfg (n + 1)) (if 2 \<le> b then sent + b else sent)"
proof -
  define x where "x = f_mul r (loop_audio_per_frame r cfg) (of_int (n + 1))"
  define d where "d = f_sub r x (of_int sent)"
  define a where "a = (of_int (audio_rate cfg) / of_int (out_fps cfg) :: rat)"
  have a0: "0 \<le> a" "a \<le> 2 ^ 30"
  proof -
    show "0 \<le> a" using assms by (simp add: a_def)
    have "a \<le> of_int (audio_rate cfg)" using assms(2,3) by (simp add: a_def divide_le_eq mult_le_cancel_left1)
    also have "\<dots> \<le> of_int (2 ^ 30)" using assms(4) by (simp only: of_int_le_iff)
    finally show "a \<le> 2 ^ 30" by simp
  qed
  have due: "audio_due cfg (n + 1) = audio_due cfg n + a"
    by (simp add: audio_due_def a_def distrib_left add_divide_distrib)
  have x: "\<bar>x - audio_due cfg (n + 1)\<bar> \<le> 1 / 2 ^ 18"
    unfolding x_def by (rule due_rounded) (use assms in simp_all)
  have near: "\<bar>of_int sent - audio_due cfg n\<bar> \<le> 1 + 1 / 2 ^ 16" using assms(8) by (simp add: near_def)
  have small: "1 / 2 ^ 18 \<le> (1 / 4 :: rat)" "1 / 2 ^ 16 \<le> (1 / 4 :: rat)" "1 / 2 ^ 20 \<le> (1 / 4 :: rat)" by simp_all
  have D: "x - of_int sent \<le> 2 ^ 30 + 2" "- 2 \<le> x - of_int sent"
    using x near due a0 small by linarith+
  then have "\<bar>x - of_int sent\<bar> \<le> 2 ^ 31" by simp
  then have d: "\<bar>d - (x - of_int sent)\<bar> \<le> 1 / 2 ^ 20"
    unfolding d_def f_sub_def by (rule ieee_close [OF assms(1)]) simp_all
  have t: "- (2 ^ 31) \<le> f_trunc d" "f_trunc d < 2 ^ 31"
  proof -
    have "- 3 \<le> d" "d \<le> 2 ^ 30 + 3" using d D small by linarith+
    then show "- (2 ^ 31) \<le> f_trunc d" "f_trunc d < 2 ^ 31"
      using f_trunc_range [of "- (2 ^ 31)" d "2 ^ 31"] by simp_all
  qed
  define b where "b = (if odd (f_trunc d) then f_trunc d + 1 else f_trunc d)"
  have f: "frame_audio_bytes r (loop_audio_per_frame r cfg) n sent = Some b"
    using t unfolding frame_audio_bytes_def x_def [symmetric] d_def [symmetric] b_def
    by (simp add: double_to_int_def)
  have "\<bar>of_int (if 2 \<le> b then sent + b else sent) - audio_due cfg (n + 1)\<bar> \<le> 1 + 1 / 2 ^ 16"
  proof (cases "2 \<le> b")
    case True
    then have "\<bar>of_int b - d\<bar> \<le> 1" using trunc_even(2) [of d] by (simp add: b_def)
    then have "\<bar>of_int sent + of_int b - audio_due cfg (n + 1)\<bar> \<le> 1 + 1 / 2 ^ 20 + 1 / 2 ^ 18" using x d by linarith
    also have "\<dots> \<le> 1 + 1 / 2 ^ 16" by simp
    finally show ?thesis using True by simp
  next
    case False
    then have "d < 1" using trunc_even(3) [of d] by (simp add: b_def)
    then have "audio_due cfg (n + 1) - of_int sent \<le> 1 + 1 / 2 ^ 20 + 1 / 2 ^ 18" using x d by linarith
    also have "\<dots> \<le> 1 + 1 / 2 ^ 16" by simp
    finally have "audio_due cfg (n + 1) - of_int sent \<le> 1 + 1 / 2 ^ 16" .
    then have "\<bar>of_int sent - audio_due cfg (n + 1)\<bar> \<le> 1 + 1 / 2 ^ 16" using near due a0(1) by linarith
    then show ?thesis using False by simp
  qed
  then show thesis using that [of b] f trunc_even(1) [of d, folded b_def] unfolding near_def by blast
qed

text \<open>A turn without main video and main audio never fails and sends the whole budget.\<close>

lemma quiet_turn:
  assumes "\<not> main_video cfg" "\<not> main_audio cfg" "even b"
    "frame_audio_bytes (lo_rnd ops) (loop_audio_per_frame (lo_rnd ops) cfg) (l_num s) (l_sent s) = Some b"
  shows "\<exists>out lv' s' w'. frame_turn fuel ops cfg si lv s w = Some ((TurnGoes, out), lv', s', w')
    \<and> to_frame_out out \<and> l_num s' = l_num s \<and> l_sent s' = (if 2 \<le> b then to_i32 (l_sent s + b) else l_sent s)"
proof -
  obtain ps w1 where ps: "material_audios ops (lv_product (new_product 0 lv)) b 0 (lv_mlist (new_product 0 lv)) w = (ps, w1)"
    by fastforce
  obtain so sub1 where sub: "substream_turn (lo_rnd ops) (out_fps cfg) (l_num s) (lv_sub lv) = (so, sub1)" by fastforce
  have np: "new_product 0 lv = lv" by (simp add: new_product_def)
  have "2 \<le> b \<Longrightarrow> c_div b 2 = b div 2 \<and> 0 \<le> b div 2 \<and> 2 * (b div 2) = b" using assms(3) by (simp add: c_div_def)
  then show ?thesis using assms(1,2) ps sub
    by (auto simp: frame_turn_def assms(4) read_turn_def np pick_main_audio_def mix_turn_def mix_into_def count_sent_def
        end_of_stream_def Let_def length_mverge_audio)
qed

lemma main_turn_goesD:
  assumes "main_turn fuel ops cfg om e si cmds lm s w = Some ((TurnGoes, out), lm1, s1, w1)"
  obtains lv lv1 where "frame_turn fuel ops cfg si lv (s\<lparr>l_num := l_num s + 1\<rparr>) w = Some ((TurnGoes, out), lv1, s1, w1)"
    "commands_turn om (e\<lparr>le_num := l_num s + 1, le_fps := out_fps cfg\<rparr>) cmds (fst lm) (snd lm) = Some (lv, snd lm1)"
    "lv1 = fst lm1"
  using assms by (auto simp: main_turn_def Let_def split: if_splits option.splits prod.splits)

lemma audio_due_mono:
  "0 < out_fps cfg \<Longrightarrow> 0 \<le> audio_rate cfg \<Longrightarrow> m \<le> n \<Longrightarrow> audio_due cfg m \<le> audio_due cfg n"
  unfolding audio_due_def by (intro divide_right_mono) (simp_all add: mult_left_mono flip: of_int_mult)

definition loop_sane :: "rounding \<Rightarrow> loop_cfg \<Rightarrow> bool" where
  "loop_sane r cfg \<longleftrightarrow> ieee r \<and> 0 < out_fps cfg \<and> 0 \<le> audio_rate cfg \<and> audio_rate cfg \<le> 2 ^ 30"

lemma quiet_main_turn:
  assumes "loop_sane (lo_rnd ops) cfg" "\<not> main_video cfg" "\<not> main_audio cfg" "- 1 \<le> l_num s" "l_num s + 2 < 2 ^ 32"
    "audio_due cfg (l_num s + 2) \<le> 2 ^ 32" "near (audio_due cfg (l_num s + 1)) (l_sent s)"
    "main_turn fuel ops cfg om e si cmds lm s w = Some ((TurnGoes, out), lm1, s1, w1)"
  shows "l_num s1 = l_num s + 1"
    "\<exists>v. near (audio_due cfg (l_num s + 2)) v \<and> (l_sent s1 = to_i32 v \<or> l_sent s1 = v \<and> v = l_sent s)"
proof -
  obtain b where b: "frame_audio_bytes (lo_rnd ops) (loop_audio_per_frame (lo_rnd ops) cfg) (l_num s + 1) (l_sent s) = Some b"
    "even b" "near (audio_due cfg (l_num s + 1 + 1)) (if 2 \<le> b then l_sent s + b else l_sent s)"
    by (rule budget_near [of "lo_rnd ops" cfg "l_num s + 1" "l_sent s"])
      (use assms in \<open>simp_all add: loop_sane_def add.commute\<close>)
  obtain lv lv1 where f: "frame_turn fuel ops cfg si lv (s\<lparr>l_num := l_num s + 1\<rparr>) w = Some ((TurnGoes, out), lv1, s1, w1)"
    using main_turn_goesD [OF assms(8)] by metis
  from quiet_turn [OF assms(2,3) b(2), of ops "s\<lparr>l_num := l_num s + 1\<rparr>" fuel si lv w] b(1) f
  have s1: "l_num s1 = l_num s + 1" "l_sent s1 = (if 2 \<le> b then to_i32 (l_sent s + b) else l_sent s)" by auto
  show "l_num s1 = l_num s + 1" by (rule s1)
  show "\<exists>v. near (audio_due cfg (l_num s + 2)) v \<and> (l_sent s1 = to_i32 v \<or> l_sent s1 = v \<and> v = l_sent s)"
    using b(3) s1(2) by (intro exI [of _ "if 2 \<le> b then l_sent s + b else l_sent s"]) (auto simp: add.commute)
qed

lemma near_int:
  assumes "near t v" "- 1 \<le> t" "t \<le> of_int n"
  shows "- 2 \<le> v" "v \<le> n + 1"
proof -
  have "(of_int v :: rat) < of_int (n + 2)" "of_int (- 3) < (of_int v :: rat)"
  proof -
    have "1 + 1 / 2 ^ 16 < (2 :: rat)" by simp
    then have "\<bar>of_int v - t\<bar> < 2" using assms(1) unfolding near_def by linarith
    then show "(of_int v :: rat) < of_int (n + 2)" "of_int (- 3) < (of_int v :: rat)"
      using assms(2,3) by simp_all
  qed
  then show "- 2 \<le> v" "v \<le> n + 1" by (simp_all only: of_int_less_iff)
qed

lemma audio_keeps_up_from:
  assumes "loop_sane (lo_rnd ops) cfg" "\<not> main_video cfg" "\<not> main_audio cfg"
    "main_loop fuel ops cfg om e si cmdss lm s w = Some (outs, lm', s', w')"
    "\<forall>o' \<in> set outs. fst o' = TurnGoes" "- 1 \<le> l_num s" "l_num s + int (length cmdss) + 2 < 2 ^ 32"
    "audio_due cfg (l_num s + int (length cmdss) + 1) \<le> 2 ^ 31 - 2" "near (audio_due cfg (l_num s + 1)) (l_sent s)"
  shows "near (audio_due cfg (l_num s + int (length cmdss) + 1)) (l_sent s')"
  using assms(4-9)
proof (induction cmdss arbitrary: lm s w outs)
  case (Cons cmds rest)
  obtain out lm1 s1 w1 outs2 where t: "main_turn fuel ops cfg om e si cmds lm s w = Some ((TurnGoes, out), lm1, s1, w1)"
    "main_loop fuel ops cfg om e si rest lm1 s1 w1 = Some (outs2, lm', s', w')" "\<forall>o' \<in> set outs2. fst o' = TurnGoes"
    using Cons.prems(1,2) by (auto split: option.splits if_splits prod.splits)
  have due: "audio_due cfg (l_num s + 2) \<le> 2 ^ 31 - 2" "0 \<le> audio_due cfg (l_num s + 2)"
    using audio_due_mono [of cfg "l_num s + 2" "l_num s + int (length (cmds # rest)) + 1"]
      audio_due_mono [of cfg 0 "l_num s + 2"] assms(1) Cons.prems
    by (simp_all add: loop_sane_def audio_due_def)
  note q = quiet_main_turn [OF assms(1-3) Cons.prems(3) _ _ Cons.prems(6) t(1)]
  have "l_num s1 = l_num s + 1" using q(1) Cons.prems(4) due by simp
  moreover have "near (audio_due cfg (l_num s + 2)) (l_sent s1)"
  proof -
    obtain v where v: "near (audio_due cfg (l_num s + 2)) v" "l_sent s1 = to_i32 v \<or> l_sent s1 = v \<and> v = l_sent s"
      using q(2) Cons.prems(4) due by auto
    have "- 2 \<le> v" "v \<le> 2 ^ 31 - 1" using near_int [OF v(1), of "2 ^ 31 - 2"] due by simp_all
    then have "to_i32 v = v" by (simp add: to_i32_id)
    then show ?thesis using v by auto
  qed
  ultimately have "near (audio_due cfg (l_num s1 + int (length rest) + 1)) (l_sent s')"
    using Cons.prems(3-5) by (intro Cons.IH [OF t(2,3)]) (simp_all add: algebra_simps)
  then show ?case using \<open>l_num s1 = l_num s + 1\<close> by (simp add: algebra_simps)
qed simp

lemma to_i32_wrap: "2 ^ 31 \<le> x \<Longrightarrow> x < 2 ^ 32 + 2 ^ 31 \<Longrightarrow> to_i32 x = x - 2 ^ 32"
  using minus_mod_self2 [of "x + 2 ^ 31" "2 ^ 32"] by (simp add: to_i32_def mod_pos_pos_trivial del: minus_mod_self2)

lemma no_command: "mb_slot mb = None \<Longrightarrow> commands_turn om e [] lv mb = Some (lv\<lparr>lv_new := [], lv_modified := False\<rparr>, mb)"
  by (simp add: commands_turn_def check_open_materials_def Let_def)

definition loop_example :: loop_cfg where
  "loop_example = \<lparr>main_video = False, main_audio = False, raw_audio = False, out_fps = 25, reader_fps = 25, has_stream_io = False,
     shm_main = False, read_timeout = 3, audio_rate = 32000, mv_volume = 100, ma_volume = 100, reader_decodes_audio = False,
     total_frames = 10 ^ 7\<rparr>"

definition ops_example :: "(decoder option, nat) loop_ops" where
  "ops_example = \<lparr>lo_rnd = (\<lambda>x. x), lo_merge = decoder_merge (\<lambda>_ d. d), lo_separate = (\<lambda>_ w. ((1, None), w)),
     lo_read_audio = (\<lambda>_ w. ((-1, []), w)), lo_material_audio = (\<lambda>_ _ w. ((-1, []), w)), lo_picture = (\<lambda>b. Some (length b))\<rparr>"

definition live0 :: "material list \<Rightarrow> live \<times> mailbox" where
  "live0 ms = (\<lparr>lv_mlist = ms, lv_product = 0, lv_new = [], lv_sub = sub_example, lv_modified = False, lv_log = []\<rparr>,
     \<lparr>mb_slot = None, mb_waiting = [], mb_events = []\<rparr>)"

definition env0 :: live_env where
  "env0 = \<lparr>le_data_dir = ''/d'', le_sx = (\<lambda>v. v), le_sy = (\<lambda>v. v), le_atof_int = atoi, le_disable_opengl = True,
     le_fps = 25, le_num = 0, le_outputvideo = ''/o'', le_time = ''5'', le_mkfifo_ok = True\<rparr>"

lemma loop_example_sane: "loop_sane (\<lambda>x. x) (loop_example\<lparr>main_video := b, has_stream_io := c, audio_rate := 32000\<rparr>)"
  "loop_sane (\<lambda>x. x) loop_example" "loop_sane (\<lambda>x. x) (loop_example\<lparr>main_video := b\<rparr>)"
  "loop_sane (\<lambda>x. x) (loop_example\<lparr>audio_rate := 176400\<rparr>)"
  by (simp_all add: loop_sane_def ieee_exact loop_example_def)

lemma quiet_main_turn_runs:
  assumes "loop_sane (lo_rnd ops) cfg" "\<not> main_video cfg" "\<not> main_audio cfg" "- 1 \<le> l_num s" "l_num s + 2 < 2 ^ 32"
    "audio_due cfg (l_num s + 2) \<le> 2 ^ 32" "near (audio_due cfg (l_num s + 1)) (l_sent s)"
    "l_num s + 1 < total_frames cfg"
    "commands_turn om (e\<lparr>le_num := l_num s + 1, le_fps := out_fps cfg\<rparr>) cmds (fst lm) (snd lm) = Some (lv1, mb1)"
  shows "\<exists>out lm1 s1 w1. main_turn fuel ops cfg om e si cmds lm s w = Some ((TurnGoes, out), lm1, s1, w1) \<and> to_frame_out out"
proof -
  obtain b where b: "frame_audio_bytes (lo_rnd ops) (loop_audio_per_frame (lo_rnd ops) cfg) (l_num s + 1) (l_sent s) = Some b" "even b"
    by (rule budget_near [of "lo_rnd ops" cfg "l_num s + 1" "l_sent s"])
      (use assms in \<open>simp_all add: loop_sane_def add.commute\<close>)
  with quiet_turn [OF assms(2,3) b(2), of ops "s\<lparr>l_num := l_num s + 1\<rparr>" fuel si lv1 w]
  show ?thesis using assms(4,8,9) by (auto simp: main_turn_def Let_def)
qed

definition start_state :: "'i loop_state" where
  "start_state = \<lparr>l_num = - 1, l_ts = 0, l_timeouts = 0, l_first_ready = False, l_sent = 0, l_frames = [],
     l_cts = 0, l_tstep = 0\<rparr>"

text \<open>C26. Without a main video and a main audio, the audio sent by the loop follows the pictures
  without drift: after any number of turns, whatever commands they execute, it is the exact amount due
  (rate times frames over frame rate) to less than two bytes, in double arithmetic, until
  \<open>2 ^ 31\<close> bytes have been sent.\<close>

theorem audio_keeps_up:
  assumes "loop_sane (lo_rnd ops) cfg" "\<not> main_video cfg" "\<not> main_audio cfg"
    "main_loop fuel ops cfg om e si cmdss lm start_state w = Some (outs, lm', s', w')"
    "\<forall>o' \<in> set outs. fst o' = TurnGoes" "length cmdss < 2 ^ 31" "audio_due cfg (int (length cmdss)) \<le> 2 ^ 31 - 2"
  shows "\<bar>of_int (l_sent s') - audio_due cfg (int (length cmdss))\<bar> < 2"
proof -
  have "near (audio_due cfg (l_num (start_state :: 'b loop_state) + 1)) (l_sent (start_state :: 'b loop_state))"
    by (simp add: start_state_def near_def audio_due_def)
  from audio_keeps_up_from [OF assms(1-5) _ _ _ this] assms(6,7)
  have "near (audio_due cfg (int (length cmdss))) (l_sent s')" by (simp add: start_state_def)
  moreover have "1 + 1 / 2 ^ 16 < (2 :: rat)" by simp
  ultimately show ?thesis unfolding near_def by linarith
qed

theorem audio_keeps_up_witness:
  "\<exists>outs lm' s' w'. main_loop 0 ops_example loop_example Some env0 0 [[]] (live0 []) start_state None = Some (outs, lm', s', w')
    \<and> \<bar>of_int (l_sent s') - 1280 :: rat\<bar> < 2"
proof -
  obtain out lm1 s1 w1 where t: "main_turn 0 ops_example loop_example Some env0 0 [] (live0 []) start_state None =
      Some ((TurnGoes, out), lm1, s1, w1)"
    using quiet_main_turn_runs [of ops_example loop_example start_state Some env0 "[]" "live0 []" _ _ 0 0 None] loop_example_sane(2)
    by (simp add: ops_example_def) (auto simp: loop_example_def start_state_def live0_def no_command audio_due_def near_def)
  then have l: "main_loop 0 ops_example loop_example Some env0 0 [[]] (live0 []) start_state None = Some ([(TurnGoes, out)], lm1, s1, w1)"
    by simp
  have "\<bar>of_int (l_sent s1) - 1280 :: rat\<bar> < 2"
    using audio_keeps_up [OF _ _ _ l] loop_example_sane(2) by (simp add: ops_example_def loop_example_def audio_due_def)
  with l show ?thesis by blast
qed

text \<open>The count of the bytes sent is an \<^verbatim>\<open>int\<close>: in the turn in which the audio due passes
  \<open>2 ^ 31\<close> bytes (3.4 hours at 44100 Hz stereo, where a run may last a week) it wraps, and the
  next turn converts a double beyond the range of \<^verbatim>\<open>int\<close>, which is undefined.\<close>

lemma audio_count_overflows:
  assumes "loop_sane (lo_rnd ops) cfg" "\<not> main_video cfg" "\<not> main_audio cfg" "- 1 \<le> l_num s" "l_num s + 3 < 2 ^ 32"
    "near (audio_due cfg (l_num s + 1)) (l_sent s)" "l_sent s < 2 ^ 31" "2 ^ 31 + 2 \<le> audio_due cfg (l_num s + 2)"
    "audio_due cfg (l_num s + 3) \<le> 2 ^ 32 - 4"
    "main_turn fuel ops cfg om e si cmds lm s w = Some ((TurnGoes, out), lm1, s1, w1)"
  shows "l_sent s1 < 0 \<and> frame_turn fuel ops cfg si lv (s1\<lparr>l_num := l_num s1 + 1\<rparr>) w2 =
    Some ((TurnUndefined, no_output), lv, s1\<lparr>l_num := l_num s1 + 1\<rparr>, w2)"
proof -
  let ?r = "lo_rnd ops"
  have sane: "ieee ?r" "0 < out_fps cfg" "0 \<le> audio_rate cfg" "audio_rate cfg \<le> 2 ^ 30"
    using assms(1) by (simp_all add: loop_sane_def)
  have mono: "audio_due cfg (l_num s + 2) \<le> audio_due cfg (l_num s + 3)" using sane by (intro audio_due_mono) simp_all
  then have le: "audio_due cfg (l_num s + 2) \<le> 2 ^ 32" using assms(9) by simp
  note q = quiet_main_turn [OF assms(1-4) _ le assms(6,10)]
  obtain v where v: "near (audio_due cfg (l_num s + 2)) v" "l_sent s1 = to_i32 v \<or> l_sent s1 = v \<and> v = l_sent s"
    using q(2) assms(5) by auto
  have n: "\<bar>of_int v - audio_due cfg (l_num s + 2)\<bar> < 2"
    using v(1) unfolding near_def by (rule order_le_less_trans) simp
  have "(of_int (2 ^ 31) :: rat) < of_int v" using n assms(8) by simp
  moreover have "(of_int v :: rat) < of_int (2 ^ 32)" using n mono assms(9) by simp
  ultimately have "2 ^ 31 < v" "v < 2 ^ 32" by (simp_all only: of_int_less_iff)
  then have s1: "l_sent s1 = v - 2 ^ 32" using v(2) assms(7) to_i32_wrap [of v] by auto
  define x where "x = f_mul ?r (loop_audio_per_frame ?r cfg) (of_int (l_num s + 3))"
  have "\<bar>x - audio_due cfg (l_num s + 3)\<bar> \<le> 1 / 2 ^ 18"
    unfolding x_def by (rule due_rounded) (use sane assms(4,5,9) in simp_all)
  then have x: "\<bar>x - audio_due cfg (l_num s + 3)\<bar> \<le> 1" by (rule order_trans) simp
  define y where "y = x - of_int (l_sent s1)"
  have y: "2 ^ 32 - 3 \<le> y" "y \<le> 2 ^ 34" using x n mono assms(9) \<open>2 ^ 31 < v\<close> s1 by (simp_all add: y_def)
  have "\<bar>?r y - y\<bar> \<le> 1" by (rule ieee_close [OF sane(1), of y 34]) (use y in simp_all)
  then have "2 ^ 31 \<le> ?r y" using y(1) by simp
  then have "2 ^ 31 \<le> f_trunc (?r y)" by (simp add: f_trunc_def le_floor_iff)
  then have "frame_audio_bytes ?r (loop_audio_per_frame ?r cfg) (l_num s1 + 1) (l_sent s1) = None"
    using q(1) assms(5) by (simp add: frame_audio_bytes_def double_to_int_def Let_def f_sub_def x_def y_def add.commute)
  moreover have "l_sent s1 < 0" using s1 \<open>v < 2 ^ 32\<close> by simp
  ultimately show ?thesis by (simp add: frame_turn_def Let_def)
qed

lemma audio_count_overflows_example:
  "\<exists>out lm1 s1 w1. main_turn 0 ops_example (loop_example\<lparr>audio_rate := 176400\<rparr>) Some env0 0 [] (live0 [])
      (start_state\<lparr>l_num := 304347, l_sent := 2147479488\<rparr>) None = Some ((TurnGoes, out), lm1, s1, w1) \<and> l_sent s1 < 0"
proof -
  define cfg where "cfg = loop_example\<lparr>audio_rate := 176400\<rparr>"
  define s :: "nat loop_state" where "s = start_state\<lparr>l_num := 304347, l_sent := 2147479488\<rparr>"
  have c: "loop_sane (lo_rnd ops_example) cfg" "\<not> main_video cfg" "\<not> main_audio cfg" "out_fps cfg = 25" "audio_rate cfg = 176400"
    "total_frames cfg = 10 ^ 7" "l_num s = 304347" "l_sent s = 2147479488"
    using loop_example_sane(4) by (simp_all add: cfg_def s_def ops_example_def loop_example_def)
  obtain out lm1 s1 w1 where t: "main_turn 0 ops_example cfg Some env0 0 [] (live0 []) s None = Some ((TurnGoes, out), lm1, s1, w1)"
    using quiet_main_turn_runs [OF c(1-3), of s Some env0 "[]" "live0 []" _ _ 0 0 None] c(4-)
    by (auto simp: live0_def no_command audio_due_def near_def)
  have "l_sent s1 < 0 \<and> frame_turn 0 ops_example cfg 0 (fst (live0 [])) (s1\<lparr>l_num := l_num s1 + 1\<rparr>) None =
      Some ((TurnUndefined, no_output), fst (live0 []), s1\<lparr>l_num := l_num s1 + 1\<rparr>, None)"
    by (rule audio_count_overflows [OF c(1-3) _ _ _ _ _ _ t]) (use c(4-) in \<open>simp_all add: audio_due_def near_def\<close>)
  then show ?thesis using t unfolding cfg_def s_def by blast
qed

section \<open>Late and missing pictures\<close>

text \<open>A turn whose read of the main picture times out.\<close>

lemma timed_out_read:
  assumes "main_video cfg" "lo_merge ops (if can_wait cfg s then 1 else 0) w = ((1, None), w1)"
    "needs_adjust cfg (lo_rnd ops) \<Longrightarrow> 0 < fuel \<and> (l_frames s = [] \<or> f_add (lo_rnd ops) (l_cts s) (l_tstep s) < l_ts s)"
    "0 \<le> l_timeouts s"
  shows "read_turn fuel ops cfg budget s w = Some
    (if can_wait cfg s \<and> l_timeouts s \<ge> read_timeout cfg then (ReadFailed, s)
     else if can_wait cfg s then (ReadRetry, s\<lparr>l_timeouts := l_timeouts s + 1, l_num := l_num s - 1\<rparr>)
     else (ReadOk \<lparr>ti_frame = None, ti_video = [], ti_audio = [], ti_product = 0, ti_missing = False\<rparr>,
       s\<lparr>l_timeouts := l_timeouts s + 1\<rparr>), w1)"
proof (cases "needs_adjust cfg (lo_rnd ops)")
  case True
  then obtain k where "fuel = Suc k" using assms(3) by (cases fuel) auto
  then show ?thesis using assms True
    by (auto simp: read_turn_def read_main_video_def start_read_def store_read_def after_video_def read_failed_def Let_def)
next
  case False
  then show ?thesis using assms
    by (auto simp: read_turn_def read_main_video_def start_read_def store_read_def after_video_def read_failed_def plain_read_def Let_def)
qed

lemma empty_queue_read:
  assumes "m_q (videoQueue d) = []" "\<not> d_eof d" "error_ret d = 0"
  shows "\<exists>d'. read_loop (pop_wait videoQueue (\<lambda>q d. d\<lparr>videoQueue := q\<rparr>) 0 pause) 0 0 d = (1, None, d')"
  using assms by (subst read_loop.simps) (auto simp: pop_wait_def PopMove_def Let_def)

lemma empty_queue_times_out:
  assumes "m_q (videoQueue d) = []" "\<not> d_eof d" "error_ret d = 0"
  shows "\<exists>d'. decoder_merge pause 0 (Some d) = ((1, None), Some d')"
proof -
  let ?d = "if 0 < floor_size d then d\<lparr>videoQueue := snd (Floors (videoQueue d) (floor_size d))\<rparr> else d"
  have "m_q (videoQueue ?d) = []" using assms(1) by (simp add: Floors_def Let_def split: prod.split)
  moreover have "\<not> d_eof ?d" "error_ret ?d = 0" using assms(2,3) by simp_all
  ultimately obtain d' where "read_loop (pop_wait videoQueue (\<lambda>q d. d\<lparr>videoQueue := q\<rparr>) 0 pause) 0 0 ?d = (1, None, d')"
    using empty_queue_read by blast
  then show ?thesis using assms(2) by (simp add: decoder_merge_def read_thread_merge_data_def wait_ms_def)
qed

lemma c_div_two: "0 \<le> b \<Longrightarrow> c_div b 2 = b div 2"
  by (cases "b = 0") (simp_all add: c_div_def)



lemma waiting_turns:
  assumes "main_video cfg" "\<And>w. \<exists>w'. lo_merge ops 1 w = ((1, None), w')"
    "needs_adjust cfg (lo_rnd ops) \<Longrightarrow> 0 < fuel" "can_wait cfg s" "l_frames s = []" "0 \<le> l_timeouts s"
    "read_timeout cfg = l_timeouts s + int n" "mb_slot (snd lm) = None" "- 1 \<le> l_num s"
    "frame_audio_bytes (lo_rnd ops) (loop_audio_per_frame (lo_rnd ops) cfg) (l_num s + 1) (l_sent s) = Some budget"
  shows "\<exists>lm' s' w'. main_loop fuel ops cfg om e si (replicate (n + 1) [] @ rest) lm s w =
    Some (replicate n (TurnGoes, no_output) @ [(TurnFailed, no_output)], lm', s', w')"
  using assms(4-10)
proof (induction n arbitrary: lm s w)
  case 0
  obtain w1 where w1: "lo_merge ops 1 w = ((1, None), w1)" using assms(2) by blast
  have cw: "can_wait cfg (s\<lparr>l_num := l_num s + 1\<rparr>)" using 0 by (simp add: can_wait_def)
  have "read_turn fuel ops cfg budget (s\<lparr>l_num := l_num s + 1\<rparr>) w = Some ((ReadFailed, s\<lparr>l_num := l_num s + 1\<rparr>), w1)"
    using timed_out_read [of cfg ops "s\<lparr>l_num := l_num s + 1\<rparr>" w w1 fuel budget] assms(1,3) w1 cw 0 by simp
  then show ?case using 0 assms(1) by (simp add: main_turn_def frame_turn_def no_command Let_def)
next
  case (Suc n)
  obtain w1 where w1: "lo_merge ops 1 w = ((1, None), w1)" using assms(2) by blast
  have cw: "can_wait cfg (s\<lparr>l_num := l_num s + 1\<rparr>)" using Suc.prems by (simp add: can_wait_def)
  define s1 where "s1 = s\<lparr>l_timeouts := l_timeouts s + 1\<rparr>"
  have "read_turn fuel ops cfg budget (s\<lparr>l_num := l_num s + 1\<rparr>) w = Some ((ReadRetry, s1), w1)"
    using timed_out_read [of cfg ops "s\<lparr>l_num := l_num s + 1\<rparr>" w w1 fuel budget] assms(1,3) w1 cw Suc.prems
    by (simp add: s1_def)
  then have t: "main_turn fuel ops cfg om e si [] lm s w =
      Some ((TurnGoes, no_output), ((fst lm)\<lparr>lv_new := [], lv_modified := False\<rparr>, snd lm), s1, w1)"
    using Suc.prems assms(1) by (simp add: main_turn_def frame_turn_def no_command Let_def)
  have "\<exists>lm' s' w'. main_loop fuel ops cfg om e si (replicate (n + 1) [] @ rest)
      ((fst lm)\<lparr>lv_new := [], lv_modified := False\<rparr>, snd lm) s1 w1 =
    Some (replicate n (TurnGoes, no_output) @ [(TurnFailed, no_output)], lm', s', w')"
    by (rule Suc.IH) (use Suc.prems in \<open>simp_all add: s1_def can_wait_def\<close>)
  then show ?case using t by auto
qed

lemma first_budget:
  assumes "loop_sane r cfg"
  obtains b where "frame_audio_bytes r (loop_audio_per_frame r cfg) 0 0 = Some b"
proof -
  have "(of_int (audio_rate cfg) :: rat) \<le> of_int (2 ^ 30)" "(1::rat) \<le> of_int (out_fps cfg)"
    using assms unfolding loop_sane_def by (simp_all only: of_int_le_iff) simp
  then have "audio_due cfg 1 \<le> 2 ^ 32" using assms by (simp add: audio_due_def loop_sane_def divide_le_eq)
  then show thesis
    using budget_near [of r cfg 0 0] that assms by (auto simp: loop_sane_def near_def audio_due_def)
qed

text \<open>A main video that never delivers ends the program with an error, after exactly
  \<^verbatim>\<open>read_timeout\<close> turns without any output and one more read.\<close>

lemma missing_main_video_ends:
  assumes "loop_sane (lo_rnd ops) cfg" "main_video cfg" "\<And>w. \<exists>w'. lo_merge ops 1 w = ((1, None), w')" "0 < fuel"
    "0 < read_timeout cfg" "mb_slot (snd lm) = None"
  shows "\<exists>lm' s' w'. main_loop fuel ops cfg om e si (replicate (nat (read_timeout cfg) + 1) [] @ rest) lm start_state w =
    Some (replicate (nat (read_timeout cfg)) (TurnGoes, no_output) @ [(TurnFailed, no_output)], lm', s', w')"
proof -
  obtain b where "frame_audio_bytes (lo_rnd ops) (loop_audio_per_frame (lo_rnd ops) cfg) 0 0 = Some b"
    using first_budget [OF assms(1)] .
  then show ?thesis using assms(2-) by (intro waiting_turns [where budget = b]) (auto simp: start_state_def can_wait_def)
qed

lemma missing_main_video_ends_example:
  "\<exists>lm' s' w'. main_loop 1 (ops_example\<lparr>lo_merge := \<lambda>_ w. ((1, None), w)\<rparr>) (loop_example\<lparr>main_video := True\<rparr>) Some env0 0
      [[], [], [], []] (live0 []) start_state None =
    Some ([(TurnGoes, no_output), (TurnGoes, no_output), (TurnGoes, no_output), (TurnFailed, no_output)], lm', s', w')"
proof -
  define cfg where "cfg = loop_example\<lparr>main_video := True\<rparr>"
  define ops where "ops = ops_example\<lparr>lo_merge := \<lambda>_ w. ((1, None), w)\<rparr>"
  have c: "loop_sane (lo_rnd ops) cfg" "main_video cfg" "0 < read_timeout cfg" "nat (read_timeout cfg) = 3"
    using loop_example_sane(3) [of True] by (simp_all add: cfg_def ops_def ops_example_def) (simp_all add: loop_example_def)
  have main: "\<exists>lm' s' w'. main_loop 1 ops cfg Some env0 0 (replicate (nat (read_timeout cfg) + 1) [] @ []) (live0 []) start_state None =
    Some (replicate (nat (read_timeout cfg)) (TurnGoes, no_output) @ [(TurnFailed, no_output)], lm', s', w')"
    by (rule missing_main_video_ends [OF c(1,2) _ _ c(3)]) (simp_all add: ops_def live0_def)
  have r: "replicate (3 + 1) x @ [] = [x, x, x, x]" "replicate 3 y @ [z] = [y, y, y, z]" for x y z
    by (simp_all add: eval_nat_numeral)
  from main [unfolded c(4) r] show ?thesis unfolding cfg_def ops_def .
qed

section \<open>Static images\<close>

lemma frame_turn_drawn:
  assumes "frame_turn fuel ops cfg si lv s w = Some ((end, out), lv', s', w')"
  shows "lv_mlist lv' = lv_mlist lv"
    "to_drawn out = (if to_frame_out out then drawn_materials (lv_product lv') si (lv_mlist lv) else [])"
  using assms
  by (auto simp: frame_turn_def new_product_def no_output_def Let_def split: option.splits prod.splits read_end.splits if_splits)

text \<open>Every material is drawn once: into the background, or in each frame.\<close>

lemma static_and_frame_drawn:
  assumes "\<forall>m \<in> set ms. 0 < product_id m \<longrightarrow> not_static dis m"
  shows "static_drawn alpha dis ms @ drawn_materials product (static_count alpha dis ms) ms = filter (drawn product) ms"
proof -
  have "\<forall>m \<in> set (take (static_count alpha dis ms) ms). \<not> not_static dis m"
    by (induction ms) auto
  then have "filter (\<lambda>m. mtype m \<noteq> MT_MainAudio \<and> mtype m \<noteq> MT_Audio) (take (static_count alpha dis ms) ms) =
      filter (drawn product) (take (static_count alpha dis ms) ms)"
    by (intro filter_cong) (auto simp: drawn_def not_static_def)
  then show ?thesis unfolding static_drawn_def drawn_materials_def
    by (metis append_take_drop_id filter_append)
qed

lemma exec_del_found:
  assumes "find_index (cmd_matches c) (lv_mlist st) = Some i"
    "mtype (lv_mlist st ! i) \<noteq> MT_MainVideo" "mtype (lv_mlist st ! i) \<noteq> MT_MainAudio"
  shows "lv_mlist (exec_del e c st) = take i (lv_mlist st) @ drop (Suc i) (lv_mlist st)"
    "lv_new (exec_del e c st) = lv_new st" "lv_modified (exec_del e c st) = lv_modified st"
  using assms by (simp_all add: exec_del_def Let_def log_action_def)



end
