(* ===== verification/Overlap.thy ===== *)
theory Overlap
  imports Material_Parse C_Double
begin

text \<open>
  Putting pictures over each other (\<^verbatim>\<open>matops.cpp\<close>): the visible part of an image at a
  position, alpha blending over four channels and with a separate mask, plain copies, and the
  background made from the first picture. A matrix is its number of channels, its width and its rows
  of pixels; resizing and colour conversion are OpenCV's and parameters (\<open>ov_ops\<close>), as is
  what \<^verbatim>\<open>mixChannels\<close> does with a destination that was never allocated. Single precision
  arithmetic goes through the rounding \<open>ov_rnd\<close>. An exception of OpenCV is \<open>None\<close>; overflow of
  the position sums (positions near \<open>2 ^ 31\<close>) is not modelled.
\<close>

section \<open>Matrices\<close>

type_synonym pixel = "byte list"

record mat =
  mt_ch :: nat
  mt_cols :: int
  mt_px :: "pixel list list"

definition mt_rows :: "mat \<Rightarrow> int" where "mt_rows m = int (length (mt_px m))"

definition mat_none :: "mat \<Rightarrow> bool" where "mat_none m \<longleftrightarrow> mt_px m = [] \<or> mt_cols m \<le> 0"

definition mat_ok :: "mat \<Rightarrow> bool" where
  "mat_ok m \<longleftrightarrow> 0 \<le> mt_cols m \<and> (\<forall>row \<in> set (mt_px m). int (length row) = mt_cols m \<and> (\<forall>p \<in> set row. length p = mt_ch m))"

record ov_ops =
  ov_rnd :: rounding
  ov_resize :: "mat \<Rightarrow> int \<Rightarrow> int \<Rightarrow> mat"
  ov_to_bgra :: "mat \<Rightarrow> mat"
  ov_to_bgr :: "mat \<Rightarrow> mat"
  ov_split :: "mat \<Rightarrow> mat \<times> mat"
  ov_mix_unallocated :: "mat \<Rightarrow> mat \<Rightarrow> mat option"
  ov_join :: "int \<Rightarrow> int \<Rightarrow> mat \<Rightarrow> mat \<Rightarrow> mat option"

section \<open>The visible part\<close>

record region =
  newx :: int
  newy :: int
  neww :: int
  newh :: int
  imgx :: int
  imgy :: int

definition overlap_rect :: "int \<Rightarrow> int \<Rightarrow> int \<Rightarrow> int \<Rightarrow> int \<Rightarrow> int \<Rightarrow> region option" where
  "overlap_rect base_cols base_rows cols rows x y =
     (let (nx, w0, ix) = (if x < 0 then (0, cols + x, - x) else (x, cols, 0));
          (ny, h0, iy) = (if y < 0 then (0, rows + y, - y) else (y, rows, 0));
          w1 = (if nx + w0 > base_cols then base_cols - nx else w0);
          h1 = (if ny + h0 > base_rows then base_rows - ny else h0)
      in if 0 < w1 \<and> 0 < h1
         then Some \<lparr>newx = nx, newy = ny, neww = w1, newh = h1, imgx = ix, imgy = iy\<rparr> else None)"

definition needs_resize :: "mat \<Rightarrow> int \<Rightarrow> int \<Rightarrow> bool" where
  "needs_resize img w h \<longleftrightarrow> (w \<noteq> 0 \<and> w \<noteq> mt_cols img) \<or> (h \<noteq> 0 \<and> h \<noteq> mt_rows img)"

definition fit :: "ov_ops \<Rightarrow> mat \<Rightarrow> mat \<Rightarrow> int \<Rightarrow> int \<Rightarrow> mat" where
  "fit ops img m w h =
     (if needs_resize img w h
      then ov_resize ops m (if w = 0 then mt_cols img else w) (if h = 0 then mt_rows img else h) else m)"

text \<open>The image, resized when needed (also for the caller), and the rectangles.\<close>

definition GetOverlapMatries :: "ov_ops \<Rightarrow> mat \<Rightarrow> mat \<Rightarrow> int \<Rightarrow> int \<Rightarrow> int \<Rightarrow> int \<Rightarrow> mat \<times> region option" where
  "GetOverlapMatries ops base img x y w h =
     (let img' = fit ops img img w h
      in (img', overlap_rect (mt_cols base) (mt_rows base) (mt_cols img') (mt_rows img') x y))"

text \<open>Writing a row of the visible part back into the base, row by row.\<close>

definition seg :: "int \<Rightarrow> int \<Rightarrow> 'a list \<Rightarrow> 'a list" where "seg a n xs = take (nat n) (drop (nat a) xs)"

definition put_seg :: "int \<Rightarrow> 'a list \<Rightarrow> 'a list \<Rightarrow> 'a list" where
  "put_seg a ys xs = take (nat a) xs @ ys @ drop (nat a + length ys) xs"

definition over_row :: "('p list \<Rightarrow> pixel list \<Rightarrow> pixel list) \<Rightarrow> region \<Rightarrow> 'p list list \<Rightarrow> int \<Rightarrow> pixel list \<Rightarrow> pixel list" where
  "over_row rowf rc fg i row =
     (if newy rc \<le> i \<and> i < newy rc + newh rc
      then put_seg (newx rc) (rowf (seg (imgx rc) (neww rc) (fg ! nat (i - newy rc + imgy rc))) (seg (newx rc) (neww rc) row)) row
      else row)"

definition over_rows :: "('p list \<Rightarrow> pixel list \<Rightarrow> pixel list) \<Rightarrow> region \<Rightarrow> 'p list list \<Rightarrow> mat \<Rightarrow> mat" where
  "over_rows rowf rc fg base = base\<lparr>mt_px := map (\<lambda>i. over_row rowf rc fg (int i) (mt_px base ! i)) [0..<length (mt_px base)]\<rparr>"

section \<open>Blending\<close>

definition blend_channel :: "rounding \<Rightarrow> byte \<Rightarrow> byte \<Rightarrow> byte \<Rightarrow> byte" where
  "blend_channel r a d s =
     (let alpha = f_div r (of_int (uint a)) 255;
          beta = f_sub r 1 alpha
      in word_of_int (f_trunc (f_add r (f_mul r beta (of_int (uint d))) (f_mul r alpha (of_int (uint s))))))"

definition bgra_px :: "rounding \<Rightarrow> pixel \<Rightarrow> pixel \<Rightarrow> pixel" where
  "bgra_px r s d = map2 (blend_channel r (s ! 3)) d s"

text \<open>Four pixels at a time: all opaque, all transparent, or blended; then the rest.\<close>

definition bgra_block :: "rounding \<Rightarrow> pixel list \<Rightarrow> pixel list \<Rightarrow> pixel list" where
  "bgra_block r ss ds =
     (if \<forall>s \<in> set ss. s ! 3 = 255 then ss else if \<exists>s \<in> set ss. s ! 3 \<noteq> 0 then map2 (bgra_px r) ss ds else ds)"

fun bgra_row :: "rounding \<Rightarrow> pixel list \<Rightarrow> pixel list \<Rightarrow> pixel list" where
  "bgra_row r ss ds =
     (if length ss < 4 then map2 (bgra_px r) ss ds
      else bgra_block r (take 4 ss) (take 4 ds) @ bgra_row r (drop 4 ss) (drop 4 ds))"

declare bgra_row.simps [simp del]

definition OverlapBGRAImageBGRA :: "ov_ops \<Rightarrow> mat \<Rightarrow> mat \<Rightarrow> int \<Rightarrow> int \<Rightarrow> int \<Rightarrow> int \<Rightarrow> mat \<times> mat" where
  "OverlapBGRAImageBGRA ops base img x y w h =
     (case GetOverlapMatries ops base img x y w h of (img', rc) \<Rightarrow>
        (case rc of None \<Rightarrow> base | Some rc \<Rightarrow> over_rows (bgra_row (ov_rnd ops)) rc (mt_px img') base, img'))"

text \<open>A pixel under a mask: solid above 240, left alone up to 10, blended between.\<close>

definition bgrm_px :: "rounding \<Rightarrow> pixel \<times> byte \<Rightarrow> pixel \<Rightarrow> pixel" where
  "bgrm_px r p d = (case p of (s, a) \<Rightarrow>
     if 240 < uint a then s else if 10 < uint a then map2 (blend_channel r a) d s else d)"

definition bgrm_half :: "rounding \<Rightarrow> (pixel \<times> byte) list \<Rightarrow> pixel list \<Rightarrow> pixel list" where
  "bgrm_half r ps ds =
     (if \<forall>p \<in> set ps. snd p = 255 then map fst ps
      else if \<exists>p \<in> set ps. snd p \<noteq> 0 then map2 (bgrm_px r) ps ds else ds)"

definition bgrm_block :: "rounding \<Rightarrow> (pixel \<times> byte) list \<Rightarrow> pixel list \<Rightarrow> pixel list" where
  "bgrm_block r ps ds =
     (if \<forall>p \<in> set ps. snd p = 255 then map fst ps
      else if \<exists>p \<in> set ps. snd p \<noteq> 0
        then bgrm_half r (take 8 ps) (take 8 ds) @ bgrm_half r (drop 8 ps) (drop 8 ds)
      else ds)"

fun bgrm_row :: "rounding \<Rightarrow> (pixel \<times> byte) list \<Rightarrow> pixel list \<Rightarrow> pixel list" where
  "bgrm_row r ps ds =
     (if length ps < 16 then map2 (bgrm_px r) ps ds
      else bgrm_block r (take 16 ps) (take 16 ds) @ bgrm_row r (drop 16 ps) (drop 16 ds))"

declare bgrm_row.simps [simp del]

text \<open>The mask has one channel; it must cover the visible part of the image.\<close>

definition with_mask :: "mat \<Rightarrow> mat \<Rightarrow> (pixel \<times> byte) list list" where
  "with_mask img msk = map2 (\<lambda>row mrow. zip row (map hd mrow)) (mt_px img) (mt_px msk)"

definition OverlapImageBGRM ::
  "ov_ops \<Rightarrow> mat \<Rightarrow> mat \<Rightarrow> mat \<Rightarrow> int \<Rightarrow> int \<Rightarrow> int \<Rightarrow> int \<Rightarrow> (mat \<times> mat \<times> mat) option" where
  "OverlapImageBGRM ops base img msk x y w h =
     (if mt_ch base = 4 then
        (case ov_mix_unallocated ops img msk of
           None \<Rightarrow> None
         | Some bgra \<Rightarrow> Some (fst (OverlapBGRAImageBGRA ops base bgra x y w h), img, msk))
      else
        let msk' = fit ops img msk w h
        in case GetOverlapMatries ops base img x y w h of (img', rc) \<Rightarrow>
          (case rc of
             None \<Rightarrow> Some (base, img', msk')
           | Some rc \<Rightarrow>
               if imgx rc + neww rc \<le> mt_cols msk' \<and> imgy rc + newh rc \<le> mt_rows msk'
               then Some (over_rows (bgrm_row (ov_rnd ops)) rc (with_mask img' msk') base, img', msk')
               else None))"

definition OverlapImageBGRA :: "ov_ops \<Rightarrow> mat \<Rightarrow> mat \<Rightarrow> int \<Rightarrow> int \<Rightarrow> int \<Rightarrow> int \<Rightarrow> (mat \<times> mat) option" where
  "OverlapImageBGRA ops base img x y w h =
     (if mt_ch base = 4 then Some (OverlapBGRAImageBGRA ops base img x y w h)
      else case ov_split ops img of (bgr, msk) \<Rightarrow>
        (case OverlapImageBGRM ops base bgr msk x y w h of None \<Rightarrow> None | Some (base', _, _) \<Rightarrow> Some (base', img)))"

definition OverlapImageBGR :: "ov_ops \<Rightarrow> mat \<Rightarrow> mat \<Rightarrow> int \<Rightarrow> int \<Rightarrow> int \<Rightarrow> int \<Rightarrow> mat \<times> mat" where
  "OverlapImageBGR ops base img x y w h =
     (let img1 = (if mt_ch base = 4 \<and> mt_ch img = 3 then ov_to_bgra ops img
                    else if mt_ch base = 3 \<and> mt_ch img = 4 then ov_to_bgr ops img else img)
      in case GetOverlapMatries ops base img1 x y w h of (img', rc) \<Rightarrow>
        (case rc of None \<Rightarrow> base | Some rc \<Rightarrow> over_rows (\<lambda>f d. f) rc (mt_px img') base, img'))"

definition OverlapImage_at ::
  "ov_ops \<Rightarrow> ColorType \<Rightarrow> mat \<Rightarrow> mat \<Rightarrow> mat \<Rightarrow> int \<Rightarrow> int \<Rightarrow> int \<Rightarrow> int \<Rightarrow> (mat \<times> mat \<times> mat) option" where
  "OverlapImage_at ops ft base img msk x y w h =
     (case ft of
        FT_BGR \<Rightarrow> (case OverlapImageBGR ops base img x y w h of (b, i) \<Rightarrow> Some (b, i, msk))
      | FT_BGRA \<Rightarrow> (case OverlapImageBGRA ops base img x y w h of None \<Rightarrow> None | Some (b, i) \<Rightarrow> Some (b, i, msk))
      | FT_BGRM \<Rightarrow> OverlapImageBGRM ops base img msk x y w h
      | _ \<Rightarrow> Some (base, img, msk))"

definition black :: "nat \<Rightarrow> int \<Rightarrow> int \<Rightarrow> mat" where
  "black chn w h = \<lparr>mt_ch = chn, mt_cols = w, mt_px = replicate (nat h) (replicate (nat w) (replicate chn 0))\<rparr>"

text \<open>The overlay of a material on a background that may still be empty.\<close>

definition OverlapImage ::
  "ov_ops \<Rightarrow> ColorType \<Rightarrow> cv_rect \<Rightarrow> mat \<Rightarrow> int \<Rightarrow> int \<Rightarrow> mat \<Rightarrow> mat \<Rightarrow> bool \<Rightarrow> (mat \<times> mat \<times> mat) option" where
  "OverlapImage ops ft rc base display_width display_height img msk output_alpha =
     (if mat_none base then
        if rx rc = 0 \<and> ry rc = 0 \<and> rwidth rc = display_width \<and> rheight rc = display_height then
          (let img' = (if mt_cols img \<noteq> display_width \<or> mt_rows img \<noteq> display_height
                         then ov_resize ops img display_width display_width else img)
           in if output_alpha then
                if mat_none msk then Some (if mt_ch img' = 3 then ov_to_bgra ops img' else img', img', msk)
                else (case ov_join ops display_width display_height img' msk of None \<Rightarrow> None | Some b \<Rightarrow> Some (b, img', msk))
              else Some (if mt_ch img' = 4 then ov_to_bgr ops img' else img', img', msk))
        else OverlapImage_at ops ft (black (if output_alpha then 4 else 3) display_width display_height) img msk
               (rx rc) (ry rc) (rwidth rc) (rheight rc)
      else OverlapImage_at ops ft base img msk (rx rc) (ry rc) (rwidth rc) (rheight rc))"

end
