(* ===== verification/Overlap_Thms.thy ===== *)
theory Overlap_Thms
  imports Overlap
begin

text \<open>
  The overlay functions: the visible part is the intersection of image and base, the block-wise
  row routines compute what blending pixel by pixel does, blended values never leave the range of
  a byte, and a first full-screen picture of the wrong size makes a background of the wrong size.
\<close>

section \<open>Single precision\<close>

text \<open>What the blending needs of single precision: integers up to \<open>2 ^ 24\<close> are exact, and the error is at
  most \<open>2 ^ -24\<close> relatively (plus the smallest numbers).\<close>

definition ieee32 :: "rounding \<Rightarrow> bool" where
  "ieee32 r \<longleftrightarrow> (\<forall>i. \<bar>i\<bar> \<le> 2 ^ 24 \<longrightarrow> r (of_int i) = of_int i)
     \<and> (\<forall>x. \<bar>x\<bar> \<le> 2 ^ 100 \<longrightarrow> \<bar>r x - x\<bar> \<le> \<bar>x\<bar> / 2 ^ 24 + 1 / 2 ^ 149)"

lemma ieee32_exact: "ieee32 (\<lambda>x. x)"
  by (simp add: ieee32_def)

lemma ieee32_int: "ieee32 r \<Longrightarrow> \<bar>i\<bar> \<le> 2 ^ 24 \<Longrightarrow> r (of_int i) = of_int i"
  by (simp add: ieee32_def)

lemma ieee32_0: "ieee32 r \<Longrightarrow> r 0 = 0" and ieee32_1: "ieee32 r \<Longrightarrow> r 1 = 1"
  using ieee32_int [of r 0] ieee32_int [of r 1] by simp_all

lemma byte_range: "0 \<le> uint (b :: byte)" "uint (b :: byte) < 256" "\<bar>uint (b :: byte)\<bar> \<le> 2 ^ 24"
  using uint_lt2p [of b] by simp_all

lemma byte_exact: "ieee32 r \<Longrightarrow> r (unsigned (b :: byte)) = unsigned b"
  using ieee32_int [OF _ byte_range(3), of r b] by simp

lemma f_trunc_byte: "f_trunc (unsigned (b :: byte)) = uint b"
  using f_trunc_of_int [of "uint b"] by simp

lemma blend_opaque: "ieee32 r \<Longrightarrow> blend_channel r 255 d s = s"
  by (simp add: blend_channel_def f_add_def f_sub_def f_mul_def f_div_def ieee32_0 ieee32_1 byte_exact f_trunc_byte Let_def)

lemma blend_transparent: "ieee32 r \<Longrightarrow> blend_channel r 0 d s = d"
  by (simp add: blend_channel_def f_add_def f_sub_def f_mul_def f_div_def ieee32_0 ieee32_1 byte_exact f_trunc_byte Let_def)

section \<open>The block routines\<close>

lemma map2_right: "length xs = length ys \<Longrightarrow> (\<And>x y. (x, y) \<in> set (zip xs ys) \<Longrightarrow> f x y = y) \<Longrightarrow> map2 f xs ys = ys"
  by (induction xs ys rule: list_induct2) auto

lemma map2_left: "length xs = length ys \<Longrightarrow> (\<And>x y. (x, y) \<in> set (zip xs ys) \<Longrightarrow> f x y = x) \<Longrightarrow> map2 f xs ys = xs"
  by (induction xs ys rule: list_induct2) auto

lemma bgra_px_opaque: "ieee32 r \<Longrightarrow> s ! 3 = 255 \<Longrightarrow> length d = length s \<Longrightarrow> bgra_px r s d = s"
  unfolding bgra_px_def by (intro map2_right) (simp_all add: blend_opaque)

lemma bgra_px_transparent: "ieee32 r \<Longrightarrow> s ! 3 = 0 \<Longrightarrow> length d = length s \<Longrightarrow> bgra_px r s d = d"
  unfolding bgra_px_def by (intro map2_left) (simp_all add: blend_transparent)

definition four :: "pixel list \<Rightarrow> bool" where "four ps \<longleftrightarrow> (\<forall>p \<in> set ps. length p = 4)"

lemma bgra_block_reference:
  assumes "ieee32 r" "length ss = length ds" "four ss" "four ds"
  shows "bgra_block r ss ds = map2 (bgra_px r) ss ds"
proof -
  have l: "length s = 4 \<and> length d = 4" if "(s, d) \<in> set (zip ss ds)" for s d
    using that assms(3,4) by (auto simp: four_def dest: set_zip_leftD set_zip_rightD)
  have "map2 (bgra_px r) ss ds = ss" if a: "\<forall>s \<in> set ss. s ! 3 = 255"
  proof (rule map2_left [OF assms(2)])
    show "bgra_px r s d = s" if "(s, d) \<in> set (zip ss ds)" for s d
      using a l [OF that] set_zip_leftD [OF that] assms(1) by (intro bgra_px_opaque) simp_all
  qed
  moreover have "map2 (bgra_px r) ss ds = ds" if a: "\<forall>s \<in> set ss. s ! 3 = 0"
  proof (rule map2_right [OF assms(2)])
    show "bgra_px r s d = d" if "(s, d) \<in> set (zip ss ds)" for s d
      using a l [OF that] set_zip_leftD [OF that] assms(1) by (intro bgra_px_transparent) simp_all
  qed
  ultimately show ?thesis by (auto simp: bgra_block_def)
qed

lemma four_take_drop: "four ps \<Longrightarrow> four (take n ps) \<and> four (drop n ps)"
  by (auto simp: four_def dest: in_set_takeD in_set_dropD)

lemma map2_take_drop: "map2 f (take n xs) (take n ys) @ map2 f (drop n xs) (drop n ys) = map2 f xs ys"
  by (metis (no_types) append_take_drop_id drop_map drop_zip take_map take_zip)

lemma bgra_row_reference:
  assumes "ieee32 r" "length ss = length ds" "four ss" "four ds"
  shows "bgra_row r ss ds = map2 (bgra_px r) ss ds"
  using assms(2-4)
proof (induction "length ss" arbitrary: ss ds rule: less_induct)
  case less
  show ?case
  proof (cases "length ss < 4")
    case False
    have "bgra_row r (drop 4 ss) (drop 4 ds) = map2 (bgra_px r) (drop 4 ss) (drop 4 ds)"
      by (rule less.hyps) (use False less.prems four_take_drop in simp_all)
    moreover have "bgra_block r (take 4 ss) (take 4 ds) = map2 (bgra_px r) (take 4 ss) (take 4 ds)"
      by (rule bgra_block_reference [OF assms(1)]) (use less.prems four_take_drop in simp_all)
    ultimately show ?thesis using False by (subst bgra_row.simps) (simp add: map2_take_drop)
  qed (subst bgra_row.simps, simp)
qed

text \<open>The masked routine: the same with its own thresholds, so no arithmetic is involved.\<close>

lemma bgrm_px_opaque: "bgrm_px r (s, 255) d = s" and bgrm_px_transparent: "bgrm_px r (s, 0) d = d"
  by (simp_all add: bgrm_px_def)

lemma bgrm_half_reference:
  assumes "length ps = length ds"
  shows "bgrm_half r ps ds = map2 (bgrm_px r) ps ds"
proof -
  have "map2 (bgrm_px r) ps ds = map fst ps" if "\<forall>p \<in> set ps. snd p = 255"
    using assms that by (induction ps ds rule: list_induct2) (auto simp: bgrm_px_opaque)
  moreover have "map2 (bgrm_px r) ps ds = ds" if "\<forall>p \<in> set ps. snd p = 0"
    using assms that by (induction ps ds rule: list_induct2) (auto simp: bgrm_px_transparent)
  ultimately show ?thesis by (auto simp: bgrm_half_def)
qed

lemma bgrm_block_reference:
  assumes "length ps = length ds"
  shows "bgrm_block r ps ds = map2 (bgrm_px r) ps ds"
proof -
  have halves: "bgrm_half r (take 8 ps) (take 8 ds) @ bgrm_half r (drop 8 ps) (drop 8 ds) = map2 (bgrm_px r) ps ds"
    using assms by (simp add: bgrm_half_reference map2_take_drop)
  show ?thesis
  proof (cases "(\<forall>p \<in> set ps. snd p = 255) \<or> (\<forall>p \<in> set ps. snd p = 0)")
    case True
    then have "bgrm_block r ps ds = bgrm_half r ps ds" by (auto simp: bgrm_block_def bgrm_half_def)
    then show ?thesis using bgrm_half_reference [OF assms] by simp
  qed (auto simp: bgrm_block_def halves)
qed

lemma bgrm_row_reference:
  assumes "length ps = length ds"
  shows "bgrm_row r ps ds = map2 (bgrm_px r) ps ds"
  using assms
proof (induction "length ps" arbitrary: ps ds rule: less_induct)
  case less
  show ?case
  proof (cases "length ps < 16")
    case False
    have "bgrm_row r (drop 16 ps) (drop 16 ds) = map2 (bgrm_px r) (drop 16 ps) (drop 16 ds)"
      by (rule less.hyps) (use False less.prems in simp_all)
    moreover have "bgrm_block r (take 16 ps) (take 16 ds) = map2 (bgrm_px r) (take 16 ps) (take 16 ds)"
      by (rule bgrm_block_reference) (use less.prems in simp)
    ultimately show ?thesis using False by (subst bgrm_row.simps) (simp add: map2_take_drop)
  qed (subst bgrm_row.simps, simp)
qed

section \<open>The visible part\<close>

definition inside :: "region \<Rightarrow> int \<Rightarrow> int \<Rightarrow> bool" where
  "inside rc i j \<longleftrightarrow> newx rc \<le> j \<and> j < newx rc + neww rc \<and> newy rc \<le> i \<and> i < newy rc + newh rc"

definition shown_at :: "int \<Rightarrow> int \<Rightarrow> int \<Rightarrow> int \<Rightarrow> int \<Rightarrow> int \<Rightarrow> bool" where
  "shown_at cols rows x y i j \<longleftrightarrow> 0 \<le> j - x \<and> j - x < cols \<and> 0 \<le> i - y \<and> i - y < rows"

lemma overlap_rect_Some:
  assumes "overlap_rect bc br c r x y = Some rc"
  shows "0 \<le> newx rc" "0 \<le> newy rc" "0 \<le> imgx rc" "0 \<le> imgy rc" "0 < neww rc" "0 < newh rc"
    "newx rc + neww rc \<le> bc" "newy rc + newh rc \<le> br" "imgx rc + neww rc \<le> c" "imgy rc + newh rc \<le> r"
    "imgx rc = newx rc - x" "imgy rc = newy rc - y"
  using assms by (auto simp: overlap_rect_def Let_def split: if_splits)

lemma overlap_rect_inside:
  assumes "overlap_rect bc br c r x y = Some rc" "0 \<le> i" "i < br" "0 \<le> j" "j < bc"
  shows "inside rc i j \<longleftrightarrow> shown_at c r x y i j"
  using assms by (auto simp: overlap_rect_def inside_def shown_at_def Let_def split: if_splits)

lemma overlap_rect_None:
  assumes "overlap_rect bc br c r x y = None" "0 \<le> i" "i < br" "0 \<le> j" "j < bc"
  shows "\<not> shown_at c r x y i j"
  using assms by (auto simp: overlap_rect_def shown_at_def Let_def split: if_splits)

lemma nth_put_seg:
  assumes "0 \<le> a" "nat a + length ys \<le> length xs" "j < length xs"
  shows "put_seg a ys xs ! j = (if nat a \<le> j \<and> j < nat a + length ys then ys ! (j - nat a) else xs ! j)"
  using assms by (auto simp: put_seg_def nth_append)

lemma length_put_seg: "nat a + length ys \<le> length xs \<Longrightarrow> length (put_seg a ys xs) = length xs"
  by (simp add: put_seg_def)

lemma length_seg: "0 \<le> a \<Longrightarrow> 0 \<le> n \<Longrightarrow> a + n \<le> int (length xs) \<Longrightarrow> length (seg a n xs) = nat n"
  by (simp add: seg_def nat_add_distrib [symmetric])

lemma nth_seg: "0 \<le> a \<Longrightarrow> 0 \<le> n \<Longrightarrow> a + n \<le> int (length xs) \<Longrightarrow> k < nat n \<Longrightarrow> seg a n xs ! k = xs ! (nat a + k)"
  by (simp add: seg_def)

text \<open>Writing the visible part back, seen pixel by pixel.\<close>

definition rows_fit :: "region \<Rightarrow> 'p list list \<Rightarrow> mat \<Rightarrow> bool" where
  "rows_fit rc fg base \<longleftrightarrow> 0 \<le> newx rc \<and> 0 \<le> newy rc \<and> 0 \<le> imgx rc \<and> 0 \<le> imgy rc \<and> 0 < neww rc \<and> 0 < newh rc
     \<and> newx rc + neww rc \<le> mt_cols base \<and> newy rc + newh rc \<le> mt_rows base
     \<and> imgy rc + newh rc \<le> int (length fg) \<and> (\<forall>row \<in> set fg. imgx rc + neww rc \<le> int (length row))"

lemma over_rows_pixels:
  assumes "mat_ok base" "rows_fit rc fg base" "int i < mt_rows base" "int j < mt_cols base"
  shows "length (mt_px (over_rows (map2 f) rc fg base) ! i) = length (mt_px base ! i)"
    "mt_px (over_rows (map2 f) rc fg base) ! i ! j =
      (if inside rc (int i) (int j)
       then f (fg ! nat (int i - newy rc + imgy rc) ! nat (int j - newx rc + imgx rc)) (mt_px base ! i ! j)
       else mt_px base ! i ! j)"
proof -
  let ?row = "mt_px base ! i"
  have row: "int (length ?row) = mt_cols base" using assms(1,3) by (simp add: mat_ok_def mt_rows_def)
  have px: "mt_px (over_rows (map2 f) rc fg base) ! i = over_row (map2 f) rc fg (int i) ?row"
    using assms(3) by (simp add: over_rows_def mt_rows_def)
  have "length (over_row (map2 f) rc fg (int i) ?row) = length ?row \<and> over_row (map2 f) rc fg (int i) ?row ! j =
      (if inside rc (int i) (int j)
       then f (fg ! nat (int i - newy rc + imgy rc) ! nat (int j - newx rc + imgx rc)) (?row ! j) else ?row ! j)"
  proof (cases "newy rc \<le> int i \<and> int i < newy rc + newh rc")
    case True
    define fr where "fr = fg ! nat (int i - newy rc + imgy rc)"
    define ys where "ys = map2 f (seg (imgx rc) (neww rc) fr) (seg (newx rc) (neww rc) ?row)"
    have "fr \<in> set fg" unfolding fr_def using assms(2) True by (intro nth_mem) (auto simp: rows_fit_def)
    then have fr: "imgx rc + neww rc \<le> int (length fr)" using assms(2) by (simp add: rows_fit_def)
    have ly: "length ys = nat (neww rc)" using fr assms(2) row by (simp add: ys_def rows_fit_def length_seg)
    have le: "nat (newx rc) + length ys \<le> length ?row" using ly assms(2) row unfolding rows_fit_def by linarith
    have ny: "ys ! k = f (fr ! (nat (imgx rc) + k)) (?row ! (nat (newx rc) + k))" if "k < nat (neww rc)" for k
      using that fr assms(2) row by (simp add: ys_def rows_fit_def length_seg nth_seg)
    have o: "over_row (map2 f) rc fg (int i) ?row = put_seg (newx rc) ys ?row"
      using True by (simp add: over_row_def ys_def fr_def)
    have jx: "nat (newx rc) \<le> j \<and> j < nat (newx rc) + nat (neww rc) \<longleftrightarrow> inside rc (int i) (int j)"
      using True assms(2) by (auto simp: inside_def rows_fit_def)
    have "ys ! (j - nat (newx rc)) = f (fr ! nat (int j - newx rc + imgx rc)) (?row ! j)" if "inside rc (int i) (int j)"
    proof -
      have e: "nat (imgx rc) + (j - nat (newx rc)) = nat (int j - newx rc + imgx rc)" "nat (newx rc) \<le> j"
        "j - nat (newx rc) < nat (neww rc)"
        using that assms(2) by (auto simp: inside_def rows_fit_def)
      have "nat (newx rc) + (j - nat (newx rc)) = j" using e(2) by simp
      then show ?thesis using ny [OF e(3)] unfolding e(1) by simp
    qed
    then show ?thesis using nth_put_seg [of "newx rc" ys ?row j] le ly assms(2,4) row jx
      by (auto simp: o length_put_seg rows_fit_def fr_def)
  next
    case False
    then show ?thesis by (auto simp: over_row_def inside_def)
  qed
  then show "length (mt_px (over_rows (map2 f) rc fg base) ! i) = length ?row"
    "mt_px (over_rows (map2 f) rc fg base) ! i ! j =
      (if inside rc (int i) (int j)
       then f (fg ! nat (int i - newy rc + imgy rc) ! nat (int j - newx rc + imgx rc)) (?row ! j)
       else ?row ! j)"
    by (simp_all only: px)
qed

lemma over_rows_cong:
  assumes "mat_ok base" "rows_fit rc fg base"
    "\<And>fs ds. fs \<in> set (map (seg (imgx rc) (neww rc)) fg) \<Longrightarrow> (\<forall>d \<in> set ds. length d = mt_ch base) \<Longrightarrow> length fs = length ds
      \<Longrightarrow> g fs ds = map2 f fs ds"
  shows "over_rows g rc fg base = over_rows (map2 f) rc fg base"
proof -
  have "over_row g rc fg (int i) (mt_px base ! i) = over_row (map2 f) rc fg (int i) (mt_px base ! i)"
    if "i < length (mt_px base)" for i
  proof (cases "newy rc \<le> int i \<and> int i < newy rc + newh rc")
    case True
    let ?fr = "fg ! nat (int i - newy rc + imgy rc)"
    have fr: "?fr \<in> set fg" using assms(2) True by (intro nth_mem) (auto simp: rows_fit_def)
    have row: "int (length (mt_px base ! i)) = mt_cols base" "\<forall>p \<in> set (mt_px base ! i). length p = mt_ch base"
      using assms(1) nth_mem [OF that] by (auto simp: mat_ok_def)
    have "length (seg (imgx rc) (neww rc) ?fr) = length (seg (newx rc) (neww rc) (mt_px base ! i))"
      using assms(2) fr row(1) by (simp add: rows_fit_def length_seg)
    moreover have "\<forall>d \<in> set (seg (newx rc) (neww rc) (mt_px base ! i)). length d = mt_ch base"
      using row(2) by (auto simp: seg_def dest: in_set_takeD in_set_dropD)
    ultimately show ?thesis using True assms(3) [of "seg (imgx rc) (neww rc) ?fr" "seg (newx rc) (neww rc) (mt_px base ! i)"] fr
      by (simp add: over_row_def)
  qed (auto simp: over_row_def)
  then show ?thesis by (auto simp: over_rows_def intro!: mat.fold_congs)
qed

text \<open>The pixels an overlay leaves, for any way of combining two pixels.\<close>

definition overlaid :: "('p \<Rightarrow> pixel \<Rightarrow> pixel) \<Rightarrow> 'p list list \<Rightarrow> int \<Rightarrow> int \<Rightarrow> int \<Rightarrow> int \<Rightarrow> mat \<Rightarrow> mat \<Rightarrow> bool" where
  "overlaid f fg cols rows x y base base' \<longleftrightarrow> (\<forall>i j. int i < mt_rows base \<and> int j < mt_cols base \<longrightarrow>
     mt_px base' ! i ! j = (if shown_at cols rows x y (int i) (int j)
       then f (fg ! nat (int i - y) ! nat (int j - x)) (mt_px base ! i ! j) else mt_px base ! i ! j))"

lemma overlay_pixels:
  assumes "mat_ok base" "overlap_rect (mt_cols base) (mt_rows base) cols rows x y = Some rc"
    "rows \<le> int (length fg)" "\<forall>row \<in> set fg. cols \<le> int (length row)"
    "\<And>fs ds. fs \<in> set (map (seg (imgx rc) (neww rc)) fg) \<Longrightarrow> (\<forall>d \<in> set ds. length d = mt_ch base) \<Longrightarrow> length fs = length ds
      \<Longrightarrow> g fs ds = map2 f fs ds"
  shows "overlaid f fg cols rows x y base (over_rows g rc fg base)"
proof -
  note rc = overlap_rect_Some [OF assms(2)]
  have fit: "rows_fit rc fg base" using rc assms(3,4) by (fastforce simp: rows_fit_def)
  have eq: "over_rows g rc fg base = over_rows (map2 f) rc fg base" by (rule over_rows_cong [OF assms(1) fit assms(5)])
  show ?thesis
    using over_rows_pixels(2) [OF assms(1) fit] overlap_rect_inside [OF assms(2)] rc(11,12)
    by (simp add: overlaid_def eq)
qed

lemma mat_ok_rows: "mat_ok m \<Longrightarrow> row \<in> set (mt_px m) \<Longrightarrow> int (length row) = mt_cols m \<and> (\<forall>p \<in> set row. length p = mt_ch m)"
  by (simp add: mat_ok_def)

lemma seg_set: "set (seg a n xs) \<subseteq> set xs"
  by (auto simp: seg_def dest: in_set_takeD in_set_dropD)

text \<open>C23. Blending a four-channel image over a four-channel base, with its blocks of four pixels that are
  copied, skipped or blended together, leaves exactly the pixels of blending one by one where the
  (resized) image lies over the base, and every other pixel of the base as it was.\<close>

theorem overlay_bgra_pixels:
  assumes "ieee32 (ov_rnd ops)" "mat_ok base" "mt_ch base = 4" "OverlapBGRAImageBGRA ops base img x y w h = (base', img')"
    "mat_ok img'" "mt_ch img' = 4"
  shows "overlaid (bgra_px (ov_rnd ops)) (mt_px img') (mt_cols img') (mt_rows img') x y base base'"
proof (cases "overlap_rect (mt_cols base) (mt_rows base) (mt_cols img') (mt_rows img') x y")
  case None
  then show ?thesis using assms(4) overlap_rect_None [OF None]
    by (auto simp: OverlapBGRAImageBGRA_def GetOverlapMatries_def overlaid_def Let_def)
next
  case (Some rc)
  have "base' = over_rows (bgra_row (ov_rnd ops)) rc (mt_px img') base"
    using assms(4) Some by (auto simp: OverlapBGRAImageBGRA_def GetOverlapMatries_def Let_def)
  moreover have "overlaid (bgra_px (ov_rnd ops)) (mt_px img') (mt_cols img') (mt_rows img') x y base
      (over_rows (bgra_row (ov_rnd ops)) rc (mt_px img') base)"
  proof (rule overlay_pixels [OF assms(2) Some])
    fix fs ds :: "pixel list"
    assume a: "fs \<in> set (map (seg (imgx rc) (neww rc)) (mt_px img'))" "\<forall>d \<in> set ds. length d = mt_ch base" "length fs = length ds"
    then obtain row where "row \<in> set (mt_px img')" "fs = seg (imgx rc) (neww rc) row" by auto
    then have "four fs" using mat_ok_rows [OF assms(5)] assms(6) seg_set by (fastforce simp: four_def)
    then show "bgra_row (ov_rnd ops) fs ds = map2 (bgra_px (ov_rnd ops)) fs ds"
      using bgra_row_reference [OF assms(1) a(3)] a(2) assms(3) by (simp add: four_def)
  qed (use mat_ok_rows [OF assms(5)] in \<open>simp_all add: mt_rows_def\<close>)
  ultimately show ?thesis by simp
qed

definition ov_example :: ov_ops where
  "ov_example = \<lparr>ov_rnd = (\<lambda>x. x), ov_resize = (\<lambda>m w h. \<lparr>mt_ch = mt_ch m, mt_cols = w,
       mt_px = replicate (nat h) (replicate (nat w) (replicate (mt_ch m) 0))\<rparr>), ov_to_bgra = (\<lambda>m. m), ov_to_bgr = (\<lambda>m. m),
     ov_split = (\<lambda>m. (m, m)), ov_mix_unallocated = (\<lambda>_ _. None), ov_join = (\<lambda>_ _ m _. Some m)\<rparr>"

theorem overlay_bgra_pixels_witness:
  "let base = black 4 2 1; img = \<lparr>mt_ch = 4, mt_cols = 1, mt_px = [[[7, 8, 9, 255]]]\<rparr>;
       base' = fst (OverlapBGRAImageBGRA ov_example base img 1 0 0 0)
   in overlaid (bgra_px (\<lambda>x. x)) (mt_px img) 1 1 1 0 base base' \<and> mt_px base' ! 0 ! 0 = [0, 0, 0, 0]"
proof -
  define base where "base = black 4 2 1"
  define img where "img = \<lparr>mt_ch = 4, mt_cols = 1, mt_px = [[[7, 8, 9, 255 :: byte]]]\<rparr>"
  obtain base' img' where r: "OverlapBGRAImageBGRA ov_example base img 1 0 0 0 = (base', img')" by fastforce
  then have i: "img' = img" by (auto simp: OverlapBGRAImageBGRA_def GetOverlapMatries_def fit_def needs_resize_def Let_def)
  have o: "overlaid (bgra_px (ov_rnd ov_example)) (mt_px img') (mt_cols img') (mt_rows img') 1 0 base base'"
    by (rule overlay_bgra_pixels [OF _ _ _ r])
      (simp_all add: i ieee32_exact ov_example_def base_def black_def img_def mat_ok_def)
  then have "mt_px base' ! 0 ! 0 = mt_px base ! 0 ! 0"
    unfolding overlaid_def by (simp add: i img_def base_def black_def mt_rows_def shown_at_def)
  with o show ?thesis unfolding Let_def base_def [symmetric] img_def [symmetric] using r i
    by (simp add: ov_example_def img_def mt_rows_def) (simp add: base_def black_def eval_nat_numeral)
qed

lemma with_mask_rows:
  assumes "mat_ok img" "mat_ok msk" "mt_cols msk = mt_cols img" "mt_rows msk = mt_rows img"
  shows "mt_rows img = int (length (with_mask img msk))" "\<forall>row \<in> set (with_mask img msk). int (length row) = mt_cols img"
proof -
  show "mt_rows img = int (length (with_mask img msk))" using assms(4) by (simp add: with_mask_def mt_rows_def)
  show "\<forall>row \<in> set (with_mask img msk). int (length row) = mt_cols img"
    using mat_ok_rows [OF assms(1)] mat_ok_rows [OF assms(2)] assms(3)
    by (fastforce simp: with_mask_def dest: set_zip_leftD set_zip_rightD)
qed



section \<open>Blended values\<close>

lemma ieee32_close:
  assumes "ieee32 r" "\<bar>x\<bar> \<le> 256"
  shows "\<bar>r x - x\<bar> \<le> 1 / 2 ^ 15"
proof -
  have "\<bar>x\<bar> \<le> 2 ^ 100" using assms(2) by (rule order_trans) simp
  then have "\<bar>r x - x\<bar> \<le> \<bar>x\<bar> / 2 ^ 24 + 1 / 2 ^ 149" using assms(1) unfolding ieee32_def by blast
  also have "\<dots> \<le> 256 / 2 ^ 24 + 1 / 2 ^ 149" using assms(2) by (simp add: divide_right_mono)
  also have "\<dots> \<le> 1 / 2 ^ 15" by simp
  finally show ?thesis .
qed

lemma ieee32_close1:
  assumes "ieee32 r" "\<bar>x\<bar> \<le> 2"
  shows "\<bar>r x - x\<bar> \<le> 1 / 2 ^ 22"
proof -
  have "\<bar>x\<bar> \<le> 2 ^ 100" using assms(2) by (rule order_trans) simp
  then have "\<bar>r x - x\<bar> \<le> \<bar>x\<bar> / 2 ^ 24 + 1 / 2 ^ 149" using assms(1) unfolding ieee32_def by blast
  also have "\<dots> \<le> 2 / 2 ^ 24 + 1 / 2 ^ 149" using assms(2) by (simp add: divide_right_mono)
  also have "\<dots> \<le> 1 / 2 ^ 22" by simp
  finally show ?thesis .
qed

text \<open>The blended value before the conversion to a byte is near the exact weighted mean.\<close>

definition blended :: "rounding \<Rightarrow> byte \<Rightarrow> byte \<Rightarrow> byte \<Rightarrow> rat" where
  "blended r a d s =
     (let alpha = f_div r (of_int (uint a)) 255
      in f_add r (f_mul r (f_sub r 1 alpha) (of_int (uint d))) (f_mul r alpha (of_int (uint s))))"

lemma blend_channel_blended: "blend_channel r a d s = word_of_int (f_trunc (blended r a d s))"
  by (simp add: blend_channel_def blended_def Let_def)

lemma mult_close: "\<bar>x - y\<bar> \<le> e \<Longrightarrow> 0 \<le> (v::rat) \<Longrightarrow> v \<le> 256 \<Longrightarrow> 0 \<le> e \<Longrightarrow> \<bar>x * v - y * v\<bar> \<le> 256 * e"
  by (metis abs_ge_zero abs_mult abs_of_nonneg left_diff_distrib mult.commute mult_mono)

lemma convex_bounds:
  fixes t u v :: rat
  assumes "0 \<le> t" "t \<le> 1" "0 \<le> u" "u \<le> 255" "0 \<le> v" "v \<le> 255"
  shows "0 \<le> (1 - t) * u" "0 \<le> t * v" "(1 - t) * u + t * v \<le> 255"
proof -
  show "0 \<le> (1 - t) * u" "0 \<le> t * v" using assms by simp_all
  have "(1 - t) * u \<le> (1 - t) * 255" "t * v \<le> t * 255" using assms by (intro mult_left_mono; simp)+
  then show "(1 - t) * u + t * v \<le> 255" by (simp add: algebra_simps)
qed

lemma blended_close:
  fixes a d s :: byte
  assumes "ieee32 r" "t = (of_int (uint a) / 255 :: rat)" "u = of_int (uint d)" "v = of_int (uint s)"
  shows "\<bar>blended r a d s - ((1 - t) * u + t * v)\<bar> \<le> 1 / 2 ^ 10" "0 \<le> t" "t \<le> 1"
proof -
  have bytes: "uint a \<le> 255" "uint d \<le> 255" "uint s \<le> 255" "0 \<le> uint a" "0 \<le> uint d" "0 \<le> uint s"
    using byte_range [of a] byte_range [of d] byte_range [of s] by simp_all
  then have "(of_int (uint a) :: rat) \<le> of_int 255" "(of_int (uint d) :: rat) \<le> of_int 255" "(of_int (uint s) :: rat) \<le> of_int 255"
    by (simp_all only: of_int_le_iff)
  moreover have "(0 :: rat) \<le> of_int (uint a)" "(0 :: rat) \<le> of_int (uint d)" "(0 :: rat) \<le> of_int (uint s)"
    using bytes by (simp_all only: of_int_0_le_iff)
  ultimately have b: "0 \<le> 255 * t" "255 * t \<le> 255" "0 \<le> u" "u \<le> 255" "0 \<le> v" "v \<le> 255"
    unfolding assms(2-4) by (simp_all only: of_int_numeral)
  then show t: "0 \<le> t" "t \<le> 1" by simp_all
  note uv = b(3-6)
  note c = convex_bounds [OF t uv]
  define al where "al = r t"
  define be where "be = r (1 - al)"
  have al: "\<bar>al - t\<bar> \<le> 1 / 2 ^ 22" unfolding al_def using t by (intro ieee32_close1 [OF assms(1)]) simp
  have small: "1 / 2 ^ 22 \<le> (1 / 2 :: rat)" by simp
  have "\<bar>1 - al\<bar> \<le> 2" using al t small by linarith
  then have "\<bar>be - (1 - al)\<bar> \<le> 1 / 2 ^ 22" unfolding be_def by (rule ieee32_close1 [OF assms(1)])
  then have "\<bar>be - (1 - t)\<bar> \<le> 1 / 2 ^ 22 + 1 / 2 ^ 22" using al by linarith
  then have be: "\<bar>be - (1 - t)\<bar> \<le> 1 / 2 ^ 21" by simp
  have "\<bar>be * u - (1 - t) * u\<bar> \<le> 256 * (1 / 2 ^ 21)" using be uv by (intro mult_close) simp_all
  then have xu: "\<bar>be * u - (1 - t) * u\<bar> \<le> 1 / 2 ^ 13" by simp
  have "\<bar>al * v - t * v\<bar> \<le> 256 * (1 / 2 ^ 22)" using al uv by (intro mult_close) simp_all
  then have xv: "\<bar>al * v - t * v\<bar> \<le> 1 / 2 ^ 14" by simp
  have tiny: "1 / 2 ^ 13 \<le> (1 / 4 :: rat)" "1 / 2 ^ 14 \<le> (1 / 4 :: rat)" "1 / 2 ^ 15 \<le> (1 / 8 :: rat)" by simp_all
  have "\<bar>be * u\<bar> \<le> 256" "\<bar>al * v\<bar> \<le> 256" using xu xv c tiny by linarith+
  then have ru: "\<bar>r (be * u) - be * u\<bar> \<le> 1 / 2 ^ 15" "\<bar>r (al * v) - al * v\<bar> \<le> 1 / 2 ^ 15"
    using ieee32_close [OF assms(1)] by blast+
  have "\<bar>r (be * u) + r (al * v)\<bar> \<le> 256" using ru xu xv c tiny by linarith
  then have "\<bar>r (r (be * u) + r (al * v)) - (r (be * u) + r (al * v))\<bar> \<le> 1 / 2 ^ 15" by (rule ieee32_close [OF assms(1)])
  then have "\<bar>r (r (be * u) + r (al * v)) - ((1 - t) * u + t * v)\<bar> \<le> 3 * (1 / 2 ^ 15) + 1 / 2 ^ 13 + 1 / 2 ^ 14"
    using ru xu xv by linarith
  also have "\<dots> \<le> 1 / 2 ^ 10" by simp
  finally show "\<bar>blended r a d s - ((1 - t) * u + t * v)\<bar> \<le> 1 / 2 ^ 10"
    by (simp add: blended_def f_add_def f_mul_def f_sub_def f_div_def Let_def be_def al_def assms(2-4))
qed

text \<open>C25. Blending two bytes in single precision stays between them, except that it may fall one below the
  smaller one: the float converted to a byte is never out of range, and covering a colour with
  itself changes it by at most one.\<close>

theorem blend_between:
  fixes a d s :: byte
  assumes "ieee32 r"
  shows "f_trunc (blended r a d s) \<in> {0..255} \<and> min (uint d) (uint s) - 1 \<le> uint (blend_channel r a d s)
    \<and> uint (blend_channel r a d s) \<le> max (uint d) (uint s)"
proof -
  define t where "t = (of_int (uint a) / 255 :: rat)"
  define u where "u = (of_int (uint d) :: rat)"
  define v where "v = (of_int (uint s) :: rat)"
  define z where "z = blended r a d s"
  define lo where "lo = min (uint d) (uint s)"
  define hi where "hi = max (uint d) (uint s)"
  have close: "\<bar>z - ((1 - t) * u + t * v)\<bar> \<le> 1 / 2 ^ 10" and t: "0 \<le> t" "t \<le> 1"
    using blended_close [OF assms t_def u_def v_def] by (simp_all only: z_def)
  have "of_int lo \<le> u" "of_int lo \<le> v" "u \<le> of_int hi" "v \<le> of_int hi"
    unfolding u_def v_def lo_def hi_def by (simp_all only: of_int_le_iff min.cobounded1 min.cobounded2 max.cobounded1 max.cobounded2)
  then have "(1 - t) * of_int lo + t * of_int lo \<le> (1 - t) * u + t * v" "(1 - t) * u + t * v \<le> (1 - t) * of_int hi + t * of_int hi"
    using t by (intro add_mono mult_left_mono; simp)+
  then have m: "of_int lo \<le> (1 - t) * u + t * v" "(1 - t) * u + t * v \<le> of_int hi" by (simp_all add: algebra_simps)
  have tiny: "1 / 2 ^ 10 < (1 :: rat)" by simp
  have "of_int lo - 1 < z" "z < of_int hi + 1" using close m tiny by linarith+
  then have z: "of_int (lo - 1) < z" "z < of_int (hi + 1)" by simp_all
  have r: "0 \<le> lo" "hi \<le> 255" "0 \<le> hi" using byte_range [of d] byte_range [of s] by (simp_all add: lo_def hi_def le_max_iff_disj)
  have tr: "lo - 1 \<le> f_trunc z" "0 \<le> f_trunc z" "f_trunc z \<le> hi"
    using f_trunc_least [OF z(1) r(1)] f_trunc_range [of "- 1" z "hi + 1"] z r by simp_all
  then have "uint (blend_channel r a d s) = f_trunc z"
    using r by (simp add: blend_channel_blended z_def [symmetric] uint_word_of_int)
  then show ?thesis using tr r unfolding z_def [symmetric] lo_def [symmetric] hi_def [symmetric] by simp
qed

theorem blend_between_witness: "199 \<le> uint (blend_channel (\<lambda>x. x) 100 200 200) \<and> uint (blend_channel (\<lambda>x. x) 100 200 200) \<le> 200"
  using blend_between [OF ieee32_exact, of 100 200 200] by simp

section \<open>The first picture as the background\<close>

text \<open>When the background is still empty, a full-screen picture of another size is resized to the display
  width in both directions, so on a display that is not square the background has the wrong
  height.\<close>

lemma background_wrong_size:
  assumes "mat_none base" "rx rc = 0" "ry rc = 0" "rwidth rc = dw" "rheight rc = dh" "mt_cols img \<noteq> dw \<or> mt_rows img \<noteq> dh"
    "\<And>m w h. 0 < w \<Longrightarrow> 0 < h \<Longrightarrow> mt_cols (ov_resize ops m w h) = w \<and> mt_rows (ov_resize ops m w h) = h"
    "\<And>m. mt_rows (ov_to_bgr ops m) = mt_rows m" "0 < dw" "dw \<noteq> dh"
  shows "\<exists>base' img'. OverlapImage ops ft rc base dw dh img msk False = Some (base', img', msk) \<and> mt_rows base' = dw \<and> mt_rows base' \<noteq> dh"
  using assms by (auto simp: OverlapImage_def Let_def)

lemma background_wrong_size_example:
  "\<exists>base' img'. OverlapImage ov_example FT_BGR \<lparr>rx = 0, ry = 0, rwidth = 6, rheight = 4\<rparr> (black 3 0 0) 6 4 (black 3 3 2) (black 1 0 0) False
    = Some (base', img', black 1 0 0) \<and> mt_rows base' = 6"
proof -
  have "\<exists>base' img'. OverlapImage ov_example FT_BGR \<lparr>rx = 0, ry = 0, rwidth = 6, rheight = 4\<rparr> (black 3 0 0) 6 4 (black 3 3 2)
      (black 1 0 0) False = Some (base', img', black 1 0 0) \<and> mt_rows base' = 6 \<and> mt_rows base' \<noteq> 4"
    by (rule background_wrong_size) (simp_all add: mat_none_def black_def ov_example_def mt_rows_def)
  then show ?thesis by blast
qed

end
