(* ===== verification/Main_Options.thy ===== *)
theory Main_Options
  imports Material_Parse C_Double
begin

text \<open>
  The command line of \<^verbatim>\<open>main\<close> (\<^verbatim>\<open>decorateVideo.cpp\<close>): the two loops that take the options
  out of \<^verbatim>\<open>argv\<close>, each option with its checks, and the output specification. The blind
  watermark option is \<^verbatim>\<open>IWaterMark::create\<close> (\<^verbatim>\<open>filter/watermark.cpp\<close>). Whether a file
  exists is a parameter. An option is in one of four ways: it sets something, it ends the program, it
  reads memory beyond its text (\<open>OptUndefined\<close>), or it is dropped as unknown.
\<close>

section \<open>Options\<close>

record raw_video_info =
  rv_fmt :: "string option"
  rv_w :: int
  rv_h :: int
  rv_fps :: int
  rv_bitrate :: int

record raw_audio_info =
  ra_fmt :: "string option"
  ra_rate :: int
  ra_channel :: int

record watermark =
  wm_text :: string
  wm_font :: string
  wm_size :: int
  wm_bgr :: "int \<times> int \<times> int"
  wm_rotation :: int
  wm_opacity :: int
  wm_rows :: int
  wm_cols :: int
  wm_rect :: cv_rect
  wm_olbgr :: "(int \<times> int \<times> int) option"

record options =
  o_chromakeying :: bool
  o_disable_opengl :: bool
  o_window :: bool
  o_debug :: bool
  o_nvenc :: bool
  o_preset :: string
  o_alpha_engine :: string
  o_read_timeout :: int
  o_subtitle :: "(string \<times> cv_rect \<times> string) option"
  o_ffmpeg :: "string option"
  o_no_stat :: bool
  o_event_fifo :: "string option"
  o_cmd_fifo :: "string option"
  o_cmd_file :: "string option"
  o_buffer_size :: int
  o_bg_color :: "(int \<times> int \<times> int) option"
  o_alpha_video :: "string option"
  o_water :: "watermark option"
  o_blind :: "(string \<times> int) option"
  o_scale_engine :: string
  o_scale_prefer :: string
  o_force :: "int \<times> int"
  o_rawvideo :: raw_video_info
  o_rawaudio :: raw_audio_info
  o_rtmpout :: "string option"
  o_sub :: "(string \<times> int \<times> int \<times> int \<times> int \<times> bool) option"

definition options0 :: options where
  "options0 = \<lparr>o_chromakeying = False, o_disable_opengl = False, o_window = False, o_debug = False, o_nvenc = False,
     o_preset = [], o_alpha_engine = ''opengl'', o_read_timeout = 100, o_subtitle = None, o_ffmpeg = None, o_no_stat = False,
     o_event_fifo = None, o_cmd_fifo = None, o_cmd_file = None, o_buffer_size = 10, o_bg_color = None, o_alpha_video = None,
     o_water = None, o_blind = None, o_scale_engine = ''opengl'', o_scale_prefer = ''speed'', o_force = (0, 0),
     o_rawvideo = \<lparr>rv_fmt = None, rv_w = 1080, rv_h = 1920, rv_fps = 25, rv_bitrate = 8000000\<rparr>,
     o_rawaudio = \<lparr>ra_fmt = None, ra_rate = 48000, ra_channel = 1\<rparr>, o_rtmpout = None, o_sub = None\<rparr>"

datatype opt_result = OptSet options | OptStop | OptUndefined | OptUnknown | OptArg

definition opt_if :: "bool \<Rightarrow> options \<Rightarrow> opt_result" where
  "opt_if ok o' = (if ok then OptSet o' else OptStop)"

section \<open>The options with parts\<close>

definition opt_subtitle :: "string \<Rightarrow> options \<Rightarrow> opt_result" where
  "opt_subtitle v o' =
     (let strs = splitCString v (CHR '':'')
      in if length strs < 6 then OptStop
         else OptSet (o'\<lparr>o_subtitle := Some (strs ! 0, \<lparr>rx = atoi (strs ! 2), ry = atoi (strs ! 1), rwidth = atoi (strs ! 3),
                rheight = atoi (strs ! 4)\<rparr>, strs ! 5)\<rparr>))"

text \<open>Optional numbers of the watermark: the field, or 0.\<close>

definition nth_int :: "string list \<Rightarrow> nat \<Rightarrow> int" where
  "nth_int strs n = (if n < length strs then atoi (strs ! n) else 0)"

text \<open>\<^verbatim>\<open>strs[12]+1\<close>; behind an empty field lies the next one.\<close>

definition outline_text :: "string list \<Rightarrow> string" where
  "outline_text strs = (if strs ! 12 = [] then strs ! 13 else tl (strs ! 12))"

definition opt_watermark :: "string \<Rightarrow> options \<Rightarrow> opt_result" where
  "opt_watermark v o' =
     (let strs = splitCString v (CHR '':'')
      in if length strs < 6 then OptStop
         else if take 1 (strs ! 3) \<noteq> ''#'' then OptStop
         else if length strs = 13 \<and> strs ! 12 = [] then OptUndefined
         else
           let w = \<lparr>wm_text = strs ! 0, wm_font = unescape_font (strs ! 1), wm_size = atoi (strs ! 2),
                    wm_bgr = parse_color (tl (strs ! 3)), wm_rotation = atoi (strs ! 4), wm_opacity = atoi (strs ! 5),
                    wm_rows = nth_int strs 6, wm_cols = nth_int strs 7,
                    wm_rect = \<lparr>rx = nth_int strs 9, ry = nth_int strs 8, rwidth = nth_int strs 10, rheight = nth_int strs 11\<rparr>,
                    wm_olbgr = (if 13 \<le> length strs then Some (parse_color (outline_text strs)) else None)\<rparr>
           in if wm_rotation w < - 360 \<or> wm_rotation w > 360 \<or> wm_opacity w < 0 \<or> wm_opacity w > 100 then OptStop
              else OptSet (o'\<lparr>o_water := Some (if wm_opacity w = 0 then w\<lparr>wm_opacity := 100\<rparr> else w)\<rparr>))"

text \<open>\<^verbatim>\<open>IWaterMark::create\<close>: the text and the interval in seconds.\<close>

definition create_watermark :: "string \<Rightarrow> (string \<times> int) option" where
  "create_watermark v =
     (let items = splitCString v (CHR '':'')
      in if length items \<noteq> 3 then None
         else if items ! 0 = ''text'' then (if length (items ! 1) > 8 then None else Some (items ! 1, atoi (items ! 2)))
         else None)"

definition opt_video_size :: "string \<Rightarrow> options \<Rightarrow> opt_result" where
  "opt_video_size v o' =
     (case strchr v (CHR ''x'') of
        None \<Rightarrow> OptStop
      | Some pos \<Rightarrow>
          let w = atoi (take (length v - length pos) v); h = atoi (tl pos)
          in if w < 10 \<or> h < 10 then OptStop else OptSet (o'\<lparr>o_force := (w, h)\<rparr>))"

definition rawvideo_field :: "nat \<Rightarrow> string \<Rightarrow> raw_video_info \<Rightarrow> raw_video_info" where
  "rawvideo_field idx val rv =
     (if idx = 0 then rv\<lparr>rv_fmt := Some val\<rparr> else if idx = 1 then rv\<lparr>rv_w := atoi val\<rparr>
      else if idx = 2 then rv\<lparr>rv_h := atoi val\<rparr> else if idx = 3 then rv\<lparr>rv_fps := atoi val\<rparr>
      else if idx = 4 then rv\<lparr>rv_bitrate := atoi val\<rparr> else rv)"

definition rawaudio_field :: "nat \<Rightarrow> string \<Rightarrow> raw_audio_info \<Rightarrow> raw_audio_info" where
  "rawaudio_field idx val ra =
     (if idx = 0 then ra\<lparr>ra_fmt := Some val\<rparr> else if idx = 1 then ra\<lparr>ra_rate := atoi val\<rparr>
      else if idx = 2 then ra\<lparr>ra_channel := atoi val\<rparr> else ra)"

fun each_field :: "(nat \<Rightarrow> string \<Rightarrow> 'a \<Rightarrow> 'a) \<Rightarrow> nat \<Rightarrow> string list \<Rightarrow> 'a \<Rightarrow> 'a" where
  "each_field f idx [] a = a"
| "each_field f idx (val # strs) a = each_field f (Suc idx) strs (f idx val a)"

definition any_ci :: "string \<Rightarrow> string list \<Rightarrow> bool" where
  "any_ci s ps \<longleftrightarrow> (\<exists>p \<in> set ps. same_ci s p)"

definition clamp_bitrate :: "int \<Rightarrow> int" where
  "clamp_bitrate b =
     (let b1 = (if b < 1000000 then (if b > 0 then 1000000 else 8000000) else b)
      in if b1 > 50000000 then 50000000 else b1)"

definition opt_rawvideo :: "string \<Rightarrow> options \<Rightarrow> opt_result" where
  "opt_rawvideo v o' =
     (let rv = each_field rawvideo_field 0 (splitCString v (CHR '':'')) (o_rawvideo o')
      in case rv_fmt rv of
           None \<Rightarrow> OptStop
         | Some fmt \<Rightarrow>
             if \<not> any_ci fmt [''bgr'', ''bgra'', ''rgb'', ''rgba'', ''yuv420p''] \<or> rv_w rv = 0 \<or> rv_h rv = 0 \<or> rv_fps rv < 10
             then OptStop else OptSet (o'\<lparr>o_rawvideo := rv\<lparr>rv_bitrate := clamp_bitrate (rv_bitrate rv)\<rparr>\<rparr>))"

definition opt_rawaudio :: "string \<Rightarrow> options \<Rightarrow> opt_result" where
  "opt_rawaudio v o' =
     (let ra = each_field rawaudio_field 0 (splitCString v (CHR '':'')) (o_rawaudio o')
      in case ra_fmt ra of
           None \<Rightarrow> OptStop
         | Some fmt \<Rightarrow> opt_if (same_ci fmt ''pcm_s16le'' \<and> \<not> ra_rate ra < 1000 \<and> \<not> ra_channel ra < 1) (o'\<lparr>o_rawaudio := ra\<rparr>))"

text \<open>\<open>v\<close> is the address with its parameters, from \<^verbatim>\<open>rtmp://\<close> on.\<close>

definition opt_substream :: "string \<Rightarrow> options \<Rightarrow> opt_result" where
  "opt_substream v o' =
     (case (case strrchr v (CHR ''/'') of None \<Rightarrow> None | Some lastslash \<Rightarrow> strchr lastslash (CHR '':'')) of
        None \<Rightarrow> OptStop
      | Some param \<Rightarrow>
          let strs = splitCString (tl param) (CHR '':'')
          in if length strs < 4 then OptStop
             else OptSet (o'\<lparr>o_sub := Some (take (length v - length param) v, atoi (strs ! 0), atoi (strs ! 1), atoi (strs ! 2),
                    atoi (strs ! 3), nth_int strs 4 \<noteq> 0)\<rparr>))"

section \<open>One option\<close>

text \<open>An option with a value: its name with the equals sign, and what it does with the value.\<close>

definition opt_value :: "string \<Rightarrow> string \<Rightarrow> (string \<Rightarrow> opt_result) \<Rightarrow> opt_result \<Rightarrow> opt_result" where
  "opt_value p a act rest = (if starts_with_ci p a then act (drop (length p) a) else rest)"

definition opt_flag :: "string \<Rightarrow> string \<Rightarrow> options \<Rightarrow> opt_result \<Rightarrow> opt_result" where
  "opt_flag p a o' rest = (if same_ci a p then OptSet o' else rest)"

definition opt_flags :: "string \<Rightarrow> options \<Rightarrow> opt_result \<Rightarrow> opt_result" where
  "opt_flags a o' rest =
     opt_flag ''--enable_chromakeying'' a (o'\<lparr>o_chromakeying := True\<rparr>)
    (opt_flag ''--disable_opengl'' a (o'\<lparr>o_disable_opengl := True\<rparr>)
    (opt_flag ''--enable_window'' a (o'\<lparr>o_window := True\<rparr>)
    (opt_flag ''--enable_debug'' a (o'\<lparr>o_debug := True\<rparr>)
    (opt_flag ''--enable_ff_nv_enc'' a (o'\<lparr>o_nvenc := True\<rparr>) rest))))"

definition opt_running :: "(string \<Rightarrow> bool) \<Rightarrow> string \<Rightarrow> options \<Rightarrow> opt_result \<Rightarrow> opt_result" where
  "opt_running file_exists a o' rest =
     opt_value ''--encode_preset='' a (\<lambda>v. OptSet (o'\<lparr>o_preset := v\<rparr>))
    (opt_value ''--alpha_engine='' a (\<lambda>v. opt_if (any_ci v [''opengl'', ''opencv'']) (o'\<lparr>o_alpha_engine := v\<rparr>))
    (opt_value ''--read_timeout='' a (\<lambda>v. OptSet (o'\<lparr>o_read_timeout := (if atoi v \<le> 0 then 1 else atoi v)\<rparr>))
    (opt_value ''--subtitle='' a (\<lambda>v. opt_subtitle v o')
    (opt_value ''--use_ffmpeg='' a (\<lambda>v. opt_if (file_exists v) (o'\<lparr>o_ffmpeg := Some v\<rparr>))
    (opt_value ''--disable_ffmpeg_stat'' a (\<lambda>v. OptSet (o'\<lparr>o_no_stat := True\<rparr>))
    (opt_value ''--notify_fifo_event='' a (\<lambda>v. OptSet (o'\<lparr>o_event_fifo := Some v\<rparr>))
    (opt_value ''--stream_cmd_fifo='' a (\<lambda>v. OptSet (o'\<lparr>o_cmd_fifo := Some v\<rparr>))
    (opt_value ''--stream_cmd_txtfile='' a (\<lambda>v. OptSet (o'\<lparr>o_cmd_file := Some v\<rparr>))
    (opt_value ''--stream_buffer_size='' a (\<lambda>v. OptSet (o'\<lparr>o_buffer_size := atoi v\<rparr>)) rest)))))))))"

definition opt_picture :: "string \<Rightarrow> options \<Rightarrow> opt_result \<Rightarrow> opt_result" where
  "opt_picture a o' rest =
     opt_value ''--bg_color=#'' a (\<lambda>v. OptSet (o'\<lparr>o_bg_color := Some (parse_color v)\<rparr>))
    (opt_value ''--alpha_video='' a (\<lambda>v. opt_if (any_ci v [''left'', ''right'', ''top'', ''bottom'']) (o'\<lparr>o_alpha_video := Some v\<rparr>))
    (opt_value ''--watermark='' a (\<lambda>v. opt_watermark v o')
    (opt_value ''--blind_watermark='' a (\<lambda>v. case create_watermark v of None \<Rightarrow> OptStop | Some b \<Rightarrow> OptSet (o'\<lparr>o_blind := Some b\<rparr>))
    (opt_value ''--scale_engine='' a (\<lambda>v. opt_if (any_ci v [''ffmpeg'', ''opencv'', ''opengl'']) (o'\<lparr>o_scale_engine := v\<rparr>))
    (opt_value ''--scale_prefer='' a (\<lambda>v. opt_if (any_ci v [''quality'', ''speed'', ''both'']) (o'\<lparr>o_scale_prefer := v\<rparr>))
    (opt_value ''--video_size='' a (\<lambda>v. opt_video_size v o') rest))))))"

definition opt_media :: "string \<Rightarrow> options \<Rightarrow> opt_result \<Rightarrow> opt_result" where
  "opt_media a o' rest =
     opt_value ''--rawvideo='' a (\<lambda>v. opt_rawvideo v o')
    (opt_value ''--rawaudio='' a (\<lambda>v. opt_rawaudio v o')
    (opt_value ''--stream_out=rtmp://'' a (\<lambda>v. OptSet (o'\<lparr>o_rtmpout := Some (drop (length ''--stream_out='') a)\<rparr>))
    (opt_value ''--substream_out=rtmp://'' a (\<lambda>v. opt_substream (drop (length ''--substream_out='') a) o') rest)))"

definition option_step :: "(string \<Rightarrow> bool) \<Rightarrow> options \<Rightarrow> string \<Rightarrow> opt_result" where
  "option_step file_exists o' a =
     opt_flags a o' (opt_running file_exists a o' (opt_picture a o' (opt_media a o'
       (if starts_with_ci ''--'' a \<and> 2 < length a then OptUnknown else OptArg))))"

section \<open>The loop over \<^verbatim>\<open>argv\<close>\<close>

text \<open>Removing argument \<open>i\<close> of \<open>argc\<close>: the later ones move down, the last place keeps its pointer.\<close>

definition remove_arg :: "nat \<Rightarrow> nat \<Rightarrow> string list \<Rightarrow> string list" where
  "remove_arg i argc argv =
     (if Suc i < argc then take i argv @ take (argc - i - 1) (drop (Suc i) argv) @ drop (argc - 1) argv else argv)"

datatype 'o args_result = ArgsStop | ArgsUndefined | ArgsOk 'o "string list" nat

function option_loop :: "(string \<Rightarrow> bool) \<Rightarrow> nat \<Rightarrow> string list \<Rightarrow> nat \<Rightarrow> options \<Rightarrow> options args_result" where
  "option_loop file_exists i argv argc o' =
     (if \<not> i < argc then ArgsOk o' argv argc
      else case option_step file_exists o' (argv ! i) of
        OptStop \<Rightarrow> ArgsStop
      | OptUndefined \<Rightarrow> ArgsUndefined
      | OptArg \<Rightarrow> option_loop file_exists (Suc i) argv argc o'
      | OptSet o2 \<Rightarrow> option_loop file_exists i (remove_arg i argc argv) (argc - 1) o2
      | OptUnknown \<Rightarrow> option_loop file_exists i (remove_arg i argc argv) (argc - 1) o')"
  by pat_completeness auto
termination
  by (relation "measure (\<lambda>(_, i, _, argc, _). argc - i)") auto

declare option_loop.simps [simp del]

text \<open>The first loop, for the log file and the data directory, which options do not start with each
  other's names.\<close>

record paths =
  p_log :: string
  p_dir :: string

function path_loop :: "nat \<Rightarrow> string list \<Rightarrow> nat \<Rightarrow> paths \<Rightarrow> paths \<times> string list \<times> nat" where
  "path_loop i argv argc p =
     (if \<not> i < argc then (p, argv, argc)
      else let a = argv ! i
           in if starts_with_ci ''--log_file='' a
              then path_loop i (remove_arg i argc argv) (argc - 1) (p\<lparr>p_log := drop (length ''--log_file='') a\<rparr>)
              else if starts_with_ci ''--data_dir='' a
              then path_loop i (remove_arg i argc argv) (argc - 1) (p\<lparr>p_dir := drop (length ''--data_dir='') a\<rparr>)
              else path_loop (Suc i) argv argc p)"
  by pat_completeness auto
termination
  by (relation "measure (\<lambda>(i, _, argc, _). argc - i)") auto

declare path_loop.simps [simp del]

section \<open>The output\<close>

record output_spec =
  os_width :: int
  os_height :: int
  os_fps :: int
  os_bitrate :: int
  os_fmt :: string
  os_path :: string
  os_alpha :: bool
  os_raw :: bool
  os_event :: "string option"
  os_x_ratio :: rat
  os_y_ratio :: rat

definition output_size :: "options \<Rightarrow> int \<Rightarrow> int \<Rightarrow> (int \<times> int) option" where
  "output_size o' w h =
     (if w \<le> 0 \<or> h \<le> 0 then
        (if rv_fmt (o_rawvideo o') \<noteq> None \<and> rv_w (o_rawvideo o') \<noteq> 0 \<and> rv_h (o_rawvideo o') \<noteq> 0 then
           let a = (case o_alpha_video o' of Some (c # _) \<Rightarrow> to_lower c | _ \<Rightarrow> 0)
           in Some (if a = code (CHR ''l'') \<or> a = code (CHR ''r'') then to_i32 (rv_w (o_rawvideo o') * 2) else rv_w (o_rawvideo o'),
                    if a = code (CHR ''t'') \<or> a = code (CHR ''b'') then to_i32 (rv_h (o_rawvideo o') * 2) else rv_h (o_rawvideo o'))
         else None)
      else Some (w, h))"

definition output_setup :: "rounding \<Rightarrow> string \<Rightarrow> options \<Rightarrow> string \<Rightarrow> output_spec option" where
  "output_setup r data_dir o' ov =
     (let strs = splitCString ov (CHR '':'')
      in if length strs < 3 then None
         else case output_size o' (atoi (strs ! 1)) (atoi (strs ! 2)) of
           None \<Rightarrow> None
         | Some (w, h) \<Rightarrow>
             let fmt = (if 6 \<le> length strs then strs ! 5 else ''mp4'');
                 raw = starts_with_ci ''raw'' fmt;
                 (fw, fh) = o_force o'
             in if \<not> any_ci fmt [''mp4'', ''mov'', ''webm'', ''raw24'', ''raw32'', ''mp4alpha''] then None
                else if raw \<and> o_rtmpout o' \<noteq> None then None
                else Some \<lparr>os_width = (if fw \<noteq> 0 \<and> fh \<noteq> 0 then fw else w), os_height = (if fw \<noteq> 0 \<and> fh \<noteq> 0 then fh else h),
                       os_fps = nth_int strs 3, os_bitrate = nth_int strs 4, os_fmt = fmt, os_path = merge_path 1024 data_dir (strs ! 0),
                       os_alpha = any_ci fmt [''mov'', ''webm'', ''raw32'', ''mp4alpha''], os_raw = raw,
                       os_event = map_option (merge_path 1024 data_dir) (o_event_fifo o'),
                       os_x_ratio = (if fw \<noteq> 0 \<and> fh \<noteq> 0 then f_div r (of_int fw) (of_int w) else 1),
                       os_y_ratio = (if fw \<noteq> 0 \<and> fh \<noteq> 0 then f_div r (of_int fh) (of_int h) else 1)\<rparr>)"

end
