(* ===== verification/Main_Options_Thms.thy ===== *)
theory Main_Options_Thms
  imports Main_Options
begin

text \<open>
  The option loop of \<^verbatim>\<open>main\<close>, which edits \<^verbatim>\<open>argv\<close> while it walks over it, against its
  meaning: the options of the line applied in order, and the other arguments left in order. Then what
  holds of every accepted set of options.
\<close>

section \<open>What the loop means\<close>

definition is_option :: "string \<Rightarrow> bool" where
  "is_option a \<longleftrightarrow> starts_with_ci ''--'' a \<and> 2 < length a"

fun apply_options :: "(string \<Rightarrow> bool) \<Rightarrow> options \<Rightarrow> string list \<Rightarrow> opt_result" where
  "apply_options file_exists o' [] = OptSet o'"
| "apply_options file_exists o' (a # opts) =
     (case option_step file_exists o' a of
        OptSet o2 \<Rightarrow> apply_options file_exists o2 opts
      | OptStop \<Rightarrow> OptStop
      | OptUndefined \<Rightarrow> OptUndefined
      | _ \<Rightarrow> apply_options file_exists o' opts)"

lemma starts_with_ci_Cons:
  "starts_with_ci (p # ps) t \<longleftrightarrow> (\<exists>c cs. t = c # cs \<and> to_lower c = to_lower p \<and> starts_with_ci ps cs)"
  by (cases t) (auto simp: starts_with_ci_def)

lemma not_option_prefix [simp]:
  "\<not> is_option a \<Longrightarrow> \<not> starts_with_ci (CHR ''-'' # CHR ''-'' # c # q) a"
  by (auto simp: is_option_def starts_with_ci_Cons) (auto simp: starts_with_ci_def)

lemma same_ci_starts: "same_ci a p \<Longrightarrow> starts_with_ci p a"
proof -
  assume "same_ci a p"
  then have "length a = length p" by (auto simp: same_ci_def dest: map_eq_imp_length_eq)
  with \<open>same_ci a p\<close> show ?thesis by (simp add: same_ci_def starts_with_ci_def)
qed

lemma not_option_same [simp]:
  "\<not> is_option a \<Longrightarrow> \<not> same_ci a (CHR ''-'' # CHR ''-'' # c # q)"
  using not_option_prefix [of a c q] same_ci_starts by blast

lemma other_args_pass: "\<not> is_option a \<Longrightarrow> option_step file_exists o' a = OptArg"
  by (simp add: option_step_def opt_flags_def opt_flag_def opt_running_def opt_picture_def opt_media_def opt_value_def)
     (simp add: is_option_def)

lemma opt_value_not_arg: "(\<And>v. act v \<noteq> OptArg) \<Longrightarrow> rest \<noteq> OptArg \<Longrightarrow> opt_value p a act rest \<noteq> OptArg"
  by (simp add: opt_value_def)

lemma parts_not_arg:
  "opt_if b o' \<noteq> OptArg" "opt_subtitle v o' \<noteq> OptArg" "opt_watermark v o' \<noteq> OptArg" "opt_video_size v o' \<noteq> OptArg"
  "opt_rawvideo v o' \<noteq> OptArg" "opt_rawaudio v o' \<noteq> OptArg" "opt_substream v o' \<noteq> OptArg"
  by (simp_all add: opt_if_def opt_subtitle_def opt_watermark_def opt_video_size_def opt_rawvideo_def opt_rawaudio_def
      opt_substream_def Let_def split: option.splits)

lemma options_not_passed: "is_option a \<Longrightarrow> option_step file_exists o' a \<noteq> OptArg"
  unfolding option_step_def opt_flags_def opt_flag_def opt_running_def opt_picture_def opt_media_def
  by (simp add: opt_value_not_arg parts_not_arg is_option_def split: option.splits)

lemma length_remove_arg [simp]: "argc \<le> length argv \<Longrightarrow> i < argc \<Longrightarrow> length (remove_arg i argc argv) = length argv"
  by (simp add: remove_arg_def)

lemma take_remove_arg: "argc \<le> length argv \<Longrightarrow> i < argc \<Longrightarrow> take i (remove_arg i argc argv) = take i argv"
  by (simp add: remove_arg_def)

lemma rest_remove_arg:
  "argc \<le> length argv \<Longrightarrow> i < argc \<Longrightarrow>
   drop i (take (argc - 1) (remove_arg i argc argv)) = drop (Suc i) (take argc argv)"
  by (auto simp: remove_arg_def drop_take min_def)

text \<open>The part of the line still to be read, and the outcome the loop owes it.\<close>

definition loop_owes :: "(string \<Rightarrow> bool) \<Rightarrow> nat \<Rightarrow> string list \<Rightarrow> nat \<Rightarrow> options \<Rightarrow> options args_result \<Rightarrow> bool" where
  "loop_owes file_exists i argv argc o' out \<longleftrightarrow>
     (let rest = drop i (take argc argv)
      in case apply_options file_exists o' (filter is_option rest) of
           OptSet o2 \<Rightarrow>
             (let kept = take i argv @ filter (\<lambda>a. \<not> is_option a) rest
              in \<exists>argv'. out = ArgsOk o2 argv' (length kept) \<and> take (length kept) argv' = kept \<and> length argv' = length argv)
         | OptStop \<Rightarrow> out = ArgsStop
         | OptUndefined \<Rightarrow> out = ArgsUndefined
         | _ \<Rightarrow> False)"

lemma option_loop_owes:
  "argc \<le> length argv \<Longrightarrow> i \<le> argc \<Longrightarrow> loop_owes file_exists i argv argc o' (option_loop file_exists i argv argc o')"
proof (induction file_exists i argv argc o' rule: option_loop.induct)
  case (1 fe i argv argc o')
  show ?case
  proof (cases "i < argc")
    case False
    with 1 show ?thesis by (simp add: loop_owes_def option_loop.simps)
  next
    case True
    let ?a = "argv ! i"
    have split: "drop i (take argc argv) = ?a # drop (Suc i) (take argc argv)"
      using True 1(4) by (simp add: Cons_nth_drop_Suc [symmetric])
    have keep: "take (Suc i) argv = take i argv @ [?a]"
      using True 1(4) by (simp add: take_Suc_conv_app_nth)
    have le: "argc - 1 \<le> length argv" "i \<le> argc - 1" using True 1(4) by simp_all
    note gone = le rest_remove_arg [OF 1(4) True] take_remove_arg [OF 1(4) True] length_remove_arg [OF 1(4) True]
    show ?thesis
    proof (cases "option_step fe o' ?a")
      case OptArg
      then have "\<not> is_option ?a" using options_not_passed by blast
      with OptArg True 1(3) [OF _ OptArg] 1(4) show ?thesis
        by (subst option_loop.simps) (auto simp: loop_owes_def split keep Let_def split: opt_result.splits)
    next
      case (OptSet o2)
      then have "is_option ?a" using other_args_pass by fastforce
      with OptSet True 1(1) [OF _ OptSet] 1(4) gone show ?thesis
        by (subst option_loop.simps) (auto simp: loop_owes_def split Let_def split: opt_result.splits)
    next
      case OptUnknown
      then have "is_option ?a" using other_args_pass by fastforce
      with OptUnknown True 1(2) [OF _ OptUnknown] 1(4) gone show ?thesis
        by (subst option_loop.simps) (auto simp: loop_owes_def split Let_def split: opt_result.splits)
    next
      case OptStop
      then have "is_option ?a" using other_args_pass by fastforce
      with OptStop True show ?thesis
        by (subst option_loop.simps) (simp add: loop_owes_def split Let_def)
    next
      case OptUndefined
      then have "is_option ?a" using other_args_pass by fastforce
      with OptUndefined True show ?thesis
        by (subst option_loop.simps) (simp add: loop_owes_def split Let_def)
    qed
  qed
qed

text \<open>C35. The loop that removes the options from \<^verbatim>\<open>argv\<close> while it walks over it does the same as
  applying the arguments that start with two dashes in their order, wherever they stand in the line; it
  stops or reads out of bounds exactly where that does, and otherwise leaves the other arguments as the
  first ones, in order, their number being the new \<^verbatim>\<open>argc\<close>.\<close>

theorem options_from_anywhere:
  "case apply_options file_exists o' (filter is_option argv) of
     OptSet o2 \<Rightarrow>
       (\<exists>argv'. option_loop file_exists 0 argv (length argv) o' = ArgsOk o2 argv' (length (filter (\<lambda>a. \<not> is_option a) argv)) \<and>
          take (length (filter (\<lambda>a. \<not> is_option a) argv)) argv' = filter (\<lambda>a. \<not> is_option a) argv \<and>
          length argv' = length argv)
   | OptStop \<Rightarrow> option_loop file_exists 0 argv (length argv) o' = ArgsStop
   | OptUndefined \<Rightarrow> option_loop file_exists 0 argv (length argv) o' = ArgsUndefined
   | _ \<Rightarrow> False"
  using option_loop_owes [of "length argv" argv 0 file_exists o']
  by (simp add: loop_owes_def Let_def split: opt_result.splits)

section \<open>Accepted options\<close>

definition raw_video_ok :: "raw_video_info \<Rightarrow> bool" where
  "raw_video_ok rv \<longleftrightarrow>
     (case rv_fmt rv of None \<Rightarrow> True | Some fmt \<Rightarrow> any_ci fmt [''bgr'', ''bgra'', ''rgb'', ''rgba'', ''yuv420p'']) \<and>
     rv_w rv \<noteq> 0 \<and> rv_h rv \<noteq> 0 \<and> 10 \<le> rv_fps rv \<and> 1000000 \<le> rv_bitrate rv \<and> rv_bitrate rv \<le> 50000000"

definition raw_audio_ok :: "raw_audio_info \<Rightarrow> bool" where
  "raw_audio_ok ra \<longleftrightarrow> (case ra_fmt ra of None \<Rightarrow> True | Some fmt \<Rightarrow> same_ci fmt ''pcm_s16le'') \<and> 1000 \<le> ra_rate ra \<and> 1 \<le> ra_channel ra"

definition watermark_ok :: "watermark \<Rightarrow> bool" where
  "watermark_ok w \<longleftrightarrow> - 360 \<le> wm_rotation w \<and> wm_rotation w \<le> 360 \<and> 0 < wm_opacity w \<and> wm_opacity w \<le> 100"

definition options_ok :: "options \<Rightarrow> bool" where
  "options_ok o' \<longleftrightarrow>
     any_ci (o_alpha_engine o') [''opengl'', ''opencv''] \<and> any_ci (o_scale_engine o') [''ffmpeg'', ''opencv'', ''opengl''] \<and>
     any_ci (o_scale_prefer o') [''quality'', ''speed'', ''both''] \<and>
     (case o_alpha_video o' of None \<Rightarrow> True | Some v \<Rightarrow> any_ci v [''left'', ''right'', ''top'', ''bottom'']) \<and>
     1 \<le> o_read_timeout o' \<and> raw_video_ok (o_rawvideo o') \<and> raw_audio_ok (o_rawaudio o') \<and>
     (case o_water o' of None \<Rightarrow> True | Some w \<Rightarrow> watermark_ok w) \<and>
     (case o_blind o' of None \<Rightarrow> True | Some (t, _) \<Rightarrow> length t \<le> 8) \<and>
     (case o_force o' of (w, h) \<Rightarrow> w = 0 \<and> h = 0 \<or> 10 \<le> w \<and> 10 \<le> h)"

lemma clamp_bitrate_range: "1000000 \<le> clamp_bitrate b \<and> clamp_bitrate b \<le> 50000000"
  by (simp add: clamp_bitrate_def Let_def)

lemma options0_ok: "options_ok options0"
  by code_simp

text \<open>An option keeps the invariant when its action does; each action sets one field to a value in range.\<close>

definition keeps_ok :: "opt_result \<Rightarrow> bool" where
  "keeps_ok res \<longleftrightarrow> (case res of OptSet o2 \<Rightarrow> options_ok o2 | _ \<Rightarrow> True)"

named_theorems options_intro

lemma keeps_simps [simp]: "keeps_ok OptStop" "keeps_ok OptUndefined" "keeps_ok OptUnknown" "keeps_ok OptArg"
    "keeps_ok (OptSet o2) = options_ok o2" "keeps_ok (opt_if b o2) \<longleftrightarrow> (b \<longrightarrow> options_ok o2)"
  by (simp_all add: keeps_ok_def opt_if_def)

lemma keeps_value [options_intro]: "(\<And>v. keeps_ok (act v)) \<Longrightarrow> keeps_ok rest \<Longrightarrow> keeps_ok (opt_value p a act rest)"
  by (simp add: opt_value_def)

lemma keeps_flag [options_intro]: "options_ok o2 \<Longrightarrow> keeps_ok rest \<Longrightarrow> keeps_ok (opt_flag p a o2 rest)"
  by (simp add: opt_flag_def)

lemma ok_updates:
  assumes "options_ok o'"
  shows "raw_video_ok rv \<Longrightarrow> options_ok (o'\<lparr>o_rawvideo := rv\<rparr>)"
    "raw_audio_ok ra \<Longrightarrow> options_ok (o'\<lparr>o_rawaudio := ra\<rparr>)"
    "watermark_ok w \<Longrightarrow> options_ok (o'\<lparr>o_water := Some w\<rparr>)"
    "length t \<le> 8 \<Longrightarrow> options_ok (o'\<lparr>o_blind := Some (t, n)\<rparr>)"
    "10 \<le> x \<Longrightarrow> 10 \<le> y \<Longrightarrow> options_ok (o'\<lparr>o_force := (x, y)\<rparr>)"
    "options_ok (o'\<lparr>o_subtitle := st\<rparr>)" "options_ok (o'\<lparr>o_sub := sb\<rparr>)"
  using assms by (simp_all add: options_ok_def)

lemma keeps_watermark [options_intro]: "options_ok o' \<Longrightarrow> keeps_ok (opt_watermark v o')"
  unfolding opt_watermark_def Let_def by (auto simp: watermark_ok_def intro!: ok_updates(3))

lemma keeps_subtitle [options_intro]: "options_ok o' \<Longrightarrow> keeps_ok (opt_subtitle v o')"
  by (simp add: opt_subtitle_def Let_def ok_updates(6))

lemma keeps_video_size [options_intro]: "options_ok o' \<Longrightarrow> keeps_ok (opt_video_size v o')"
  by (auto simp: opt_video_size_def Let_def intro!: ok_updates(5) split: option.split)

lemma keeps_substream [options_intro]: "options_ok o' \<Longrightarrow> keeps_ok (opt_substream v o')"
  by (simp add: opt_substream_def Let_def ok_updates(7) split: option.split)

lemma rawvideo_parts:
  "raw_video_ok (rv\<lparr>rv_bitrate := clamp_bitrate b\<rparr>) \<longleftrightarrow>
     (case rv_fmt rv of None \<Rightarrow> True | Some fmt \<Rightarrow> any_ci fmt [''bgr'', ''bgra'', ''rgb'', ''rgba'', ''yuv420p'']) \<and>
     rv_w rv \<noteq> 0 \<and> rv_h rv \<noteq> 0 \<and> 10 \<le> rv_fps rv"
  using clamp_bitrate_range [of b] by (simp add: raw_video_ok_def)

lemma keeps_rawvideo [options_intro]: "options_ok o' \<Longrightarrow> keeps_ok (opt_rawvideo v o')"
proof -
  assume ok: "options_ok o'"
  obtain rv where rv: "rv = each_field rawvideo_field 0 (splitCString v (CHR '':'')) (o_rawvideo o')" by simp
  show ?thesis
    using ok unfolding opt_rawvideo_def Let_def rv [symmetric]
    by (simp add: ok_updates(1) rawvideo_parts split: option.split)
qed

lemma keeps_rawaudio [options_intro]: "options_ok o' \<Longrightarrow> keeps_ok (opt_rawaudio v o')"
proof -
  assume ok: "options_ok o'"
  obtain ra where ra: "ra = each_field rawaudio_field 0 (splitCString v (CHR '':'')) (o_rawaudio o')" by simp
  show ?thesis
    using ok unfolding opt_rawaudio_def Let_def ra [symmetric]
    by (simp add: ok_updates(2) raw_audio_ok_def split: option.split)
qed

lemma keeps_blind [options_intro]:
  "options_ok o' \<Longrightarrow> keeps_ok (case create_watermark v of None \<Rightarrow> OptStop | Some b \<Rightarrow> OptSet (o'\<lparr>o_blind := Some b\<rparr>))"
  by (simp add: create_watermark_def Let_def ok_updates(4))

lemma keeps_flags [options_intro]: "options_ok o' \<Longrightarrow> keeps_ok rest \<Longrightarrow> keeps_ok (opt_flags a o' rest)"
  unfolding opt_flags_def by (intro options_intro) (simp_all add: options_ok_def)

lemma keeps_running [options_intro]: "options_ok o' \<Longrightarrow> keeps_ok rest \<Longrightarrow> keeps_ok (opt_running file_exists a o' rest)"
  unfolding opt_running_def by (intro options_intro) (simp_all add: options_ok_def)

lemma keeps_picture [options_intro]: "options_ok o' \<Longrightarrow> keeps_ok rest \<Longrightarrow> keeps_ok (opt_picture a o' rest)"
  unfolding opt_picture_def by (intro options_intro) (simp_all add: options_ok_def)

lemma keeps_media [options_intro]: "options_ok o' \<Longrightarrow> keeps_ok rest \<Longrightarrow> keeps_ok (opt_media a o' rest)"
  unfolding opt_media_def by (intro options_intro) (simp_all add: options_ok_def)

lemma option_step_ok: "options_ok o' \<Longrightarrow> keeps_ok (option_step file_exists o' a)"
  unfolding option_step_def by (intro options_intro) simp_all

lemma option_loop_ok:
  "options_ok o' \<Longrightarrow> option_loop file_exists i argv argc o' = ArgsOk o2 argv' n \<Longrightarrow> options_ok o2"
proof (induction file_exists i argv argc o' rule: option_loop.induct)
  case (1 fe i argv argc o')
  show ?case
    using 1(5) 1(1-3) option_step_ok [OF 1(4), of fe "argv ! i"] 1(4)
    by (subst (asm) option_loop.simps) (auto simp: keeps_ok_def split: if_splits opt_result.splits)
qed


lemma opt_flag_else: "\<not> same_ci a p \<Longrightarrow> rest = res \<Longrightarrow> opt_flag p a o2 rest = res"
  by (simp add: opt_flag_def)

lemma opt_value_else: "\<not> starts_with_ci p a \<Longrightarrow> rest = res \<Longrightarrow> opt_value p a act rest = res"
  by (simp add: opt_value_def)

lemma opt_value_then: "starts_with_ci p a \<Longrightarrow> act (drop (length p) a) = res \<Longrightarrow> opt_value p a act rest = res"
  by (simp add: opt_value_def)

lemmas option_unfold = option_step_def opt_flags_def opt_running_def opt_picture_def opt_media_def

lemma read_timeout_option:
  "option_step fe o' ''--Read_Timeout=-5'' = OptSet (o'\<lparr>o_read_timeout := 1\<rparr>)"
proof -
  have "atoi ''-5'' = - 5" by code_simp
  then show ?thesis
    unfolding option_unfold
    by - ((rule opt_flag_else opt_value_else, (code_simp; fail))+, rule opt_value_then, code_simp, simp)
qed

lemma video_size_option:
  "option_step fe o' ''--video_size=640x360'' = OptSet (o'\<lparr>o_force := (640, 360)\<rparr>)"
proof -
  have "strchr ''640x360'' (CHR ''x'') = Some ''x360''" "atoi ''640'' = 640" "atoi ''360'' = 360" by code_simp+
  then have "opt_video_size ''640x360'' o' = OptSet (o'\<lparr>o_force := (640, 360)\<rparr>)"
    by (simp add: opt_video_size_def)
  then show ?thesis
    unfolding option_unfold
    by - ((rule opt_flag_else opt_value_else, (code_simp; fail))+, rule opt_value_then, code_simp, simp)
qed


text \<open>A negative size is not refused, and becomes the size of the output.\<close>

lemma negative_raw_size_accepted:
  "opt_rawvideo ''rgba:-5:1920'' options0 = OptSet (options0\<lparr>o_rawvideo := \<lparr>rv_fmt = Some ''rgba'', rv_w = - 5, rv_h = 1920,
     rv_fps = 25, rv_bitrate = 8000000\<rparr>\<rparr>) \<and>
   output_size (options0\<lparr>o_rawvideo := \<lparr>rv_fmt = Some ''rgba'', rv_w = - 5, rv_h = 1920, rv_fps = 25, rv_bitrate = 8000000\<rparr>\<rparr>) 0 0
     = Some (- 5, 1920)"
  by code_simp

text \<open>An empty outline colour as the last of 13 watermark fields is read from behind its text.\<close>

lemma empty_outline_reads_on: "opt_watermark ''t:f:20:#ffffff:0:50:1:1:0:0:0:0:'' options0 = OptUndefined"
  by code_simp

end
