(* ===== verification/Ff_Reader.thy ===== *)
theory Ff_Reader
  imports Raw_Media C_Double
begin

text \<open>
  Reading media through ffmpeg (\<^verbatim>\<open>decode_audio_frame\<close>, \<^verbatim>\<open>decode_video_frame\<close> and the ffmpeg
  part of \<^verbatim>\<open>read_video_frame\<close> and \<^verbatim>\<open>read_audio_data\<close> in \<^verbatim>\<open>videoplayer.cpp\<close>). What ffmpeg
  does is a script: \<open>av_event\<close> is one call of \<^verbatim>\<open>av_read_frame\<close>, with what the decoder of either
  kind would give for that packet and the clock at that time. A picture is its converted bytes, or the
  failure of the conversion. A call that has used up the script has not returned (\<open>Blocked\<close>); a write
  beyond a buffer is \<open>Broken\<close>.
\<close>

section \<open>What ffmpeg gives\<close>

text \<open>Return codes: not negative, \<^verbatim>\<open>AVERROR(EAGAIN)\<close>, \<^verbatim>\<open>AVERROR_EOF\<close>, any other error.\<close>

datatype av_ret = AvOk | AvAgain | AvEof | AvError

datatype picture = Pixels "byte list" | NoPicture

record decoded_video =
  dv_send :: av_ret
  dv_frames :: "(int \<times> picture) list"
  dv_end :: av_ret

datatype resampled = Samples "byte list" | NoSamples | SwrError

record decoded_audio =
  da_send :: av_ret
  da_frames :: "(int \<times> resampled) list"
  da_end :: av_ret

datatype demuxed = DxPacket int | DxEof | DxError

record av_event =
  av_demux :: demuxed
  av_video :: decoded_video
  av_audio :: decoded_audio
  av_now :: int

section \<open>The reader\<close>

record ff_reader = FFReader +
  ff_rnd :: rounding
  ff_stream :: bool
  streamIndex :: int
  audioStreamIndex :: int
  video_timebase :: rat
  audio_timebase :: rat
  video_pts_time :: rat
  audio_pts_time :: rat
  displayBuffer :: "byte list"
  buffers :: "byte list list"
  ff_fps :: rat
  aud_channel :: int
  aud_bitrate :: int
  audio_adjusted :: bool

text \<open>What the caller's pointer \<^verbatim>\<open>*buffer\<close> points to.\<close>

datatype slot = NullSlot | DisplaySlot | RawSlot

definition slot_bytes :: "slot \<Rightarrow> ff_reader \<Rightarrow> byte list option" where
  "slot_bytes sl r = (case sl of NullSlot \<Rightarrow> None | DisplaySlot \<Rightarrow> Some (displayBuffer r) | RawSlot \<Rightarrow> Some (rawBuffer r))"

datatype 'a outcome = Done 'a | Blocked | Broken

definition AudioBufferSize :: int where "AudioBufferSize = 192000"

section \<open>Decoding a packet\<close>

text \<open>The room for more audio: another megabyte, or beyond ten megabytes everything is dropped.\<close>

definition make_room :: "int \<Rightarrow> ff_reader \<Rightarrow> ff_reader" where
  "make_room bytes r =
     (if size_t (bytes + audio_size r) > int (length (rawAudio r))
      then (if int (length (rawAudio r)) > 10 * 1024 * 1024 then r\<lparr>audio_size := 0\<rparr>
            else r\<lparr>rawAudio := rawAudio r @ replicate (nat (1024 * 1024)) 0\<rparr>)
      else r)"

definition store_pcm :: "byte list \<Rightarrow> ff_reader \<Rightarrow> ff_reader option" where
  "store_pcm bs r =
     (if audio_size r < 0 \<or> audio_size r + int (length bs) > int (length (rawAudio r)) then None
      else Some (r\<lparr>rawAudio := write_at (rawAudio r) (audio_size r) bs, audio_size := audio_size r + int (length bs)\<rparr>))"

fun audio_frames_loop :: "av_ret \<Rightarrow> (int \<times> resampled) list \<Rightarrow> ff_reader \<Rightarrow> (av_ret \<times> ff_reader) option" where
  "audio_frames_loop fin [] r = Some (fin, r)"
| "audio_frames_loop fin ((pts, NoSamples) # fs) r = audio_frames_loop fin fs r"
| "audio_frames_loop fin ((pts, SwrError) # fs) r = Some (AvError, r)"
| "audio_frames_loop fin ((pts, Samples bs) # fs) r =
     (if int (length bs) > AudioBufferSize then None
      else case store_pcm bs (make_room (int (length bs)) r) of
        None \<Rightarrow> None
      | Some r1 \<Rightarrow> audio_frames_loop fin fs (r1\<lparr>audio_pts_time := f_mul (ff_rnd r1) (of_int pts) (audio_timebase r1)\<rparr>))"

definition decode_audio_frame :: "decoded_audio \<Rightarrow> ff_reader \<Rightarrow> (av_ret \<times> ff_reader) option" where
  "decode_audio_frame da r =
     (if da_send da = AvOk then audio_frames_loop (da_end da) (da_frames da) r else Some (da_send da, r))"

text \<open>The pointer to \<^verbatim>\<open>*video_buffer\<close>; reading audio passes a null pointer.\<close>

definition keep_shown :: "slot option \<Rightarrow> ff_reader \<Rightarrow> slot option \<times> ff_reader" where
  "keep_shown vb r = (if vb = Some DisplaySlot then (Some RawSlot, r\<lparr>rawBuffer := displayBuffer r\<rparr>) else (vb, r))"

definition place_picture :: "byte list \<Rightarrow> slot option \<times> ff_reader \<Rightarrow> slot option \<times> ff_reader" where
  "place_picture bs p =
     (case p of (vb, r) \<Rightarrow>
        if vb = Some NullSlot then (Some DisplaySlot, r\<lparr>displayBuffer := bs\<rparr>)
        else (vb, r\<lparr>displayBuffer := bs, buffers := buffers r @ [bs]\<rparr>))"

fun video_frames_loop :: "av_ret \<Rightarrow> (int \<times> picture) list \<Rightarrow> slot option \<Rightarrow> ff_reader \<Rightarrow> av_ret \<times> slot option \<times> ff_reader" where
  "video_frames_loop fin [] vb r = (fin, vb, r)"
| "video_frames_loop fin ((pts, pic) # fs) vb r =
     (let r1 = r\<lparr>video_pts_time := f_mul (ff_rnd r) (of_int pts) (video_timebase r)\<rparr>;
          p = keep_shown vb r1
      in case pic of
           NoPicture \<Rightarrow> (AvError, p)
         | Pixels bs \<Rightarrow> (case place_picture bs p of (vb2, r2) \<Rightarrow> video_frames_loop fin fs vb2 r2))"

definition decode_video_frame :: "decoded_video \<Rightarrow> slot option \<Rightarrow> ff_reader \<Rightarrow> av_ret \<times> slot option \<times> ff_reader" where
  "decode_video_frame dv vb r =
     (if dv_send dv = AvOk then video_frames_loop (dv_end dv) (dv_frames dv) vb r else (dv_send dv, vb, r))"

section \<open>Reading pictures\<close>

definition too_old :: "int \<Rightarrow> ff_reader \<Rightarrow> bool" where
  "too_old now r \<longleftrightarrow> update_time r + 1 < now \<and> ff_stream r"

definition refresh_video :: "int \<Rightarrow> ff_reader \<Rightarrow> ff_reader" where
  "refresh_video now r =
     (if too_old now r then r\<lparr>buffers := [], audio_size := 0, audio_adjusted := False\<rparr> else r)\<lparr>update_time := now\<rparr>"

text \<open>After an audio packet of a stream that was silent for long only its audio is kept; a negative
  length there is a \<^verbatim>\<open>memmove\<close> of a huge size.\<close>

definition keep_new_audio :: "int \<Rightarrow> ff_reader \<Rightarrow> ff_reader option" where
  "keep_new_audio old r =
     (if audio_size r < old then None
      else Some (r\<lparr>buffers := [], rawAudio := write_at (rawAudio r) 0 (take (nat (audio_size r - old)) (drop (nat old) (rawAudio r))),
             audio_size := audio_size r - old\<rparr>))"

definition stream_of :: "int \<Rightarrow> demuxed \<Rightarrow> int option" where
  "stream_of at_end dx = (case dx of DxPacket i \<Rightarrow> Some i | DxEof \<Rightarrow> Some at_end | DxError \<Rightarrow> None)"

definition end_code :: "av_ret \<Rightarrow> int" where
  "end_code ret = (if ret = AvError then - 1 else 0)"

text \<open>The audio branch of \<^verbatim>\<open>read_video_frame\<close>, whose \<^verbatim>\<open>ret\<close> is still that of \<^verbatim>\<open>av_read_frame\<close>.\<close>

definition audio_in_video :: "av_event \<Rightarrow> ff_reader \<Rightarrow> ff_reader option" where
  "audio_in_video e r =
     (case decode_audio_frame (av_audio e) r of
        None \<Rightarrow> None
      | Some (_, r1) \<Rightarrow>
          if av_demux e = DxEof then Some r1
          else if too_old (av_now e) r1
          then map_option (\<lambda>r2. r2\<lparr>audio_adjusted := False, update_time := av_now e\<rparr>) (keep_new_audio (audio_size r) r1)
          else Some (r1\<lparr>update_time := av_now e\<rparr>))"

fun ff_video_loop :: "av_event list \<Rightarrow> slot \<Rightarrow> ff_reader \<Rightarrow> (int \<times> slot \<times> ff_reader \<times> av_event list) outcome" where
  "ff_video_loop [] sl r = Blocked"
| "ff_video_loop (e # es) sl r =
     (case stream_of (streamIndex r) (av_demux e) of
        None \<Rightarrow> Done (- 1, sl, r, es)
      | Some i \<Rightarrow>
          if i = streamIndex r then
            (case decode_video_frame (av_video e) (Some sl) r of (ret, vb, r1) \<Rightarrow>
               let sl1 = (case vb of None \<Rightarrow> NullSlot | Some s \<Rightarrow> s);
                   r2 = (if ret = AvOk \<and> sl1 \<noteq> NullSlot then refresh_video (av_now e) r1 else r1)
               in if ret = AvAgain \<and> sl1 = NullSlot then ff_video_loop es sl1 r2
                  else Done (end_code ret, sl1, r2, es))
          else if decode_audio r \<and> i = audioStreamIndex r then
            (case audio_in_video e r of None \<Rightarrow> Broken | Some r1 \<Rightarrow> ff_video_loop es sl r1)
          else ff_video_loop es sl r)"

definition next_buffered :: "int \<Rightarrow> ff_reader \<Rightarrow> ff_reader" where
  "next_buffered now r = r\<lparr>displayBuffer := hd (buffers r), buffers := tl (buffers r), update_time := now\<rparr>"

definition ff_read_video :: "int \<Rightarrow> av_event list \<Rightarrow> ff_reader \<Rightarrow> (int \<times> slot \<times> ff_reader \<times> av_event list) outcome" where
  "ff_read_video now es r =
     (if \<not> decode_video r then Done (0, NullSlot, r, es)
      else if buffers r \<noteq> [] then Done (0, DisplaySlot, next_buffered now r, es)
      else ff_video_loop es NullSlot r)"

section \<open>Reading audio\<close>

definition refresh_audio_video :: "int \<Rightarrow> ff_reader \<Rightarrow> ff_reader" where
  "refresh_audio_video now r =
     (if too_old now r
      then r\<lparr>buffers := (if length (buffers r) > 1 then [last (buffers r)] else buffers r), audio_size := 0\<rparr>
      else r)\<lparr>update_time := now\<rparr>"

definition enough :: "int \<Rightarrow> ff_reader \<Rightarrow> bool" where
  "enough max_length r \<longleftrightarrow> audio_size r + AUDIO_DELTA \<ge> max_length"

text \<open>How a decoded packet ends the turn: go on, hand over what there is, or give up.\<close>

datatype after_decode = GoOn | HandOver | GiveUp

definition after_failure :: "int \<Rightarrow> av_ret \<Rightarrow> ff_reader \<Rightarrow> after_decode" where
  "after_failure max_length ret r =
     (if ret = AvAgain \<and> \<not> enough max_length r then GoOn else if ret = AvError then GiveUp else HandOver)"

definition audio_turn_video :: "int \<Rightarrow> av_event \<Rightarrow> ff_reader \<Rightarrow> after_decode \<times> ff_reader" where
  "audio_turn_video max_length e r =
     (case decode_video_frame (av_video e) None r of (ret, _, r1) \<Rightarrow>
        if ret \<noteq> AvOk then (after_failure max_length ret r1, r1)
        else let r2 = refresh_audio_video (av_now e) r1 in (if enough max_length r2 then HandOver else GoOn, r2))"

definition audio_turn_audio :: "int \<Rightarrow> av_event \<Rightarrow> ff_reader \<Rightarrow> (after_decode \<times> ff_reader) option" where
  "audio_turn_audio max_length e r =
     (case decode_audio_frame (av_audio e) r of
        None \<Rightarrow> None
      | Some (ret, r1) \<Rightarrow>
          if ret \<noteq> AvOk then Some (after_failure max_length ret r1, r1)
          else (case (if too_old (av_now e) r1 then keep_new_audio (audio_size r) r1 else Some r1) of
                  None \<Rightarrow> None
                | Some r2 \<Rightarrow> let r3 = r2\<lparr>update_time := av_now e\<rparr> in Some (if enough max_length r3 then HandOver else GoOn, r3)))"

fun ff_audio_loop :: "int \<Rightarrow> av_event list \<Rightarrow> ff_reader \<Rightarrow> (audio_result \<times> ff_reader \<times> av_event list) outcome" where
  "ff_audio_loop max_length [] r = Blocked"
| "ff_audio_loop max_length (e # es) r =
     (case stream_of (if decode_video r then streamIndex r else audioStreamIndex r) (av_demux e) of
        None \<Rightarrow> Done (AFail, r, es)
      | Some i \<Rightarrow>
          (case (if decode_video r \<and> i = streamIndex r then Some (audio_turn_video max_length e r)
                 else if i = audioStreamIndex r then audio_turn_audio max_length e r
                 else Some (GoOn, r)) of
             None \<Rightarrow> Broken
           | Some (GoOn, r1) \<Rightarrow> ff_audio_loop max_length es r1
           | Some (GiveUp, r1) \<Rightarrow> Done (AFail, r1, es)
           | Some (HandOver, r1) \<Rightarrow>
               (case pcm_result (take_pcm (av_now e) max_length r1) of (a, r2) \<Rightarrow> Done (a, r2, es))))"

definition ff_read_audio :: "int \<Rightarrow> int \<Rightarrow> av_event list \<Rightarrow> ff_reader \<Rightarrow> (audio_result \<times> ff_reader \<times> av_event list) outcome" where
  "ff_read_audio now max_length es r =
     (if \<not> decode_audio r then Done (AData [], r, es)
      else if enough max_length r
      then (case pcm_result (take_pcm now max_length r) of (a, r1) \<Rightarrow> Done (a, r1, es))
      else if max_length = 0 then Done (AData [], r, es)
      else ff_audio_loop max_length es r)"

end
