(* ===== verification/Ff_Open.thy ===== *)
theory Ff_Open
  imports Ff_Reader C_Text "HOL-Library.While_Combinator"
begin

text \<open>
  Opening, closing and reopening a media reader (\<^verbatim>\<open>open_video_reader\<close>, \<^verbatim>\<open>read_video_close_only\<close>,
  \<^verbatim>\<open>reopen_video_reader\<close>, \<^verbatim>\<open>new_video_reader\<close>, \<^verbatim>\<open>open_raw_video\<close>, \<^verbatim>\<open>get_rotation\<close> and
  \<^verbatim>\<open>parse_pix_fmt\<close> of \<^verbatim>\<open>videoplayer.cpp\<close>). The answers of ffmpeg are a record, \<open>probe\<close>; each
  question the code asks has its field, in the order of the code.
\<close>

section \<open>What ffmpeg answers\<close>

record probe =
  pb_open :: bool
  pb_info :: bool
  pb_duration :: "int option"
  pb_video :: "int option"
  pb_vparams :: bool
  pb_rotate_tag :: "(string \<times> rat \<times> bool) option"
  pb_matrix :: "rat option"
  pb_decoder :: bool
  pb_vcontext :: bool
  pb_vopen :: bool
  pb_pix_fmt :: int
  pb_size :: "int \<times> int"
  pb_time_base :: rat
  pb_frame_rate :: rat
  pb_bit_rate :: int
  pb_image_size :: "int \<Rightarrow> int \<Rightarrow> int \<Rightarrow> int"
  pb_fill :: bool
  pb_sws :: bool
  pb_audio :: "int option"
  pb_aparams :: bool
  pb_acontext :: bool
  pb_aopen :: bool
  pb_atime_base :: rat
  pb_aframe_rate :: rat
  pb_swr :: bool

datatype sws_flag = SWS_BILINEAR | SWS_BICUBIC | SWS_BICUBLIN | SWS_FAST_BILINEAR

text \<open>The members of \<^verbatim>\<open>FFReader\<close> that opening sets, beside those that reading uses.\<close>

record media_reader = ff_reader +
  mr_open :: bool
  mr_raw :: bool
  mr_width :: int
  mr_height :: int
  disp_width :: int
  disp_height :: int
  mr_rotation :: rat
  mr_bitrate :: int
  mr_buffersize :: int
  mr_totaltime :: int
  mr_pix_fmt :: int
  mr_out_pix_fmt :: int
  mr_scale_prefer :: "string option"
  mr_flag :: sws_flag

section \<open>Rotation and rate\<close>

text \<open>\<^verbatim>\<open>get_rotation\<close>: the tag if it is a number other than 0, else the matrix, normalised.\<close>

definition raw_rotation :: "probe \<Rightarrow> rat" where
  "raw_rotation pb =
     (let theta = (case pb_rotate_tag pb of None \<Rightarrow> 0
                   | Some (tag, v, tail) \<Rightarrow> if tag \<noteq> [] \<and> tag \<noteq> ''0'' \<and> \<not> tail then v else 0)
      in case pb_matrix pb of None \<Rightarrow> theta | Some m \<Rightarrow> if theta = 0 then - m else theta)"

definition get_rotation :: "rounding \<Rightarrow> probe \<Rightarrow> rat" where
  "get_rotation rnd pb =
     (let theta = raw_rotation pb
      in f_sub rnd theta (f_mul rnd 360 (of_int \<lfloor>f_add rnd (f_div rnd theta 360) (f_div rnd (rnd (9 / 10)) 360)\<rfloor>)))"

text \<open>The two loops after it.\<close>

definition turn_into_range :: "rounding \<Rightarrow> rat \<Rightarrow> rat option" where
  "turn_into_range rnd rot =
     (case while_option (\<lambda>x. x < rnd (- 1 / 10)) (\<lambda>x. f_add rnd x 360) rot of
        None \<Rightarrow> None
      | Some x \<Rightarrow> while_option (\<lambda>x. x > 360) (\<lambda>x. f_sub rnd x 360) x)"

definition quarter_turn :: "rounding \<Rightarrow> rat \<Rightarrow> bool" where
  "quarter_turn rnd rot \<longleftrightarrow> rot > rnd (1 / 10) \<and> (\<bar>f_sub rnd rot 90\<bar> < 1 \<or> \<bar>f_sub rnd rot 270\<bar> < 1)"

text \<open>\<^verbatim>\<open>0.01f\<close> and \<^verbatim>\<open>0.00000001f\<close> are the floats next to these numbers.\<close>

definition float_hundredth :: rat where "float_hundredth = 10737418 / 2 ^ 30"
definition float_1e_8 :: rat where "float_1e_8 = 11258999 / 2 ^ 50"

definition choose_fps :: "rounding \<Rightarrow> rat \<Rightarrow> rat \<Rightarrow> rat" where
  "choose_fps rnd tb fr =
     (let fps = (if tb > float_hundredth then f_div rnd 1 tb else fr) in if fps > 60 then 30 else fps)"

definition audio_base :: "rounding \<Rightarrow> probe \<Rightarrow> rat \<Rightarrow> rat" where
  "audio_base rnd pb vtb =
     (if pb_atime_base pb > float_1e_8 then pb_atime_base pb
      else if pb_aframe_rate pb < 1 then vtb else f_div rnd 1 (pb_aframe_rate pb))"

definition scale_flag :: "string option \<Rightarrow> int \<Rightarrow> int \<Rightarrow> sws_flag" where
  "scale_flag pref width dw =
     (case pref of None \<Rightarrow> SWS_BILINEAR
      | Some p \<Rightarrow> if starts_with_ci ''quality'' p then (if width > dw then SWS_BICUBIC else SWS_BICUBLIN)
          else if starts_with_ci ''speed'' p then SWS_FAST_BILINEAR else SWS_BILINEAR)"

section \<open>Opening and closing\<close>

definition read_video_close_only :: "media_reader \<Rightarrow> media_reader" where
  "read_video_close_only r =
     r\<lparr>buffers := [], rawBuffer := [], rawAudio := [], audio_size := 0, mr_open := False, mr_raw := False,
       video_pts_time := - 1, audio_pts_time := - 1\<rparr>"

text \<open>The size on display: a given one is exchanged for a video that lies on its side.\<close>

definition set_display :: "rounding \<Rightarrow> media_reader \<Rightarrow> media_reader" where
  "set_display rnd r =
     (if disp_width r > 0 \<and> disp_height r > 0
      then (if quarter_turn rnd (mr_rotation r) then r\<lparr>disp_width := disp_height r, disp_height := disp_width r\<rparr> else r)
      else r\<lparr>disp_width := mr_width r, disp_height := mr_height r\<rparr>)"

text \<open>How opening went: the result code, a loop that never ends, or the null decoder, whose name is
  read before the test for it.\<close>

datatype open_result = Opened media_reader | OpenFailed media_reader | OpenHangs | OpenCrashes

definition set_codec :: "probe \<Rightarrow> media_reader \<Rightarrow> media_reader" where
  "set_codec pb r = r\<lparr>mr_pix_fmt := pb_pix_fmt pb, mr_width := fst (pb_size pb), mr_height := snd (pb_size pb)\<rparr>"

definition set_video :: "probe \<Rightarrow> media_reader \<Rightarrow> media_reader" where
  "set_video pb r =
     (let n = pb_image_size pb (mr_out_pix_fmt r) (disp_width r) (disp_height r)
      in r\<lparr>ff_fps := choose_fps (ff_rnd r) (pb_time_base pb) (pb_frame_rate pb), video_timebase := pb_time_base pb,
           mr_bitrate := pb_bit_rate pb, mr_buffersize := n,
           displayBuffer := take (nat n) (displayBuffer r) @ replicate (nat n - length (displayBuffer r)) 0,
           mr_flag := scale_flag (mr_scale_prefer r) (mr_width r) (disp_width r)\<rparr>)"

definition open_video_part :: "probe \<Rightarrow> media_reader \<Rightarrow> open_result" where
  "open_video_part pb r =
     (let rnd = ff_rnd r
      in case pb_video pb of None \<Rightarrow> OpenFailed r
       | Some idx \<Rightarrow>
           let r1 = r\<lparr>streamIndex := idx\<rparr>
           in if \<not> pb_vparams pb then OpenFailed r1
              else case turn_into_range rnd (get_rotation rnd pb) of
                None \<Rightarrow> OpenHangs
              | Some rot \<Rightarrow>
                  let r2 = r1\<lparr>mr_rotation := rot\<rparr>
                  in if \<not> pb_decoder pb then OpenCrashes
                     else if \<not> pb_vcontext pb \<or> \<not> pb_vopen pb then OpenFailed r2
                     else let r3 = set_video pb (set_display rnd (set_codec pb r2))
                          in if pb_fill pb \<and> pb_sws pb then Opened r3 else OpenFailed r3)"

definition open_audio_part :: "probe \<Rightarrow> media_reader \<Rightarrow> open_result" where
  "open_audio_part pb r =
     (case pb_audio pb of
        None \<Rightarrow> Opened (r\<lparr>decode_audio := False\<rparr>)
      | Some idx \<Rightarrow>
          let r1 = r\<lparr>audioStreamIndex := idx\<rparr>
          in if \<not> pb_aparams pb \<or> \<not> pb_acontext pb \<or> \<not> pb_aopen pb then OpenFailed r1
             else let r2 = r1\<lparr>audio_timebase := audio_base (ff_rnd r1) pb (video_timebase r1)\<rparr>
                  in if \<not> pb_swr pb then OpenFailed r2 else Opened (r2\<lparr>audio_size := 0\<rparr>))"

definition and_then :: "open_result \<Rightarrow> (media_reader \<Rightarrow> open_result) \<Rightarrow> open_result" where
  "and_then res f = (case res of Opened r \<Rightarrow> f r | _ \<Rightarrow> res)"

text \<open>\<^verbatim>\<open>open_video_reader (FFReader *)\<close>; a failure closes what was opened.\<close>

definition open_video_reader :: "probe \<Rightarrow> media_reader \<Rightarrow> open_result" where
  "open_video_reader pb r =
     (if mr_raw r \<or> mr_open r then Opened r
      else
        let r0 = r\<lparr>mr_rotation := 0\<rparr>;
            res = (if \<not> pb_open pb \<or> \<not> pb_info pb then OpenFailed r0
                   else and_then (and_then
                     (Opened (r0\<lparr>mr_open := True, mr_totaltime := (case pb_duration pb of None \<Rightarrow> 0 | Some d \<Rightarrow> c_div (d + 5000) 1000)\<rparr>))
                     (\<lambda>r. if decode_video r then open_video_part pb r else Opened r))
                     (\<lambda>r. if decode_audio r then open_audio_part pb r else Opened r))
        in case res of OpenFailed r1 \<Rightarrow> OpenFailed (read_video_close_only r1) | _ \<Rightarrow> res)"

definition reopen_video_reader :: "probe \<Rightarrow> media_reader \<Rightarrow> open_result" where
  "reopen_video_reader pb r =
     (if mr_raw r then Opened r
      else open_video_reader pb (if mr_open r then read_video_close_only r else r))"

text \<open>\<^verbatim>\<open>new_video_reader\<close>: sizes, rates and formats are the caller's, \<open>r0\<close> holds the members that the
  constructor leaves as they are.\<close>

definition new_video_reader ::
  "media_reader \<Rightarrow> bool \<Rightarrow> bool \<Rightarrow> bool \<Rightarrow> int \<Rightarrow> int \<Rightarrow> string option \<Rightarrow> int \<Rightarrow> int \<Rightarrow> int \<Rightarrow> media_reader option" where
  "new_video_reader r0 stream dv da width height pref out_fmt out_channel out_rate =
     (if \<not> da \<and> \<not> dv then None
      else Some (r0\<lparr>decode_video := dv, decode_audio := da, aud_fmt := True, audio_size := 0, rawAudio := [], rawBuffer := [],
             update_time := 0, ff_stream := stream, streamIndex := - 1, audioStreamIndex := - 1, video_pts_time := - 1,
             audio_pts_time := - 1, displayBuffer := [], buffers := [], aud_channel := out_channel, aud_bitrate := out_rate,
             audio_adjusted := False, mr_open := False, mr_raw := False, disp_width := width, disp_height := height,
             mr_rotation := 0, mr_out_pix_fmt := out_fmt, mr_scale_prefer := pref\<rparr>))"

section \<open>Raw input\<close>

text \<open>\<^verbatim>\<open>parse_pix_fmt\<close>: \<open>None\<close> is \<^verbatim>\<open>AV_PIX_FMT_NONE\<close>.\<close>

datatype pix_fmt = AV_PIX_FMT_BGRA | AV_PIX_FMT_BGR24 | AV_PIX_FMT_RGBA | AV_PIX_FMT_RGB24 | AV_PIX_FMT_YUV420P

definition parse_pix_fmt :: "string option \<Rightarrow> pix_fmt option" where
  "parse_pix_fmt fmt =
     (case fmt of None \<Rightarrow> None
      | Some s \<Rightarrow>
          if same_ci s ''bgra'' then Some AV_PIX_FMT_BGRA else if same_ci s ''bgr'' then Some AV_PIX_FMT_BGR24
          else if same_ci s ''rgba'' then Some AV_PIX_FMT_RGBA else if same_ci s ''rgb'' then Some AV_PIX_FMT_RGB24
          else if same_ci s ''yuv420p'' then Some AV_PIX_FMT_YUV420P else None)"

text \<open>\<^verbatim>\<open>AV_PIX_FMT_YUV420P\<close> is the enumerator 0, which the code takes for no format.\<close>

definition fmt_is_zero :: "pix_fmt option \<Rightarrow> bool" where
  "fmt_is_zero f \<longleftrightarrow> f = Some AV_PIX_FMT_YUV420P"

text \<open>The answers of the libraries when raw input is opened: size of an image, filling the arrays,
  the scaler, and the source itself.\<close>

record raw_probe =
  rp_image_size :: "pix_fmt option \<Rightarrow> int \<Rightarrow> int \<Rightarrow> int"
  rp_fill :: bool
  rp_sws :: bool
  rp_shm :: bool
  rp_file :: bool

record raw_request =
  rq_file :: string
  rq_disp :: "int \<times> int"
  rq_prefer :: "string option"
  rq_fmt :: "string option"
  rq_out_fmt :: "string option"
  rq_size :: "int \<times> int"
  rq_fps :: rat
  rq_bitrate :: int
  rq_aud_fmt :: "string option"
  rq_channel :: int
  rq_rate :: int

datatype raw_open = RawNull | RawUseAfterFree | RawOpened media_reader

definition raw_source_ok :: "raw_probe \<Rightarrow> string \<Rightarrow> bool" where
  "raw_source_ok rp f \<longleftrightarrow> (if f = ''-'' then True else if take 6 f = ''shm://'' then rp_shm rp else rp_file rp)"

definition raw_reader0 :: "raw_probe \<Rightarrow> raw_request \<Rightarrow> bool \<Rightarrow> media_reader \<Rightarrow> media_reader" where
  "raw_reader0 rp q dv r0 =
     (let (dw, dh) = rq_disp q; (w, h) = rq_size q;
          dw1 = (if dw = 0 then w else dw); dh1 = (if dh = 0 then h else dh);
          fs = (if dv then rp_image_size rp (parse_pix_fmt (rq_fmt q)) w h else 0);
          bs = (if dv then rp_image_size rp (parse_pix_fmt (rq_out_fmt q)) dw1 dh1 else 0)
      in r0\<lparr>decode_video := dv, decode_audio := rq_aud_fmt q \<noteq> None, aud_fmt := rq_aud_fmt q \<noteq> None, ff_fps := rq_fps q,
            mr_rotation := 0, disp_width := dw1, disp_height := dh1, mr_width := w, mr_height := h, mr_bitrate := rq_bitrate q,
            aud_bitrate := rq_rate q, aud_channel := rq_channel q, rd_product := 0, update_time := 0, audio_size := 0,
            video_pts_time := - 1, audio_pts_time := - 1, audio_adjusted := False, framesize := fs, mr_buffersize := bs,
            rawBuffer := replicate (nat fs) 0, displayBuffer := replicate (nat bs) 0, buffers := [],
            rawAudio := (if rq_aud_fmt q \<noteq> None then replicate (nat (1024 * 1024)) 0 else []),
            mr_flag := scale_flag (rq_prefer q) w dw1\<rparr>)"

definition open_raw_video :: "raw_probe \<Rightarrow> raw_request \<Rightarrow> media_reader \<Rightarrow> raw_open" where
  "open_raw_video rp q r0 =
     (let fmt = parse_pix_fmt (rq_fmt q); out = parse_pix_fmt (rq_out_fmt q);
          dv = (rq_fmt q \<noteq> None \<and> \<not> fmt_is_zero out)
      in if (rq_fmt q \<noteq> None \<and> fmt = None) \<or> (rq_out_fmt q \<noteq> None \<and> out = None) then RawNull
         else if \<not> dv \<and> rq_aud_fmt q = None then RawNull
         else if dv \<and> (\<not> rp_fill rp \<or> \<not> rp_sws rp) then RawNull
         else if raw_source_ok rp (rq_file q) then RawOpened ((raw_reader0 rp q dv r0)\<lparr>mr_raw := True\<rparr>)
         else if take 6 (rq_file q) = ''shm://'' then RawUseAfterFree
         else RawNull)"

end
