(* ===== verification/Main_Setup.thy ===== *)
theory Main_Setup
  imports Main_Options Overlap Ff_Open
begin

text \<open>
  What \<^verbatim>\<open>main\<close> (\<^verbatim>\<open>decorateVideo.cpp\<close>) settles between the options and the frame loop, and
  what it writes of each frame: rate, bit rate and duration from the main media, the first product, the size
  given to the encoder, the grid of the text watermark, the order in which it takes its resources with the
  cleanup of each failure, the frame of an \<^verbatim>\<open>mp4alpha\<close> output, and when the blind watermark is
  drawn (\<^verbatim>\<open>FFTWaterMark::draw\<close>). The outcome of a system call is a parameter.
\<close>

section \<open>Rate, bit rate and duration\<close>

record media_plan =
  mp_fps :: int
  mp_bitrate :: int
  mp_duration :: int
  mp_ctx_w :: int
  mp_ctx_h :: int
  mp_rect :: cv_rect

definition one_week_ms :: int where "one_week_ms = 7 * 24 * 3600 * 1000"

definition plan0 :: "output_spec \<Rightarrow> cv_rect \<Rightarrow> media_plan" where
  "plan0 os q = \<lparr>mp_fps = (if os_fps os \<noteq> 0 then os_fps os else 15), mp_bitrate = (if os_bitrate os \<noteq> 0 then os_bitrate os else 2000000),
     mp_duration = one_week_ms, mp_ctx_w = 0, mp_ctx_h = 0, mp_rect = q\<rparr>"

text \<open>The letter of \<^verbatim>\<open>--alpha_video\<close>, or 0.\<close>

definition alpha_letter :: "options \<Rightarrow> int" where
  "alpha_letter o' = (case o_alpha_video o' of Some (c # _) \<Rightarrow> to_lower c | _ \<Rightarrow> 0)"

definition stream_bitrate :: "options \<Rightarrow> int \<Rightarrow> int" where
  "stream_bitrate o' b =
     (let b1 = to_i32 b; b2 = (if b1 < 1000000 then 1000000 else b1)
      in if o_rtmpout o' \<noteq> None \<and> b2 > 6000000 then 6000000 else b2)"

definition plan_main_video :: "rounding \<Rightarrow> options \<Rightarrow> output_spec \<Rightarrow> media_reader \<Rightarrow> media_plan \<Rightarrow> media_plan" where
  "plan_main_video r o' os rd p =
     (let a = alpha_letter o';
          w = (if a = code (CHR ''l'') \<or> a = code (CHR ''r'') then c_div (disp_width rd) 2 else disp_width rd);
          h = (if a = code (CHR ''t'') \<or> a = code (CHR ''b'') then c_div (disp_height rd) 2 else disp_height rd);
          q = mp_rect p
      in p\<lparr>mp_ctx_w := w, mp_ctx_h := h,
           mp_rect := q\<lparr>rwidth := (if rwidth q = 0 then w else rwidth q), rheight := (if rheight q = 0 then h else rheight q)\<rparr>,
           mp_fps := (if os_fps os = 0 then f_trunc (f_add r (ff_fps rd) (1 / 2)) else mp_fps p),
           mp_bitrate := (if os_bitrate os = 0 then stream_bitrate o' (mr_bitrate rd) else mp_bitrate p),
           mp_duration := mr_totaltime rd\<rparr>)"

text \<open>Main audio from a file: the reader's time, or that of \<^verbatim>\<open>get_video_duration\<close>; \<open>None\<close> ends
  the program.\<close>

definition plan_main_audio :: "bool \<Rightarrow> int option \<Rightarrow> int \<Rightarrow> media_plan \<Rightarrow> media_plan option" where
  "plan_main_audio raw reader_time probed p =
     (if raw then Some (p\<lparr>mp_duration := one_week_ms\<rparr>)
      else let d = (case reader_time of Some t \<Rightarrow> t | None \<Rightarrow> probed) in if d \<le> 0 then None else Some (p\<lparr>mp_duration := d\<rparr>))"

text \<open>\<^verbatim>\<open>1000000000LL / fps\<close>, the pause between frames of a stream; a division by zero is \<open>None\<close>.\<close>

definition frame_period :: "int \<Rightarrow> int option" where
  "frame_period fps = (if fps = 0 then None else Some (c_div 1000000000 fps))"

fun first_product :: "material list \<Rightarrow> int \<Rightarrow> int" where
  "first_product [] p = p"
| "first_product (m # ms) p = first_product ms (if product_id m > 0 \<and> (p < 0 \<or> product_id m < p) then product_id m else p)"

definition encoder_size :: "output_spec \<Rightarrow> int \<times> int" where
  "encoder_size os =
     (if same_ci (os_fmt os) ''mp4alpha''
      then (if os_width os > os_height os then (os_width os, os_height os * 2) else (os_width os * 2, os_height os))
      else (os_width os, os_height os))"

section \<open>Text watermark\<close>

record mark_layout =
  ml_rows :: int
  ml_cols :: int
  ml_repeat :: bool
  ml_width :: int
  ml_height :: int

definition mark_grid :: "output_spec \<Rightarrow> watermark \<Rightarrow> mark_layout" where
  "mark_grid os w =
     (let tall = os_height os > os_width os;
          rows = (if wm_rows w = 0 then (if tall then 5 else 6) else wm_rows w);
          cols = (if wm_cols w = 0 then (if tall then 3 else 6) else wm_cols w);
          rep = (rows \<noteq> 1 \<and> cols \<noteq> 1)
      in \<lparr>ml_rows = rows, ml_cols = cols, ml_repeat = rep,
          ml_width = (if rep then c_div (os_width os) cols else rwidth (wm_rect w)),
          ml_height = (if rep then c_div (os_height os) rows else rheight (wm_rect w))\<rparr>)"

text \<open>The matrix of the mark and where the drawn text of size \<open>tw\<close> by \<open>th\<close> lies in it.\<close>

definition mark_place :: "mark_layout \<Rightarrow> int \<Rightarrow> int \<Rightarrow> int \<times> int \<times> cv_rect" where
  "mark_place l tw th =
     (let w = (if ml_width l < tw then tw else ml_width l); h = (if ml_height l < th then th else ml_height l)
      in (w, h, \<lparr>rx = c_div (w - tw) 2, ry = c_div (h - th) 2, rwidth = tw, rheight = th\<rparr>))"

section \<open>Taking the resources\<close>

record startup_cfg =
  sc_event :: bool
  sc_raw :: bool
  sc_cmds :: bool
  sc_substream :: bool
  sc_opengl :: bool
  sc_mark :: bool
  sc_subtitle :: bool
  sc_decoder :: bool

record startup_env =
  se_event :: bool
  se_main :: bool
  se_dir :: bool
  se_materials :: bool
  se_raw_file :: bool
  se_mkfifo :: bool
  se_popen :: bool
  se_cmds :: bool
  se_opengl :: bool
  se_mark :: bool
  se_subtitle :: bool

record resources =
  rs_event :: bool
  rs_fifo :: bool
  rs_video :: bool
  rs_cmds :: bool
  rs_audio :: bool
  rs_substream :: bool
  rs_opengl :: bool
  rs_subtitle :: bool
  rs_decoder :: bool

definition resources0 :: resources where
  "resources0 = \<lparr>rs_event = False, rs_fifo = False, rs_video = False, rs_cmds = False, rs_audio = False, rs_substream = False,
     rs_opengl = False, rs_subtitle = False, rs_decoder = False\<rparr>"

text \<open>A step gives the exit code with which \<^verbatim>\<open>main\<close> returns, or goes on.\<close>

type_synonym setup_step = "resources \<Rightarrow> int option \<times> resources"

fun run_setup :: "setup_step list \<Rightarrow> setup_step" where
  "run_setup [] rs = (None, rs)"
| "run_setup (s # ss) rs = (case s rs of (Some c, rs1) \<Rightarrow> (Some c, rs1) | (None, rs1) \<Rightarrow> run_setup ss rs1)"

definition step_check :: "bool \<Rightarrow> int \<Rightarrow> setup_step" where
  "step_check ok c rs = (if ok then None else Some c, rs)"

text \<open>A failure that removes the audio fifo before it returns.\<close>

definition step_guarded :: "bool \<Rightarrow> bool \<Rightarrow> (resources \<Rightarrow> resources) \<Rightarrow> setup_step" where
  "step_guarded wanted ok grab rs =
     (if \<not> wanted then (None, rs) else if ok then (None, grab rs) else (Some (- 1), rs\<lparr>rs_fifo := False\<rparr>))"

definition step_output :: "bool \<Rightarrow> startup_env \<Rightarrow> setup_step" where
  "step_output raw e rs =
     (if raw then (if se_raw_file e then (None, rs\<lparr>rs_video := True\<rparr>) else (Some (- 1), rs))
      else if \<not> se_mkfifo e then (Some (- 1), rs)
      else if \<not> se_popen e then (Some (- 1), rs)
      else (None, rs\<lparr>rs_fifo := True, rs_video := True\<rparr>))"

definition startup :: "startup_cfg \<Rightarrow> startup_env \<Rightarrow> int option \<times> resources" where
  "startup c e = run_setup
     [\<lambda>rs. if sc_event c then (if se_event e then (None, rs\<lparr>rs_event := True\<rparr>) else (Some (- 1), rs)) else (None, rs),
      step_check (se_main e) (- 1), step_check (se_dir e) (- 1), step_check (se_materials e) (- 2),
      step_output (sc_raw c) e,
      \<lambda>rs. if sc_cmds c then (if se_cmds e then (None, rs\<lparr>rs_cmds := True\<rparr>) else (Some (- 1), rs)) else (None, rs),
      \<lambda>rs. (None, rs\<lparr>rs_audio := \<not> sc_raw c, rs_substream := sc_substream c\<rparr>),
      step_guarded (sc_opengl c) (se_opengl e) (\<lambda>rs. rs\<lparr>rs_opengl := True\<rparr>),
      step_guarded (sc_mark c) (se_mark e) (\<lambda>rs. rs),
      step_guarded (sc_subtitle c) (se_subtitle e) (\<lambda>rs. rs\<lparr>rs_subtitle := True\<rparr>),
      \<lambda>rs. (None, rs\<lparr>rs_decoder := sc_decoder c\<rparr>)] resources0"

section \<open>Writing a frame\<close>

text \<open>The picture of an \<^verbatim>\<open>mp4alpha\<close> output: colour, and the alpha as grey below or right of it.\<close>

definition grey_alpha :: "mat \<Rightarrow> mat" where
  "grey_alpha m = m\<lparr>mt_ch := 3, mt_px := map (map (\<lambda>p. [p ! 3, p ! 3, p ! 3])) (mt_px m)\<rparr>"

definition drop_alpha :: "mat \<Rightarrow> mat" where
  "drop_alpha m = m\<lparr>mt_ch := 3, mt_px := map (map (take 3)) (mt_px m)\<rparr>"

definition mp4alpha_frame :: "int \<Rightarrow> int \<Rightarrow> mat \<Rightarrow> mat" where
  "mp4alpha_frame ow oh base =
     (if ow > oh then \<lparr>mt_ch = 3, mt_cols = mt_cols base, mt_px = mt_px (drop_alpha base) @ mt_px (grey_alpha base)\<rparr>
      else \<lparr>mt_ch = 3, mt_cols = mt_cols base * 2, mt_px = map2 (@) (mt_px (drop_alpha base)) (mt_px (grey_alpha base))\<rparr>)"

datatype media_event = RawVideo | VideoPacket

text \<open>What goes to the video encoder thread: the matrix, the number of bytes, the event code. The
  conversion to YUV is OpenCV's.\<close>

definition write_frame :: "(mat \<Rightarrow> mat) \<Rightarrow> output_spec \<Rightarrow> mat \<Rightarrow> mat \<times> int \<times> media_event" where
  "write_frame to_yuv os base =
     (if \<not> os_alpha os \<and> \<not> os_raw os
      then (to_yuv base, (os_height os + c_div (os_height os) 2) * os_width os, RawVideo)
      else let mp4a = same_ci (os_fmt os) ''mp4alpha'';
               m = (if mp4a then mp4alpha_frame (os_width os) (os_height os) base else base)
           in (m, mt_rows m * mt_cols m * (if os_alpha os \<and> \<not> mp4a then 4 else 3), if os_raw os then VideoPacket else RawVideo))"

section \<open>Blind watermark\<close>

text \<open>\<^verbatim>\<open>FFTWaterMark::draw\<close>: whether the frame is marked, and the counter. \<open>None\<close> is the remainder
  by a product that wrapped to zero.\<close>

definition fft_draw :: "string \<Rightarrow> int \<Rightarrow> int \<Rightarrow> bool \<Rightarrow> int \<Rightarrow> (bool \<times> int) option" where
  "fft_draw txt fps interval bgr cnt =
     (if txt = [] \<or> interval = 0 \<or> fps = 0 then Some (False, cnt)
      else if to_i32 (fps * interval) = 0 then None
      else if c_rem cnt (to_i32 (fps * interval)) \<noteq> 0 \<and> interval > 0 then Some (False, cnt + 1)
      else Some (bgr, cnt + 1))"

fun fft_frames :: "string \<Rightarrow> int \<Rightarrow> int \<Rightarrow> nat \<Rightarrow> int \<Rightarrow> bool list option" where
  "fft_frames txt fps interval 0 cnt = Some []"
| "fft_frames txt fps interval (Suc n) cnt =
     (case fft_draw txt fps interval True cnt of None \<Rightarrow> None
      | Some (d, cnt1) \<Rightarrow> (case fft_frames txt fps interval n cnt1 of None \<Rightarrow> None | Some ds \<Rightarrow> Some (d # ds)))"

text \<open>The size and the stroke of the blind watermark's text, by the smaller side of the picture.\<close>

definition fft_text_size :: "int \<Rightarrow> int \<Rightarrow> rat \<times> int" where
  "fft_text_size rows cols =
     (let n = (if rows > cols then cols else rows)
      in if n < 150 then (1, 1) else if n < 300 then (3 / 2, 2) else if n < 400 then (5 / 2, 3) else if n < 650 then (3, 3)
         else if n < 1000 then (4, 4) else (9 / 2, 5))"

end
