(* ===== verification/Frame_Convert.thy ===== *)
theory Frame_Convert
  imports Overlap Frame_Read Ff_Open
begin

text \<open>
  Pictures between decoder and overlay (\<^verbatim>\<open>matops.cpp\<close>): the alpha of a keyed colour
  (\<^verbatim>\<open>smooth_bgcolor_shane\<close>), videos that carry their alpha beside or above the picture
  (\<^verbatim>\<open>MakeAlphaMat\<close>), and the picture made from a decoded buffer (\<^verbatim>\<open>get_bgra_mat\<close>).
  Conversions of colours, resizing, scaling of a channel and rotation are OpenCV's (\<open>bgra_ops\<close>); which
  of them is called with what is the code's.
\<close>

section \<open>Keyed colour\<close>

definition replacelist :: "(int \<times> byte) list" where
  "replacelist = [(10, 0), (20, 10), (40, 50), (60, 100)]"

definition low_bound :: "int \<Rightarrow> int \<Rightarrow> int" where
  "low_bound diff bg = (if bg > diff then bg - diff else 0)"

definition high_bound :: "int \<Rightarrow> int \<Rightarrow> int" where
  "high_bound diff bg = (if bg < 255 - diff then bg + diff else 255)"

text \<open>Whether the three colour bytes are within the bounds of a distance.\<close>

definition in_bounds :: "int \<Rightarrow> byte list \<Rightarrow> pixel \<Rightarrow> bool" where
  "in_bounds diff bg pix \<longleftrightarrow>
     (\<forall>i \<in> {0, 1, 2}. low_bound diff (uint (bg ! i)) \<le> uint (pix ! i) \<and> uint (pix ! i) \<le> high_bound diff (uint (bg ! i)))"

fun first_in :: "(int \<times> byte) list \<Rightarrow> byte list \<Rightarrow> pixel \<Rightarrow> pixel" where
  "first_in [] bg pix = pix"
| "first_in ((diff, alpha) # rs) bg pix = (if in_bounds diff bg pix then pix[3 := alpha] else first_in rs bg pix)"

definition smooth_pixel :: "byte list \<Rightarrow> pixel \<Rightarrow> pixel" where
  "smooth_pixel bg pix =
     (if pix ! 3 = 0 then pix
      else if take 3 pix = take 3 bg then pix[3 := 0]
      else if in_bounds (fst (last replacelist)) bg pix
      then first_in (butlast replacelist) bg (pix[3 := snd (last replacelist)])
      else pix)"

definition smooth_bgcolor_shane :: "byte list \<Rightarrow> mat \<Rightarrow> mat" where
  "smooth_bgcolor_shane bg m = m\<lparr>mt_px := map (map (smooth_pixel bg)) (mt_px m)\<rparr>"

section \<open>Alpha beside the picture\<close>

text \<open>\<^verbatim>\<open>frame (cv::Rect (x, y, w, h))\<close>.\<close>

definition sub_mat :: "mat \<Rightarrow> nat \<Rightarrow> nat \<Rightarrow> nat \<Rightarrow> nat \<Rightarrow> mat" where
  "sub_mat m x y w h = m\<lparr>mt_cols := int w, mt_px := map (\<lambda>row. take w (drop x row)) (take h (drop y (mt_px m)))\<rparr>"

text \<open>The alpha half and the picture half, by the lower case letter of the mode.\<close>

definition alpha_halves :: "mat \<Rightarrow> int \<Rightarrow> (mat \<times> mat) option" where
  "alpha_halves m a =
     (let w = nat (mt_cols m); h = nat (mt_rows m); w2 = w div 2; h2 = h div 2
      in if a = code (CHR ''l'') then Some (sub_mat m 0 0 w2 h, sub_mat m w2 0 w2 h)
         else if a = code (CHR ''r'') then Some (sub_mat m w2 0 w2 h, sub_mat m 0 0 w2 h)
         else if a = code (CHR ''t'') then Some (sub_mat m 0 0 w h2, sub_mat m 0 h2 w h2)
         else if a = code (CHR ''b'') then Some (sub_mat m 0 h2 w h2, sub_mat m 0 0 w h2)
         else None)"

text \<open>\<^verbatim>\<open>mixChannels\<close> with the first three channels of the picture and the first of the alpha half.\<close>

definition mix_alpha :: "mat \<Rightarrow> mat \<Rightarrow> mat" where
  "mix_alpha mm am = mm\<lparr>mt_ch := 4, mt_px := map2 (map2 (\<lambda>p a. take 3 p @ [a ! 0])) (mt_px mm) (mt_px am)\<rparr>"

text \<open>With a place for the mask (\<^verbatim>\<open>pmask\<close>) the alpha goes there as grey; the mask is otherwise kept.\<close>

definition MakeAlphaMat :: "(mat \<Rightarrow> mat) \<Rightarrow> mat \<Rightarrow> int \<Rightarrow> mat option \<Rightarrow> mat \<times> mat option" where
  "MakeAlphaMat to_gray frame mode pmask =
     (case alpha_halves frame (if code (CHR ''A'') \<le> mode \<and> mode \<le> code (CHR ''Z'') then mode + 32 else mode) of
        None \<Rightarrow> (frame, pmask)
      | Some (amat, mmat) \<Rightarrow>
          if mat_none amat then (frame, pmask)
          else (case pmask of Some _ \<Rightarrow> (mmat, Some (to_gray amat)) | None \<Rightarrow> (mix_alpha mmat amat, None)))"

section \<open>The picture of a decoded buffer\<close>

datatype cv_color =
  COLOR_BGR2BGRA | COLOR_BGRA2BGR | COLOR_YUV2BGRA_I420 | COLOR_YUV2BGR_I420 | COLOR_RGB2BGRA | COLOR_RGB2BGR |
  COLOR_RGBA2BGRA | COLOR_RGBA2BGR

record bgra_ops =
  bo_rnd :: rounding
  bo_single :: rounding
  bo_view :: "nat \<Rightarrow> int \<Rightarrow> int \<Rightarrow> byte list \<Rightarrow> mat"
  bo_color :: "cv_color \<Rightarrow> mat \<Rightarrow> mat"
  bo_gray :: "mat \<Rightarrow> mat"
  bo_resize :: "mat \<Rightarrow> int \<Rightarrow> int \<Rightarrow> mat"
  bo_scale :: "rat \<Rightarrow> mat \<Rightarrow> mat"
  bo_fill :: "rat \<Rightarrow> int \<Rightarrow> int \<Rightarrow> mat"
  bo_frame :: "(unit, unit, mat) frame_ops"

text \<open>The rest of \<^verbatim>\<open>struct material\<close> that is used here.\<close>

record video_material = material +
  ori_video_rect :: cv_rect
  m_ftype :: ColorType

text \<open>The rotation of the file goes from the reader to the material, once.\<close>

definition turn_rect :: "cv_rect \<Rightarrow> cv_rect" where
  "turn_rect q = \<lparr>rx = rx q + c_div (rwidth q - rheight q) 2, ry = ry q - c_div (rwidth q - rheight q) 2,
     rwidth = rheight q, rheight = rwidth q\<rparr>"

definition take_rotation :: "rounding \<Rightarrow> rat \<Rightarrow> video_material \<Rightarrow> rat \<times> video_material" where
  "take_rotation r rot m =
     (if rot > r (1 / 10)
      then (0, (if \<bar>f_sub r rot 90\<bar> < 1 \<or> \<bar>f_sub r rot 270\<bar> < 1 then m\<lparr>mrect := turn_rect (mrect m)\<rparr> else m)
               \<lparr>rotation := rotation m + f_trunc (f_add r rot (1 / 2))\<rparr>)
      else (rot, m))"

definition needs_transpancy :: "bool \<Rightarrow> video_material \<Rightarrow> bool" where
  "needs_transpancy disable_opengl m \<longleftrightarrow>
     disable_opengl \<and> ((opacity m > 0 \<and> opacity m < 100) \<or> c_rem (rotation m) 360 \<noteq> 0)"

text \<open>The format asked for; \<open>None\<close> is \<^verbatim>\<open>AV_PIX_FMT_NONE\<close>.\<close>

definition choose_fmt :: "pix_fmt option \<Rightarrow> pix_fmt \<Rightarrow> bool \<Rightarrow> bool \<Rightarrow> pix_fmt" where
  "choose_fmt fmt out trp alpha =
     (let f1 = (case fmt of Some f \<Rightarrow> f
                | None \<Rightarrow> if out = AV_PIX_FMT_RGBA then AV_PIX_FMT_BGRA
                          else if out \<noteq> AV_PIX_FMT_BGRA \<and> out \<noteq> AV_PIX_FMT_BGR24 then AV_PIX_FMT_BGR24 else out);
          f2 = (if trp then AV_PIX_FMT_BGRA else f1)
      in if alpha then AV_PIX_FMT_BGR24 else f2)"

definition color_code :: "pix_fmt \<Rightarrow> pix_fmt \<Rightarrow> cv_color" where
  "color_code out fmt =
     (let bgra = (fmt = AV_PIX_FMT_BGRA)
      in if out = AV_PIX_FMT_YUV420P then (if bgra then COLOR_YUV2BGRA_I420 else COLOR_YUV2BGR_I420)
         else if out = AV_PIX_FMT_RGB24 then (if bgra then COLOR_RGB2BGRA else COLOR_RGB2BGR)
         else if out = AV_PIX_FMT_RGBA then (if bgra then COLOR_RGBA2BGRA else COLOR_RGBA2BGR)
         else (if bgra then COLOR_BGR2BGRA else COLOR_BGRA2BGR))"

definition has_alpha_fmt :: "pix_fmt \<Rightarrow> bool" where
  "has_alpha_fmt out \<longleftrightarrow> out = AV_PIX_FMT_RGBA \<or> out = AV_PIX_FMT_BGRA"

definition decoded_mat :: "bgra_ops \<Rightarrow> pix_fmt \<Rightarrow> pix_fmt \<Rightarrow> int \<Rightarrow> int \<Rightarrow> byte list \<Rightarrow> mat" where
  "decoded_mat ops out fmt w h data =
     (if out = fmt then bo_view ops (if fmt = AV_PIX_FMT_BGRA then 4 else 3) w h data
      else bo_color ops (color_code out fmt)
        (if out = AV_PIX_FMT_YUV420P then bo_view ops 1 w (h + c_div h 2) data
         else bo_view ops (if has_alpha_fmt out then 4 else 3) w h data))"

definition resized :: "bgra_ops \<Rightarrow> cv_rect \<Rightarrow> mat \<Rightarrow> mat" where
  "resized ops q m = (if rwidth q \<noteq> mt_cols m \<or> rheight q \<noteq> mt_rows m then bo_resize ops m (rwidth q) (rheight q) else m)"

definition no_rect :: "cv_rect \<Rightarrow> bool" where
  "no_rect q \<longleftrightarrow> rwidth q = 0 \<or> rheight q = 0"

text \<open>Channel 3 taken out and put in.\<close>

definition alpha_of :: "mat \<Rightarrow> mat" where
  "alpha_of m = m\<lparr>mt_ch := 1, mt_px := map (map (\<lambda>p. [p ! 3])) (mt_px m)\<rparr>"

definition insert_alpha :: "mat \<Rightarrow> mat \<Rightarrow> mat" where
  "insert_alpha g m = m\<lparr>mt_px := map2 (map2 (\<lambda>a p. p[3 := a ! 0])) (mt_px g) (mt_px m)\<rparr>"

definition as_bgra :: "bgra_ops \<Rightarrow> mat \<Rightarrow> mat" where
  "as_bgra ops m = (if mt_ch m = 3 then bo_color ops COLOR_BGR2BGRA m else m)"

definition mask_given :: "mat option \<Rightarrow> bool" where
  "mask_given pmask \<longleftrightarrow> (case pmask of None \<Rightarrow> False | Some k \<Rightarrow> \<not> mat_none k)"

definition apply_opacity :: "bgra_ops \<Rightarrow> int \<Rightarrow> bool \<Rightarrow> mat \<Rightarrow> mat option \<Rightarrow> mat \<times> mat option" where
  "apply_opacity ops op src_alpha m pmask =
     (let fop = f_div (bo_single ops) (of_int op) 100
      in if mask_given pmask then (m, map_option (bo_scale ops fop) pmask)
         else if mt_ch m = 4 \<and> src_alpha then (insert_alpha (bo_scale ops fop (alpha_of m)) m, pmask)
         else let g = bo_fill ops (f_mul (bo_single ops) fop 255) (mt_cols m) (mt_rows m)
              in case pmask of Some _ \<Rightarrow> (m, Some g) | None \<Rightarrow> (insert_alpha g (as_bgra ops m), None))"

text \<open>An empty matrix, which \<^verbatim>\<open>release\<close> leaves.\<close>

definition released :: mat where "released = \<lparr>mt_ch = 0, mt_cols = 0, mt_px = []\<rparr>"

definition apply_rotation :: "bgra_ops \<Rightarrow> video_material \<Rightarrow> mat \<Rightarrow> mat option \<Rightarrow> mat \<times> mat option \<times> video_material" where
  "apply_rotation ops m mt pmask =
     (let (mt1, pmask1) = (if mask_given pmask then (insert_alpha (case pmask of Some k \<Rightarrow> k | None \<Rightarrow> released) (as_bgra ops mt), Some released)
                           else (mt, pmask));
          m1 = (if no_rect (ori_video_rect m) then m\<lparr>ori_video_rect := mrect m\<rparr> else m);
          (mt2, px, py) = RotateMat (bo_frame ops) mt1 (rx (ori_video_rect m1), ry (ori_video_rect m1)) (c_rem (rotation m1) 360)
      in (mt2, pmask1, m1\<lparr>mrect := \<lparr>rx = px, ry = py, rwidth = mt_cols mt2, rheight = mt_rows mt2\<rparr>\<rparr>))"

record bgra_request =
  bq_fmt :: "pix_fmt option"
  bq_disable_opengl :: bool
  bq_alpha :: "string option"

definition widened :: "string option \<Rightarrow> cv_rect \<Rightarrow> cv_rect" where
  "widened alpha q =
     (case alpha of None \<Rightarrow> q
      | Some s \<Rightarrow> let a = (case s of [] \<Rightarrow> 0 | c # _ \<Rightarrow> to_lower c)
                  in if a = code (CHR ''l'') \<or> a = code (CHR ''r'') then q\<lparr>rwidth := rwidth q * 2\<rparr>
                     else if a = code (CHR ''t'') \<or> a = code (CHR ''b'') then q\<lparr>rheight := rheight q * 2\<rparr> else q)"

text \<open>\<^verbatim>\<open>get_bgra_mat\<close>: \<open>rot\<close>, \<open>out\<close>, \<open>w\<close> and \<open>h\<close> are the reader's rotation, format and display size.\<close>

definition get_bgra_mat ::
  "bgra_ops \<Rightarrow> bgra_request \<Rightarrow> pix_fmt \<Rightarrow> int \<Rightarrow> int \<Rightarrow> byte list \<Rightarrow> rat \<Rightarrow> video_material \<Rightarrow> mat option
     \<Rightarrow> mat \<times> mat option \<times> rat \<times> video_material" where
  "get_bgra_mat ops q out w h data rot m pmask =
     (if bq_fmt q \<notin> {None, Some AV_PIX_FMT_BGRA, Some AV_PIX_FMT_BGR24} then (released, pmask, rot, m)
      else
        let (rot1, m1) = take_rotation (bo_rnd ops) rot m;
            trp = needs_transpancy (bq_disable_opengl q) m1;
            mt = decoded_mat ops out (choose_fmt (bq_fmt q) out trp (bq_alpha q \<noteq> None)) w h data;
            old = (if no_rect (ori_video_rect m1) then mrect m1 else ori_video_rect m1);
            (mt2, pmask2) = (case bq_alpha q of
                Some s \<Rightarrow> MakeAlphaMat (bo_gray ops) (resized ops (widened (bq_alpha q) old) mt) (case s of [] \<Rightarrow> 0 | c # _ \<Rightarrow> to_lower c) pmask
              | None \<Rightarrow> (if trp then resized ops old mt else mt, pmask));
            (mt3, pmask3) = (if trp \<and> opacity m1 > 0 \<and> opacity m1 < 100
                             then apply_opacity ops (opacity m1) (has_alpha_fmt out \<or> bq_alpha q \<noteq> None) mt2 pmask2 else (mt2, pmask2));
            (mt4, pmask4, m2) = (if trp \<and> c_rem (rotation m1) 360 \<noteq> 0 then apply_rotation ops m1 mt3 pmask3 else (mt3, pmask3, m1))
        in (mt4, pmask4, rot1,
            m2\<lparr>m_ftype := (if mask_given pmask4 then FT_BGRM else if mt_ch mt4 = 3 then FT_BGR else FT_BGRA)\<rparr>))"

end
