(* ===== verification/Ff_Reader_Thms.thy ===== *)
theory Ff_Reader_Thms
  imports Ff_Reader
begin

text \<open>
  Nothing is lost between ffmpeg and the callers of a media file: the pictures and the audio that
  any sequence of calls hands over, followed by what the reader still holds, are what the decoders gave,
  in their order. For streams, the code that should notice a long silence after a picture is never
  reached.
\<close>

section \<open>What the decoders give\<close>

fun pictures_in :: "(int \<times> picture) list \<Rightarrow> byte list list" where
  "pictures_in [] = []"
| "pictures_in ((pts, NoPicture) # fs) = []"
| "pictures_in ((pts, Pixels bs) # fs) = bs # pictures_in fs"

fun pcm_in :: "(int \<times> resampled) list \<Rightarrow> byte list" where
  "pcm_in [] = []"
| "pcm_in ((pts, NoSamples) # fs) = pcm_in fs"
| "pcm_in ((pts, SwrError) # fs) = []"
| "pcm_in ((pts, Samples bs) # fs) = bs @ pcm_in fs"

definition decoded_pictures :: "decoded_video \<Rightarrow> byte list list" where
  "decoded_pictures dv = (if dv_send dv = AvOk then pictures_in (dv_frames dv) else [])"

definition decoded_pcm :: "decoded_audio \<Rightarrow> byte list" where
  "decoded_pcm da = (if da_send da = AvOk then pcm_in (da_frames da) else [])"

text \<open>The stream an event goes to; the end of the file goes to the video decoder if there is one.\<close>

definition event_stream :: "ff_reader \<Rightarrow> av_event \<Rightarrow> int option" where
  "event_stream r e = stream_of (if decode_video r then streamIndex r else audioStreamIndex r) (av_demux e)"

definition event_pictures :: "ff_reader \<Rightarrow> av_event \<Rightarrow> byte list list" where
  "event_pictures r e =
     (if decode_video r \<and> event_stream r e = Some (streamIndex r) then decoded_pictures (av_video e) else [])"

definition event_pcm :: "ff_reader \<Rightarrow> av_event \<Rightarrow> byte list" where
  "event_pcm r e =
     (if decode_audio r \<and> event_stream r e = Some (audioStreamIndex r) \<and> \<not> (decode_video r \<and> audioStreamIndex r = streamIndex r)
      then decoded_pcm (av_audio e) else [])"

definition frames_fit :: "av_event \<Rightarrow> bool" where
  "frames_fit e \<longleftrightarrow> (\<forall>f \<in> set (da_frames (av_audio e)). case snd f of Samples bs \<Rightarrow> int (length bs) \<le> AudioBufferSize | _ \<Rightarrow> True)"

section \<open>The reader's invariant\<close>

definition audio_waiting :: "ff_reader \<Rightarrow> byte list" where
  "audio_waiting r = take (nat (audio_size r)) (rawAudio r)"

definition reader_sane :: "ff_reader \<Rightarrow> bool" where
  "reader_sane r \<longleftrightarrow> 0 \<le> audio_size r \<and> audio_size r \<le> int (length (rawAudio r)) \<and> int (length (rawAudio r)) \<le> 11 * 1024 * 1024"

definition within_ten_mb :: "ff_reader \<Rightarrow> bool" where
  "within_ten_mb r \<longleftrightarrow> int (length (rawAudio r)) \<le> 10 * 1024 * 1024"

definition same_setup :: "ff_reader \<Rightarrow> ff_reader \<Rightarrow> bool" where
  "same_setup r r' \<longleftrightarrow> decode_video r' = decode_video r \<and> decode_audio r' = decode_audio r \<and> streamIndex r' = streamIndex r \<and>
     audioStreamIndex r' = audioStreamIndex r \<and> ff_stream r' = ff_stream r"

lemma same_setup_refl [simp]: "same_setup r r" by (simp add: same_setup_def)

lemma same_setup_trans: "same_setup a b \<Longrightarrow> same_setup b c \<Longrightarrow> same_setup a c" by (simp add: same_setup_def)

text \<open>A step that only adds the audio \<open>bs\<close>, and drops none while the buffer is within ten megabytes.\<close>

definition audio_added :: "byte list \<Rightarrow> ff_reader \<Rightarrow> ff_reader \<Rightarrow> bool" where
  "audio_added bs r r' \<longleftrightarrow> reader_sane r' \<and> length (rawAudio r) \<le> length (rawAudio r') \<and>
     (within_ten_mb r' \<longrightarrow> audio_waiting r' = audio_waiting r @ bs)"

lemma audio_added_refl: "reader_sane r \<Longrightarrow> audio_added [] r r"
  by (simp add: audio_added_def)

lemma audio_added_trans: "audio_added xs a b \<Longrightarrow> audio_added ys b c \<Longrightarrow> audio_added (xs @ ys) a c"
  by (auto simp: audio_added_def within_ten_mb_def)

lemma audio_added_same:
  "rawAudio r2 = rawAudio r1 \<Longrightarrow> audio_size r2 = audio_size r1 \<Longrightarrow> audio_added bs r r1 \<Longrightarrow> audio_added bs r r2"
  by (simp add: audio_added_def reader_sane_def audio_waiting_def within_ten_mb_def)

section \<open>Decoding\<close>

lemma store_pcm_added:
  assumes "reader_sane r" "int (length bs) \<le> AudioBufferSize"
  shows "\<exists>r'. store_pcm bs (make_room (int (length bs)) r) = Some r' \<and> audio_added bs r r' \<and> same_setup r r' \<and>
    buffers r' = buffers r \<and> displayBuffer r' = displayBuffer r \<and> rawBuffer r' = rawBuffer r \<and> update_time r' = update_time r"
proof -
  let ?n = "int (length bs)"
  have size: "size_t (?n + audio_size r) = ?n + audio_size r"
    using assms by (intro size_t_id) (auto simp: reader_sane_def AudioBufferSize_def)
  note defs = size make_room_def store_pcm_def audio_added_def reader_sane_def same_setup_def audio_waiting_def within_ten_mb_def write_at_def AudioBufferSize_def
  consider (fits) "?n + audio_size r \<le> int (length (rawAudio r))"
    | (grow) "?n + audio_size r > int (length (rawAudio r))" "int (length (rawAudio r)) \<le> 10 * 1024 * 1024"
    | (drop) "?n + audio_size r > int (length (rawAudio r))" "int (length (rawAudio r)) > 10 * 1024 * 1024"
    by linarith
  then show ?thesis
  proof cases
    case fits
    with assms show ?thesis by (auto simp: defs nat_add_distrib)
  next
    case grow
    with assms show ?thesis by (auto simp: defs nat_add_distrib)
  next
    case drop
    with assms show ?thesis by (auto simp: defs)
  qed
qed

lemma audio_frames_added:
  assumes "reader_sane r" "\<forall>f \<in> set fs. case snd f of Samples bs \<Rightarrow> int (length bs) \<le> AudioBufferSize | _ \<Rightarrow> True"
  shows "\<exists>ret r'. audio_frames_loop fin fs r = Some (ret, r') \<and> audio_added (pcm_in fs) r r' \<and> same_setup r r' \<and>
    buffers r' = buffers r \<and> displayBuffer r' = displayBuffer r \<and> rawBuffer r' = rawBuffer r \<and> update_time r' = update_time r"
  using assms
proof (induction fin fs r rule: audio_frames_loop.induct)
  case (4 fin pts bs fs r)
  obtain r1 where r1: "store_pcm bs (make_room (int (length bs)) r) = Some r1" "audio_added bs r r1" "same_setup r r1"
      "buffers r1 = buffers r" "displayBuffer r1 = displayBuffer r" "rawBuffer r1 = rawBuffer r" "update_time r1 = update_time r"
    using store_pcm_added [of r bs] 4(2,3) by auto
  let ?r2 = "r1\<lparr>audio_pts_time := f_mul (ff_rnd r1) (of_int pts) (audio_timebase r1)\<rparr>"
  have "reader_sane ?r2" using r1(2) by (simp add: audio_added_def reader_sane_def)
  then obtain ret r' where r': "audio_frames_loop fin fs ?r2 = Some (ret, r')" "audio_added (pcm_in fs) ?r2 r'" "same_setup ?r2 r'"
      "buffers r' = buffers ?r2" "displayBuffer r' = displayBuffer ?r2" "rawBuffer r' = rawBuffer ?r2" "update_time r' = update_time ?r2"
    using 4(1) [OF _ r1(1)] 4(3) by auto
  have "audio_added (bs @ pcm_in fs) r r'"
    by (rule audio_added_trans [OF audio_added_same [OF _ _ r1(2)] r'(2)]) simp_all
  with r1 r' 4(3) show ?case by (auto simp: same_setup_def)
qed (auto intro: audio_added_refl)

lemma decode_audio_added:
  assumes "reader_sane r" "frames_fit e"
  obtains ret r' where "decode_audio_frame (av_audio e) r = Some (ret, r')" "audio_added (decoded_pcm (av_audio e)) r r'"
    "same_setup r r'" "buffers r' = buffers r" "displayBuffer r' = displayBuffer r" "rawBuffer r' = rawBuffer r"
    "update_time r' = update_time r"
proof (cases "da_send (av_audio e) = AvOk")
  case True
  then show ?thesis
    using that audio_frames_added [OF assms(1), of "da_frames (av_audio e)" "da_end (av_audio e)"] assms(2)
    by (auto simp: decode_audio_frame_def decoded_pcm_def frames_fit_def)
next
  case False
  then show ?thesis
    using that assms(1) by (simp add: decode_audio_frame_def decoded_pcm_def audio_added_refl)
qed

text \<open>The picture the caller's pointer shows.\<close>

definition shown :: "slot \<Rightarrow> ff_reader \<Rightarrow> byte list list" where
  "shown sl r = (case slot_bytes sl r of None \<Rightarrow> [] | Some bs \<Rightarrow> [bs])"

definition shown_by :: "slot option \<Rightarrow> ff_reader \<Rightarrow> byte list list" where
  "shown_by vb r = (case vb of None \<Rightarrow> [] | Some sl \<Rightarrow> shown sl r)"

lemma shown_simps [simp]: "shown NullSlot r = []" "shown DisplaySlot r = [displayBuffer r]" "shown RawSlot r = [rawBuffer r]"
  by (simp_all add: shown_def slot_bytes_def)

lemma video_frames_kept:
  assumes "video_frames_loop fin fs vb r = (ret, vb', r')" "vb = Some NullSlot \<Longrightarrow> buffers r = []"
  shows "shown_by vb' r' @ buffers r' = shown_by vb r @ buffers r @ pictures_in fs \<and> (vb = None \<longleftrightarrow> vb' = None) \<and>
    (vb' = Some NullSlot \<longrightarrow> buffers r' = []) \<and> same_setup r r' \<and> rawAudio r' = rawAudio r \<and> audio_size r' = audio_size r \<and>
    update_time r' = update_time r"
  using assms
proof (induction fin fs vb r rule: video_frames_loop.induct)
  case (2 fin pts pic fs vb r)
  show ?case
  proof (cases pic)
    case NoPicture
    with 2(2,3) show ?thesis
      by (cases vb; cases "the vb") (auto simp: Let_def keep_shown_def shown_by_def same_setup_def)
  next
    case (Pixels bs)
    let ?r1 = "r\<lparr>video_pts_time := f_mul (ff_rnd r) (of_int pts) (video_timebase r)\<rparr>"
    obtain vb2 r2 where p: "place_picture bs (keep_shown vb ?r1) = (vb2, r2)" by (cases "place_picture bs (keep_shown vb ?r1)")
    have loop: "video_frames_loop fin fs vb2 r2 = (ret, vb', r')"
      using 2(2) Pixels p by (simp add: Let_def)
    have placed: "shown_by vb2 r2 @ buffers r2 = shown_by vb r @ buffers r @ [bs] \<and> (vb = None \<longleftrightarrow> vb2 = None) \<and> vb2 \<noteq> Some NullSlot \<and>
        same_setup r r2 \<and> rawAudio r2 = rawAudio r \<and> audio_size r2 = audio_size r \<and> update_time r2 = update_time r"
      using p 2(3)
      by (cases vb; cases "the vb") (auto simp: keep_shown_def place_picture_def shown_by_def same_setup_def)
    with 2(1) [OF refl refl Pixels p [symmetric] loop] Pixels show ?thesis
      by (auto simp: same_setup_def)
  qed
qed auto

lemma decode_video_kept:
  assumes "decode_video_frame dv vb r = (ret, vb', r')" "vb = Some NullSlot \<Longrightarrow> buffers r = []"
  shows "shown_by vb' r' @ buffers r' = shown_by vb r @ buffers r @ decoded_pictures dv" "vb = None \<longleftrightarrow> vb' = None"
    "vb' = Some NullSlot \<Longrightarrow> buffers r' = []" "same_setup r r'" "rawAudio r' = rawAudio r" "audio_size r' = audio_size r"
    "update_time r' = update_time r"
  using assms video_frames_kept [of "dv_end dv" "dv_frames dv" vb r ret vb' r']
  by (auto simp: decode_video_frame_def decoded_pictures_def split: if_splits)

definition only_adds :: "ff_reader \<Rightarrow> ff_reader \<Rightarrow> bool" where
  "only_adds r r' \<longleftrightarrow> update_time r' = update_time r \<and> audio_size r' = audio_size r \<and> decode_audio r' = decode_audio r \<and>
     (\<exists>more. buffers r' = buffers r @ more)"

lemma only_adds_trans: "only_adds a b \<Longrightarrow> only_adds b c \<Longrightarrow> only_adds a c"
  by (auto simp: only_adds_def)

lemma picture_only_adds:
  "only_adds r (snd (keep_shown vb (r\<lparr>video_pts_time := t\<rparr>)))"
  "only_adds r (snd (place_picture bs (keep_shown vb (r\<lparr>video_pts_time := t\<rparr>))))"
  by (simp_all add: only_adds_def keep_shown_def place_picture_def)

lemma video_frames_add: "only_adds r (snd (snd (video_frames_loop fin fs vb r)))"
proof (induction fs arbitrary: vb r)
  case Nil
  then show ?case by (simp add: only_adds_def)
next
  case (Cons f fs)
  obtain pts pic where f: "f = (pts, pic)" by (cases f)
  show ?case
  proof (cases pic)
    case NoPicture
    then show ?thesis by (simp add: f Let_def picture_only_adds)
  next
    case (Pixels bs)
    let ?p = "place_picture bs (keep_shown vb (r\<lparr>video_pts_time := f_mul (ff_rnd r) (of_int pts) (video_timebase r)\<rparr>))"
    have "video_frames_loop fin (f # fs) vb r = video_frames_loop fin fs (fst ?p) (snd ?p)"
      by (simp add: f Pixels Let_def split: prod.split)
    then show ?thesis
      using only_adds_trans [OF picture_only_adds(2) Cons.IH] by simp
  qed
qed

lemma decode_video_adds:
  assumes "decode_video_frame dv vb r = (ret, vb', r')"
  shows "only_adds r r'"
  using assms video_frames_add [of r "dv_end dv" "dv_frames dv" vb]
  by (auto simp: decode_video_frame_def only_adds_def split: if_splits)

section \<open>A call\<close>

text \<open>What a call has to leave: the events it used, all their pictures and audio, in order.\<close>

definition kept_by :: "av_event list \<Rightarrow> ff_reader \<Rightarrow> byte list list \<Rightarrow> byte list \<Rightarrow> ff_reader \<Rightarrow> bool" where
  "kept_by used r ps bs r' \<longleftrightarrow> same_setup r r' \<and> reader_sane r' \<and> length (rawAudio r) \<le> length (rawAudio r') \<and>
     ps @ buffers r' = buffers r @ concat (map (event_pictures r) used) \<and>
     (within_ten_mb r' \<longrightarrow> bs @ audio_waiting r' = audio_waiting r @ concat (map (event_pcm r) used))"

lemma event_same_setup:
  "same_setup r r' \<Longrightarrow> event_pictures r' = event_pictures r" "same_setup r r' \<Longrightarrow> event_pcm r' = event_pcm r"
  by (auto simp: same_setup_def event_pictures_def event_pcm_def event_stream_def fun_eq_iff)

lemma kept_by_refl: "reader_sane r \<Longrightarrow> kept_by [] r [] [] r"
  by (simp add: kept_by_def)

lemma kept_by_trans:
  assumes "kept_by us r ps bs r1" "kept_by vs r1 qs cs r2"
  shows "kept_by (us @ vs) r (ps @ qs) (bs @ cs) r2"
proof -
  have "event_pictures r1 = event_pictures r" "event_pcm r1 = event_pcm r"
    using assms(1) event_same_setup by (auto simp: kept_by_def)
  then show ?thesis
    using assms by (fastforce simp: kept_by_def within_ten_mb_def intro: same_setup_trans)
qed

lemma kept_by_add:
  assumes "same_setup r r'" "audio_added (event_pcm r e) r r'" "ps @ buffers r' = buffers r @ event_pictures r e"
  shows "kept_by [e] r ps [] r'"
  using assms by (simp add: kept_by_def audio_added_def)

lemma video_step_kept:
  assumes "decode_video r" "event_stream r e = Some (streamIndex r)" "reader_sane r"
    "decode_video_frame (av_video e) vb r = (ret, vb', r1)" "vb = Some NullSlot \<Longrightarrow> buffers r = []"
    "same_setup r1 r2" "rawAudio r2 = rawAudio r1" "audio_size r2 = audio_size r1" "buffers r2 = buffers r1" "shown_by vb r = []"
  shows "kept_by [e] r (shown_by vb' r1) [] r2"
proof (rule kept_by_add)
  note d = decode_video_kept [OF assms(4,5)]
  show "same_setup r r2" using d(4) assms(6) by (rule same_setup_trans)
  have "event_pcm r e = []" using assms(1,2) by (auto simp: event_pcm_def)
  then show "audio_added (event_pcm r e) r r2"
    using d(5,6) assms(3,7,8) by (simp add: audio_added_def reader_sane_def audio_waiting_def)
  show "shown_by vb' r1 @ buffers r2 = buffers r @ event_pictures r e"
    using d(1) assms(1,2,9,10) by (simp add: event_pictures_def)
qed

definition same_media :: "ff_reader \<Rightarrow> ff_reader \<Rightarrow> bool" where
  "same_media r r' \<longleftrightarrow> same_setup r r' \<and> rawAudio r' = rawAudio r \<and> audio_size r' = audio_size r \<and> buffers r' = buffers r"

lemma audio_step_kept:
  assumes "event_stream r e = Some (audioStreamIndex r)" "decode_audio r" "\<not> (decode_video r \<and> audioStreamIndex r = streamIndex r)"
    "reader_sane r" "frames_fit e"
  shows "\<exists>ret r1. decode_audio_frame (av_audio e) r = Some (ret, r1) \<and> same_setup r r1 \<and> buffers r1 = buffers r \<and>
    (\<forall>r2. same_media r1 r2 \<longrightarrow> kept_by [e] r [] [] r2)"
proof -
  obtain ret r1 where r1: "decode_audio_frame (av_audio e) r = Some (ret, r1)" "audio_added (decoded_pcm (av_audio e)) r r1"
      "same_setup r r1" "buffers r1 = buffers r"
    using decode_audio_added [OF assms(4,5)] by metis
  have pcm: "event_pcm r e = decoded_pcm (av_audio e)" "event_pictures r e = []"
    using assms(1-3) by (auto simp: event_pcm_def event_pictures_def)
  have "kept_by [e] r [] [] r2" if "same_media r1 r2" for r2
    using that r1(2-4) pcm by (intro kept_by_add) (auto simp: same_media_def intro: same_setup_trans audio_added_same)
  with r1 show ?thesis by blast
qed

text \<open>For a file the code against long silences does nothing.\<close>

lemma file_turns:
  assumes "\<not> ff_stream r1"
  shows "decode_audio_frame (av_audio e) r = Some (ret, r1) \<Longrightarrow> \<exists>r2. audio_in_video e r = Some r2 \<and> same_media r1 r2"
    "decode_audio_frame (av_audio e) r = Some (ret, r1) \<Longrightarrow> \<exists>p. audio_turn_audio n e r = Some p \<and> same_media r1 (snd p)"
    "decode_video_frame (av_video e) None r = (ret', vb, r1) \<Longrightarrow> same_media r1 (snd (audio_turn_video n e r))"
  using assms
  by (simp_all add: audio_in_video_def audio_turn_audio_def audio_turn_video_def refresh_audio_video_def too_old_def
      same_media_def same_setup_def Let_def)

lemma other_step_kept:
  assumes "reader_sane r" "event_pictures r e = []" "event_pcm r e = []"
  shows "kept_by [e] r [] [] r"
  using assms by (intro kept_by_add) (auto simp: audio_added_refl)

text \<open>What a call of either kind owes.\<close>

definition video_owes :: "av_event list \<Rightarrow> ff_reader \<Rightarrow> (int \<times> slot \<times> ff_reader \<times> av_event list) outcome \<Rightarrow> bool" where
  "video_owes es r out \<longleftrightarrow> (case out of Blocked \<Rightarrow> True | Broken \<Rightarrow> False
     | Done (c, sl, r', es') \<Rightarrow> \<exists>used. es = used @ es' \<and> kept_by used r (shown sl r') [] r')"

lemma video_owes_step:
  assumes "kept_by [e] r [] [] r1" "video_owes es r1 out"
  shows "video_owes (e # es) r out"
  using assms(2) kept_by_trans [OF assms(1)]
  by (fastforce simp: video_owes_def split: outcome.splits)

lemma ff_video_loop_kept:
  assumes "reader_sane r" "\<not> ff_stream r" "decode_video r" "\<forall>e \<in> set es. frames_fit e" "buffers r = []"
  shows "video_owes es r (ff_video_loop es NullSlot r)"
  using assms
proof (induction es arbitrary: r)
  case Nil
  then show ?case by (simp add: video_owes_def)
next
  case (Cons e es)
  let ?dx = "stream_of (streamIndex r) (av_demux e)"
  have stream: "event_stream r e = ?dx" using Cons.prems(3) by (simp add: event_stream_def)
  consider (none) "?dx = None" | (video) "?dx = Some (streamIndex r)"
    | (audio) "?dx = Some (audioStreamIndex r)" "audioStreamIndex r \<noteq> streamIndex r" "decode_audio r"
    | (other) i where "?dx = Some i" "i \<noteq> streamIndex r" "\<not> (decode_audio r \<and> i = audioStreamIndex r)"
    by (cases ?dx) auto
  then show ?case
  proof cases
    case none
    then have "kept_by [e] r [] [] r"
      using Cons.prems(1) stream by (intro other_step_kept) (auto simp: event_pictures_def event_pcm_def)
    with none show ?thesis by (auto simp: video_owes_def)
  next
    case other
    then have "kept_by [e] r [] [] r"
      using Cons.prems(1) stream by (intro other_step_kept) (auto simp: event_pictures_def event_pcm_def)
    with Cons.IH [of r] Cons.prems other show ?thesis by (auto intro: video_owes_step)
  next
    case audio
    have ev: "event_stream r e = Some (audioStreamIndex r)" "\<not> (decode_video r \<and> audioStreamIndex r = streamIndex r)" "frames_fit e"
      using audio stream Cons.prems(4) by simp_all
    obtain ret r1 where r1: "decode_audio_frame (av_audio e) r = Some (ret, r1)" "same_setup r r1" "buffers r1 = buffers r"
        "\<forall>r2. same_media r1 r2 \<longrightarrow> kept_by [e] r [] [] r2"
      using audio_step_kept [OF ev(1) audio(3) ev(2) Cons.prems(1) ev(3)] by blast
    obtain r2 where r2: "audio_in_video e r = Some r2" "same_media r1 r2"
      using file_turns(1) r1(1,2) Cons.prems(2) unfolding same_setup_def by metis
    have k: "kept_by [e] r [] [] r2" using r1(4) r2 by blast
    moreover have "same_setup r r2" "reader_sane r2" using k by (auto simp: kept_by_def)
    ultimately show ?thesis
      using Cons.IH [of r2] Cons.prems r1(3) r2 audio
      by (auto simp: same_setup_def same_media_def intro: video_owes_step)
  next
    case video
    obtain ret vb r1 where d: "decode_video_frame (av_video e) (Some NullSlot) r = (ret, vb, r1)"
      by (cases "decode_video_frame (av_video e) (Some NullSlot) r") auto
    have vb: "vb \<noteq> None" "vb = Some NullSlot \<Longrightarrow> buffers r1 = []" "same_setup r r1"
      using decode_video_kept [OF d] Cons.prems(5) by auto
    define sl where "sl = (case vb of None \<Rightarrow> NullSlot | Some s \<Rightarrow> s)"
    define r2 where "r2 = (if ret = AvOk \<and> sl \<noteq> NullSlot then refresh_video (av_now e) r1 else r1)"
    have r2: "same_setup r1 r2" "rawAudio r2 = rawAudio r1" "audio_size r2 = audio_size r1" "buffers r2 = buffers r1"
        "displayBuffer r2 = displayBuffer r1" "rawBuffer r2 = rawBuffer r1"
      using vb(3) Cons.prems(2) by (auto simp: r2_def refresh_video_def too_old_def same_setup_def)
    have sl: "shown_by vb r1 = shown sl r2"
      using vb(1) r2(5,6) by (cases sl) (auto simp: shown_by_def sl_def)
    have k: "kept_by [e] r (shown sl r2) [] r2"
      using video_step_kept [OF Cons.prems(3) _ Cons.prems(1) d _ r2(1-4)] video stream Cons.prems(5) sl by (simp add: shown_by_def)
    show ?thesis
    proof (cases "ret = AvAgain \<and> sl = NullSlot")
      case True
      then have "vb = Some NullSlot" using vb(1) by (auto simp: sl_def)
      then have "buffers r2 = []" using vb(2) r2(4) by simp
      moreover have "same_setup r r2" "reader_sane r2" using k by (auto simp: kept_by_def)
      ultimately have "video_owes es r2 (ff_video_loop es NullSlot r2)"
        using Cons.IH [of r2] Cons.prems by (auto simp: same_setup_def)
      then have "video_owes (e # es) r (ff_video_loop es NullSlot r2)"
        using k True by (intro video_owes_step) simp_all
      moreover have "r2 = r1" using True by (simp add: r2_def)
      ultimately show ?thesis
        using True video d by (simp add: sl_def [symmetric])
    next
      case False
      have "ff_video_loop (e # es) NullSlot r = Done (end_code ret, sl, r2, es)"
        using False video d by (auto simp: sl_def [symmetric] r2_def [symmetric])
      then show ?thesis using k by (auto simp: video_owes_def)
    qed
  qed
qed

text \<open>Audio calls.\<close>

definition audio_bytes :: "audio_result \<Rightarrow> byte list" where
  "audio_bytes a = (case a of AData bs \<Rightarrow> bs | _ \<Rightarrow> [])"

definition audio_owes :: "av_event list \<Rightarrow> ff_reader \<Rightarrow> (audio_result \<times> ff_reader \<times> av_event list) outcome \<Rightarrow> bool" where
  "audio_owes es r out \<longleftrightarrow> (case out of Blocked \<Rightarrow> True | Broken \<Rightarrow> False
     | Done (a, r', es') \<Rightarrow> \<exists>used. es = used @ es' \<and> kept_by used r [] (audio_bytes a) r')"

lemma audio_owes_step:
  assumes "kept_by [e] r [] [] r1" "audio_owes es r1 out"
  shows "audio_owes (e # es) r out"
  using assms(2) kept_by_trans [OF assms(1)]
  by (fastforce simp: audio_owes_def split: outcome.splits)

lemma take_pcm_kept:
  assumes "reader_sane r" "pcm_result (take_pcm now n r) = (a, r')"
  shows "kept_by [] r [] (audio_bytes a) r'"
proof -
  define k where "k = (if n > audio_size r \<or> n = 0 then audio_size r else n)"
  have k: "k \<le> audio_size r" by (simp add: k_def)
  show ?thesis
  proof (cases "k < 0")
    case True
    then show ?thesis using assms by (auto simp: take_pcm_def pcm_result_def audio_bytes_def k_def [symmetric] kept_by_refl)
  next
    case False
    let ?rest = "bytes_at (rawAudio r) k (audio_size r - k)"
    have r': "a = AData (take (nat k) (rawAudio r))"
        "r' = r\<lparr>rawAudio := (if audio_size r > k then write_at (rawAudio r) 0 ?rest else rawAudio r),
            audio_size := audio_size r - k, update_time := now\<rparr>"
      using assms(2) False by (auto simp: take_pcm_def pcm_result_def k_def [symmetric])
    have len: "length ?rest = nat (audio_size r - k)"
      using assms(1) False k by (simp add: bytes_at_def reader_sane_def min_def) linarith
    have split: "take (nat (audio_size r)) (rawAudio r) = take (nat k) (rawAudio r) @ take (nat (audio_size r - k)) (drop (nat k) (rawAudio r))"
      using False k by (simp add: take_add [symmetric] nat_add_distrib [symmetric])
    show ?thesis
      using assms(1) False k len split
      by (auto simp: r' kept_by_def reader_sane_def audio_waiting_def audio_bytes_def write_at_def same_setup_def bytes_at_def)
  qed
qed

lemma ff_audio_loop_kept:
  assumes "reader_sane r" "\<not> ff_stream r" "decode_audio r" "\<forall>e \<in> set es. frames_fit e"
  shows "audio_owes es r (ff_audio_loop n es r)"
  using assms
proof (induction es arbitrary: r)
  case Nil
  then show ?case by (simp add: audio_owes_def)
next
  case (Cons e es)
  let ?dx = "event_stream r e"
  let ?turn = "\<lambda>i. if decode_video r \<and> i = streamIndex r then Some (audio_turn_video n e r)
                 else if i = audioStreamIndex r then audio_turn_audio n e r else Some (GoOn, r)"
  have turn: "\<exists>nx r1. ?turn i = Some (nx, r1) \<and> kept_by [e] r [] [] r1" if dx: "?dx = Some i" for i
  proof -
    consider (video) "decode_video r" "i = streamIndex r"
      | (audio) "i = audioStreamIndex r" "\<not> (decode_video r \<and> audioStreamIndex r = streamIndex r)"
      | (other) "\<not> (decode_video r \<and> i = streamIndex r)" "i \<noteq> audioStreamIndex r" by blast
    then show ?thesis
    proof cases
      case video
      obtain ret vb r1 where d: "decode_video_frame (av_video e) None r = (ret, vb, r1)"
        by (cases "decode_video_frame (av_video e) None r") auto
      have vb: "vb = None" "same_setup r r1" using decode_video_kept [OF d] by auto
      obtain nx r2 where t: "audio_turn_video n e r = (nx, r2)" by fastforce
      have m: "same_media r1 r2" using file_turns(3) d t vb(2) Cons.prems(2) unfolding same_setup_def by (metis snd_conv)
      have "kept_by [e] r (shown_by vb r1) [] r2"
        using dx video m by (intro video_step_kept [OF video(1) _ Cons.prems(1) d]) (auto simp: same_media_def shown_by_def)
      then show ?thesis using t vb(1) video by (simp add: shown_by_def)
    next
      case audio
      have fit: "frames_fit e" using Cons.prems(4) by simp
      have ev: "event_stream r e = Some (audioStreamIndex r)" using dx audio(1) by simp
      obtain ret r1 where r1: "decode_audio_frame (av_audio e) r = Some (ret, r1)" "same_setup r r1"
          "\<forall>r2. same_media r1 r2 \<longrightarrow> kept_by [e] r [] [] r2"
        using audio_step_kept [OF ev Cons.prems(3) audio(2) Cons.prems(1) fit] by blast
      obtain nx r2 where t: "audio_turn_audio n e r = Some (nx, r2)" "same_media r1 r2"
        using file_turns(2) r1(1,2) Cons.prems(2) unfolding same_setup_def by (metis prod.collapse)
      have "kept_by [e] r [] [] r2" using r1(3) t(2) by blast
      then show ?thesis using t audio by auto
    next
      case other
      then have "kept_by [e] r [] [] r"
        using Cons.prems(1) dx by (intro other_step_kept) (auto simp: event_pictures_def event_pcm_def)
      with other show ?thesis by auto
    qed
  qed
  show ?case
  proof (cases ?dx)
    case None
    then have "kept_by [e] r [] [] r"
      using Cons.prems(1) by (intro other_step_kept) (auto simp: event_pictures_def event_pcm_def)
    moreover have "ff_audio_loop n (e # es) r = Done (AFail, r, es)"
      using None by (simp add: event_stream_def)
    ultimately show ?thesis by (auto simp: audio_owes_def audio_bytes_def)
  next
    case (Some i)
    obtain nx r1 where t: "?turn i = Some (nx, r1)" "kept_by [e] r [] [] r1" using turn [OF Some] by blast
    have r1: "same_setup r r1" "reader_sane r1" using t(2) by (auto simp: kept_by_def)
    have loop: "ff_audio_loop n (e # es) r =
        (case nx of GoOn \<Rightarrow> ff_audio_loop n es r1 | GiveUp \<Rightarrow> Done (AFail, r1, es)
         | HandOver \<Rightarrow> (case pcm_result (take_pcm (av_now e) n r1) of (a, r2) \<Rightarrow> Done (a, r2, es)))"
      using Some t(1) by (cases nx) (simp_all add: event_stream_def)
    show ?thesis
    proof (cases nx)
      case GoOn
      have "audio_owes es r1 (ff_audio_loop n es r1)"
        using Cons.IH [of r1] Cons.prems r1 by (auto simp: same_setup_def)
      then show ?thesis using GoOn t(2) loop by (auto intro: audio_owes_step)
    next
      case GiveUp
      then show ?thesis using t(2) loop by (auto simp: audio_owes_def audio_bytes_def)
    next
      case HandOver
      obtain a r2 where p: "pcm_result (take_pcm (av_now e) n r1) = (a, r2)" by fastforce
      show ?thesis
        using HandOver loop p kept_by_trans [OF t(2) take_pcm_kept [OF r1(2) p]] by (auto simp: audio_owes_def)
    qed
  qed
qed

section \<open>Any sequence of calls\<close>

datatype call = CallVideo int | CallAudio int int

fun run_calls :: "call list \<Rightarrow> av_event list \<Rightarrow> ff_reader \<Rightarrow> (byte list list \<times> byte list \<times> ff_reader \<times> av_event list) outcome" where
  "run_calls [] es r = Done ([], [], r, es)"
| "run_calls (CallVideo now # cs) es r =
     (case ff_read_video now es r of
        Blocked \<Rightarrow> Blocked | Broken \<Rightarrow> Broken
      | Done (c, sl, r1, es1) \<Rightarrow> (case run_calls cs es1 r1 of
            Done (ps, bs, r2, es2) \<Rightarrow> Done (shown sl r1 @ ps, bs, r2, es2) | Blocked \<Rightarrow> Blocked | Broken \<Rightarrow> Broken))"
| "run_calls (CallAudio now n # cs) es r =
     (case ff_read_audio now n es r of
        Blocked \<Rightarrow> Blocked | Broken \<Rightarrow> Broken
      | Done (a, r1, es1) \<Rightarrow> (case run_calls cs es1 r1 of
            Done (ps, bs, r2, es2) \<Rightarrow> Done (ps, audio_bytes a @ bs, r2, es2) | Blocked \<Rightarrow> Blocked | Broken \<Rightarrow> Broken))"

definition calls_owe :: "av_event list \<Rightarrow> ff_reader \<Rightarrow> (byte list list \<times> byte list \<times> ff_reader \<times> av_event list) outcome \<Rightarrow> bool" where
  "calls_owe es r out \<longleftrightarrow> (case out of Blocked \<Rightarrow> True | Broken \<Rightarrow> False
     | Done (ps, bs, r', es') \<Rightarrow> \<exists>used. es = used @ es' \<and> kept_by used r ps bs r')"

lemma ff_read_video_kept:
  assumes "reader_sane r" "\<not> ff_stream r" "\<forall>e \<in> set es. frames_fit e"
  shows "video_owes es r (ff_read_video now es r)"
proof -
  have "kept_by [] r (shown DisplaySlot (next_buffered now r)) [] (next_buffered now r)" if "buffers r \<noteq> []"
    using assms(1) that
    by (simp add: kept_by_def next_buffered_def same_setup_def reader_sane_def audio_waiting_def)
  then show ?thesis
    using ff_video_loop_kept [OF assms(1,2) _ assms(3)] kept_by_refl [OF assms(1)]
    by (auto simp: ff_read_video_def video_owes_def)
qed

lemma ff_read_audio_kept:
  assumes "reader_sane r" "\<not> ff_stream r" "\<forall>e \<in> set es. frames_fit e"
  shows "audio_owes es r (ff_read_audio now n es r)"
proof -
  obtain a r1 where p: "pcm_result (take_pcm now n r) = (a, r1)" by fastforce
  show ?thesis
    using ff_audio_loop_kept [OF assms(1,2) _ assms(3)] kept_by_refl [OF assms(1)] take_pcm_kept [OF assms(1) p] p
    by (auto simp: ff_read_audio_def audio_owes_def audio_bytes_def)
qed

lemma run_calls_kept:
  assumes "reader_sane r" "\<not> ff_stream r" "\<forall>e \<in> set es. frames_fit e"
  shows "calls_owe es r (run_calls cs es r)"
  using assms
proof (induction cs es r rule: run_calls.induct)
  case (1 es r)
  then show ?case by (auto simp: calls_owe_def kept_by_refl)
next
  case (2 now cs es r)
  note owes = ff_read_video_kept [OF 2(2-4), of now]
  show ?case
  proof (cases "ff_read_video now es r")
    case (Done x)
    obtain c sl r1 es1 where x: "x = (c, sl, r1, es1)" by (cases x)
    obtain used where u: "es = used @ es1" "kept_by used r (shown sl r1) [] r1"
      using owes Done x by (auto simp: video_owes_def)
    have "calls_owe es1 r1 (run_calls cs es1 r1)"
      using 2(1) [OF Done x [symmetric] refl refl] 2(3,4) u by (auto simp: kept_by_def same_setup_def)
    then show ?thesis
      using Done x u(1) kept_by_trans [OF u(2)] by (fastforce simp: calls_owe_def split: outcome.splits)
  qed (use owes in \<open>auto simp: video_owes_def calls_owe_def\<close>)
next
  case (3 now n cs es r)
  note owes = ff_read_audio_kept [OF 3(2-4), of now n]
  show ?case
  proof (cases "ff_read_audio now n es r")
    case (Done x)
    obtain a r1 es1 where x: "x = (a, r1, es1)" by (cases x)
    obtain used where u: "es = used @ es1" "kept_by used r [] (audio_bytes a) r1"
      using owes Done x by (auto simp: audio_owes_def)
    have "calls_owe es1 r1 (run_calls cs es1 r1)"
      using 3(1) [OF Done x [symmetric] refl] 3(3,4) u by (auto simp: kept_by_def same_setup_def)
    then show ?thesis
      using Done x u(1) kept_by_trans [OF u(2)] by (fastforce simp: calls_owe_def split: outcome.splits)
  qed (use owes in \<open>auto simp: audio_owes_def calls_owe_def\<close>)
qed

definition example_reader :: ff_reader where
  "example_reader = \<lparr>decode_video = True, decode_audio = True, aud_fmt = True, framesize = 0, same_format = False, rd_product = 0,
     audio_size = 0, rawAudio = replicate 100 0, rawBuffer = [], update_time = 0, ff_rnd = (\<lambda>x. x), ff_stream = False, streamIndex = 0,
     audioStreamIndex = 1, video_timebase = 1, audio_timebase = 1, video_pts_time = - 1, audio_pts_time = - 1, displayBuffer = [],
     buffers = [], ff_fps = 25, aud_channel = 1, aud_bitrate = 48000, audio_adjusted = False\<rparr>"

definition example_events :: "av_event list" where
  "example_events =
     [\<lparr>av_demux = DxPacket 0, av_video = \<lparr>dv_send = AvOk, dv_frames = [(0, Pixels [1]), (1, Pixels [2]), (2, Pixels [3])], dv_end = AvAgain\<rparr>,
        av_audio = \<lparr>da_send = AvEof, da_frames = [], da_end = AvEof\<rparr>, av_now = 5\<rparr>,
      \<lparr>av_demux = DxPacket 1, av_video = \<lparr>dv_send = AvEof, dv_frames = [], dv_end = AvEof\<rparr>,
        av_audio = \<lparr>da_send = AvOk, da_frames = [(0, Samples [7, 8])], da_end = AvAgain\<rparr>, av_now = 5\<rparr>,
      \<lparr>av_demux = DxEof, av_video = \<lparr>dv_send = AvOk, dv_frames = [(3, Pixels [4])], dv_end = AvEof\<rparr>,
        av_audio = \<lparr>da_send = AvOk, da_frames = [], da_end = AvEof\<rparr>, av_now = 5\<rparr>]"



section \<open>Silent streams\<close>

text \<open>The decoding loop ends with an error code of ffmpeg, at best that it wants more input.\<close>

lemma decode_video_never_ok: "dv_end dv \<noteq> AvOk \<Longrightarrow> decode_video_frame dv vb r = (ret, vb', r') \<Longrightarrow> ret \<noteq> AvOk"
proof -
  have "fin \<noteq> AvOk \<Longrightarrow> video_frames_loop fin fs vb r = (ret, vb', r') \<Longrightarrow> ret \<noteq> AvOk" for fin fs vb r
    by (induction fin fs vb r rule: video_frames_loop.induct) (auto simp: Let_def split: picture.splits prod.splits)
  then show "dv_end dv \<noteq> AvOk \<Longrightarrow> decode_video_frame dv vb r = (ret, vb', r') \<Longrightarrow> ret \<noteq> AvOk"
    by (auto simp: decode_video_frame_def split: if_splits)
qed

text \<open>A call of \<^verbatim>\<open>read_video_frame\<close> that decodes never stores the time of arrival and never drops
  the old pictures of a stream that was silent, whatever the clock says: the code for it asks that
  \<^verbatim>\<open>decode_video_frame\<close> has not returned an error, but its loop ends with one even after it has given
  pictures.\<close>

lemma silence_never_noticed:
  assumes "\<forall>e \<in> set es. dv_end (av_video e) \<noteq> AvOk" "\<not> decode_audio r"
    "ff_video_loop es sl r = Done (c, sl', r', es')"
  shows "update_time r' = update_time r \<and> audio_size r' = audio_size r \<and> (\<exists>more. buffers r' = buffers r @ more)"
  using assms
proof (induction es arbitrary: sl r)
  case (Cons e es)
  show ?case
  proof (cases "stream_of (streamIndex r) (av_demux e) = Some (streamIndex r)")
    case False
    with Cons show ?thesis by (auto split: option.splits if_splits)
  next
    case True
    obtain ret vb r1 where d: "decode_video_frame (av_video e) (Some sl) r = (ret, vb, r1)"
      by (cases "decode_video_frame (av_video e) (Some sl) r") auto
    have ret: "ret \<noteq> AvOk" using decode_video_never_ok [OF _ d] Cons.prems(1) by simp
    have keeps: "only_adds r r1" using decode_video_adds [OF d] .
    show ?thesis
      using Cons.prems(3) True d ret keeps Cons.IH [of r1 "case vb of None \<Rightarrow> NullSlot | Some s \<Rightarrow> s"] Cons.prems(1,2)
      by (auto simp: Let_def only_adds_def split: if_splits)
  qed
qed simp

lemma silence_never_noticed_example:
  "\<forall>now. case ff_video_loop [(hd example_events)\<lparr>av_now := now\<rparr>] NullSlot (example_reader\<lparr>decode_audio := False, ff_stream := True\<rparr>) of
     Done (c, sl', r', es') \<Rightarrow> update_time r' = 0 | _ \<Rightarrow> False"
proof
  fix now
  let ?r = "example_reader\<lparr>decode_audio := False, ff_stream := True\<rparr>" and ?es = "[(hd example_events)\<lparr>av_now := now\<rparr>]"
  have h: "\<forall>e \<in> set ?es. dv_end (av_video e) \<noteq> AvOk" "\<not> decode_audio ?r" "update_time ?r = 0"
    by (simp_all add: example_events_def example_reader_def)
  have "ff_video_loop ?es NullSlot ?r \<noteq> Blocked \<and> ff_video_loop ?es NullSlot ?r \<noteq> Broken"
    by (simp add: example_events_def example_reader_def stream_of_def decode_video_frame_def keep_shown_def place_picture_def Let_def)
  then show "case ff_video_loop ?es NullSlot ?r of Done (c, sl', r', es') \<Rightarrow> update_time r' = 0 | _ \<Rightarrow> False"
    using silence_never_noticed [OF h(1,2)] h(3)
    by (auto simp del: ff_video_loop.simps split: outcome.splits)
qed

end
