(* ===== verification/Ff_Open_Thms.thy ===== *)
theory Ff_Open_Thms
  imports Ff_Open Ff_Reader_Thms
begin

text \<open>
  What opening a reader leaves: a failed open leaves it closed and empty, an opened one is in the state
  that reading relies on (\<^verbatim>\<open>Ff_Reader_Thms\<close>), and reopening exchanges the display size of a video
  that lies on its side.
\<close>

lemmas open_defs = open_video_reader_def open_video_part_def open_audio_part_def and_then_def Let_def

lemma set_display_simps [simp]:
  "decode_audio (set_display rnd r) = decode_audio r" "buffers (set_display rnd r) = buffers r"
  "audio_size (set_display rnd r) = audio_size r" "rawAudio (set_display rnd r) = rawAudio r"
  "mr_open (set_display rnd r) = mr_open r" "mr_raw (set_display rnd r) = mr_raw r" "ff_rnd (set_display rnd r) = ff_rnd r"
  "ff_stream (set_display rnd r) = ff_stream r" "decode_video (set_display rnd r) = decode_video r"
  "mr_rotation (set_display rnd r) = mr_rotation r" "mr_out_pix_fmt (set_display rnd r) = mr_out_pix_fmt r"
  "mr_scale_prefer (set_display rnd r) = mr_scale_prefer r" "video_timebase (set_display rnd r) = video_timebase r"
  by (simp_all add: set_display_def)

lemma set_display_size [simp]:
  "disp_width (set_display rnd r) = (if disp_width r > 0 \<and> disp_height r > 0
     then if quarter_turn rnd (mr_rotation r) then disp_height r else disp_width r else mr_width r)"
  "disp_height (set_display rnd r) = (if disp_width r > 0 \<and> disp_height r > 0
     then if quarter_turn rnd (mr_rotation r) then disp_width r else disp_height r else mr_height r)"
  by (simp_all add: set_display_def)

lemma set_codec_simps [simp]:
  "mr_width (set_codec pb r) = fst (pb_size pb)" "mr_height (set_codec pb r) = snd (pb_size pb)"
  "decode_audio (set_codec pb r) = decode_audio r" "buffers (set_codec pb r) = buffers r" "disp_width (set_codec pb r) = disp_width r"
  "audio_size (set_codec pb r) = audio_size r" "rawAudio (set_codec pb r) = rawAudio r" "disp_height (set_codec pb r) = disp_height r"
  "mr_open (set_codec pb r) = mr_open r" "mr_raw (set_codec pb r) = mr_raw r" "ff_rnd (set_codec pb r) = ff_rnd r"
  "ff_stream (set_codec pb r) = ff_stream r" "decode_video (set_codec pb r) = decode_video r" "mr_rotation (set_codec pb r) = mr_rotation r"
  by (simp_all add: set_codec_def)

lemma set_video_simps [simp]:
  "decode_audio (set_video pb r) = decode_audio r" "buffers (set_video pb r) = buffers r" "disp_width (set_video pb r) = disp_width r"
  "audio_size (set_video pb r) = audio_size r" "rawAudio (set_video pb r) = rawAudio r" "disp_height (set_video pb r) = disp_height r"
  "mr_open (set_video pb r) = mr_open r" "mr_raw (set_video pb r) = mr_raw r" "ff_rnd (set_video pb r) = ff_rnd r"
  "ff_stream (set_video pb r) = ff_stream r" "decode_video (set_video pb r) = decode_video r" "mr_rotation (set_video pb r) = mr_rotation r"
  "ff_fps (set_video pb r) = choose_fps (ff_rnd r) (pb_time_base pb) (pb_frame_rate pb)"
  "length (displayBuffer (set_video pb r)) = nat (mr_buffersize (set_video pb r))"
  by (simp_all add: set_video_def Let_def)

text \<open>The two parts, when they succeed.\<close>

lemma open_video_part_eq:
  "open_video_part pb r = Opened r1 \<longleftrightarrow>
     (\<exists>idx rot. pb_video pb = Some idx \<and> pb_vparams pb \<and> turn_into_range (ff_rnd r) (get_rotation (ff_rnd r) pb) = Some rot \<and>
        pb_decoder pb \<and> pb_vcontext pb \<and> pb_vopen pb \<and> pb_fill pb \<and> pb_sws pb \<and>
        r1 = set_video pb (set_display (ff_rnd r) (set_codec pb (r\<lparr>streamIndex := idx, mr_rotation := rot\<rparr>))))"
  by (auto simp: open_video_part_def Let_def split: option.splits)

lemma open_video_part_opened:
  assumes "open_video_part pb r = Opened r1"
  shows "turn_into_range (ff_rnd r) (get_rotation (ff_rnd r) pb) = Some (mr_rotation r1)"
    "disp_width r1 = disp_width (set_display (ff_rnd r) (set_codec pb (r\<lparr>mr_rotation := mr_rotation r1\<rparr>)))"
    "disp_height r1 = disp_height (set_display (ff_rnd r) (set_codec pb (r\<lparr>mr_rotation := mr_rotation r1\<rparr>)))"
    "ff_rnd r1 = ff_rnd r" "decode_video r1 = decode_video r" "decode_audio r1 = decode_audio r" "mr_open r1 = mr_open r" "mr_raw r1 = mr_raw r"
    "buffers r1 = buffers r" "rawAudio r1 = rawAudio r" "audio_size r1 = audio_size r" "ff_stream r1 = ff_stream r"
proof -
  obtain idx rot where e: "turn_into_range (ff_rnd r) (get_rotation (ff_rnd r) pb) = Some rot"
      "r1 = set_video pb (set_display (ff_rnd r) (set_codec pb (r\<lparr>streamIndex := idx, mr_rotation := rot\<rparr>)))"
    using assms unfolding open_video_part_eq by blast
  show "turn_into_range (ff_rnd r) (get_rotation (ff_rnd r) pb) = Some (mr_rotation r1)"
    "disp_width r1 = disp_width (set_display (ff_rnd r) (set_codec pb (r\<lparr>mr_rotation := mr_rotation r1\<rparr>)))"
    "disp_height r1 = disp_height (set_display (ff_rnd r) (set_codec pb (r\<lparr>mr_rotation := mr_rotation r1\<rparr>)))"
    "ff_rnd r1 = ff_rnd r" "decode_video r1 = decode_video r" "decode_audio r1 = decode_audio r" "mr_open r1 = mr_open r" "mr_raw r1 = mr_raw r"
    "buffers r1 = buffers r" "rawAudio r1 = rawAudio r" "audio_size r1 = audio_size r" "ff_stream r1 = ff_stream r"
    using e(1) by (simp_all add: e(2))
qed

lemma open_video_part_opens:
  assumes "open_video_part pb r = Opened r1" "ff_rnd q = ff_rnd r"
  shows "\<exists>q1. open_video_part pb q = Opened q1"
  using assms by (auto simp: open_video_part_eq)

lemma open_audio_part_opened:
  assumes "open_audio_part pb r = Opened r1"
  shows "disp_width r1 = disp_width r" "disp_height r1 = disp_height r" "mr_rotation r1 = mr_rotation r" "ff_rnd r1 = ff_rnd r"
    "decode_video r1 = decode_video r" "mr_open r1 = mr_open r" "mr_raw r1 = mr_raw r" "buffers r1 = buffers r" "rawAudio r1 = rawAudio r"
    "audio_size r = 0 \<Longrightarrow> audio_size r1 = 0" "ff_stream r1 = ff_stream r" "mr_buffersize r1 = mr_buffersize r" "displayBuffer r1 = displayBuffer r"
    "\<exists>q1. open_audio_part pb q = Opened q1"
  using assms by (auto simp: open_audio_part_def Let_def split: option.splits if_splits)

text \<open>A reader as it stands when the file is open but no stream was looked for.\<close>

definition file_open :: "probe \<Rightarrow> media_reader \<Rightarrow> media_reader" where
  "file_open pb r = r\<lparr>mr_rotation := 0, mr_open := True,
     mr_totaltime := (case pb_duration pb of None \<Rightarrow> 0 | Some d \<Rightarrow> c_div (d + 5000) 1000)\<rparr>"

lemma open_reader_opened:
  assumes "open_video_reader pb r = Opened r1" "\<not> mr_open r" "\<not> mr_raw r"
  obtains ra where "pb_open pb" "pb_info pb" "if decode_video r then open_video_part pb (file_open pb r) = Opened ra else ra = file_open pb r"
    "if decode_audio ra then open_audio_part pb ra = Opened r1 else r1 = ra"
  using assms
  by (auto simp: open_video_reader_def and_then_def Let_def file_open_def split: open_result.splits if_splits)

lemma open_reader_opens:
  assumes "\<not> mr_open q" "\<not> mr_raw q" "pb_open pb" "pb_info pb"
    "if decode_video q then open_video_part pb (file_open pb q) = Opened qa else qa = file_open pb q"
    "if decode_audio qa then open_audio_part pb qa = Opened q1 else q1 = qa"
  shows "open_video_reader pb q = Opened q1"
  using assms by (simp add: open_video_reader_def and_then_def Let_def file_open_def split: if_splits)

lemma opened_is_open:
  assumes "open_video_reader pb r = Opened r1" "\<not> mr_open r" "\<not> mr_raw r"
  shows "mr_open r1" "\<not> mr_raw r1"
proof -
  obtain ra where ra: "if decode_video r then open_video_part pb (file_open pb r) = Opened ra else ra = file_open pb r"
      "if decode_audio ra then open_audio_part pb ra = Opened r1 else r1 = ra"
    using open_reader_opened [OF assms] by metis
  have "mr_open ra \<and> \<not> mr_raw ra"
    using ra(1) assms(3) open_video_part_opened(7,8) [of pb "file_open pb r" ra] by (auto simp: file_open_def split: if_splits)
  then show "mr_open r1" "\<not> mr_raw r1" using ra(2) open_audio_part_opened(6,7) [of pb ra r1] by (auto split: if_splits)
qed

text \<open>Opening a video that lies on its side exchanges the width and height it was given, and keeps
  them exchanged in the reader: opening the same file once more, as the decoder thread does whenever a
  video of a stream output is rewound, exchanges them back, so the pictures of every second round have the
  wrong shape.\<close>

lemma reopen_turns_display:
  assumes "open_video_reader pb r = Opened r1" "\<not> mr_open r" "\<not> mr_raw r" "decode_video r" "0 < disp_width r" "0 < disp_height r"
    "quarter_turn (ff_rnd r) (mr_rotation r1)"
  shows "disp_width r1 = disp_height r \<and> disp_height r1 = disp_width r \<and>
    (\<exists>r2. reopen_video_reader pb r1 = Opened r2 \<and> disp_width r2 = disp_width r \<and> disp_height r2 = disp_height r \<and>
       mr_rotation r2 = mr_rotation r1)"
proof -
  obtain ra where ra: "pb_open pb" "pb_info pb" "open_video_part pb (file_open pb r) = Opened ra"
      "if decode_audio ra then open_audio_part pb ra = Opened r1 else r1 = ra"
    using open_reader_opened [OF assms(1-3)] assms(4) by metis
  have same: "mr_rotation r1 = mr_rotation ra" "disp_width r1 = disp_width ra" "disp_height r1 = disp_height ra" "ff_rnd r1 = ff_rnd ra"
      "decode_video r1 = decode_video ra" "mr_open r1 = mr_open ra" "mr_raw r1 = mr_raw ra"
    using ra(4) open_audio_part_opened [of pb ra r1] by (auto split: if_splits)
  note v = open_video_part_opened [OF ra(3)]
  have first: "disp_width r1 = disp_height r" "disp_height r1 = disp_width r"
    using v(1-3) same assms(5-7) by (simp_all add: file_open_def)
  let ?q = "read_video_close_only r1"
  have q: "\<not> mr_open ?q" "\<not> mr_raw ?q" "decode_video ?q" "ff_rnd (file_open pb ?q) = ff_rnd (file_open pb r)"
    using same v(4,5,8) assms(3,4) by (simp_all add: read_video_close_only_def file_open_def)
  obtain qa where qa: "open_video_part pb (file_open pb ?q) = Opened qa"
    using open_video_part_opens [OF ra(3) q(4)] by blast
  note w = open_video_part_opened [OF qa]
  have da: "decode_audio qa \<Longrightarrow> decode_audio ra"
    using w(6) ra(4) v(6) by (auto simp: file_open_def read_video_close_only_def open_audio_part_def Let_def split: if_splits option.splits)
  obtain r2 where r2: "if decode_audio qa then open_audio_part pb qa = Opened r2 else r2 = qa"
    using da ra(4) open_audio_part_opened(14) [of pb ra r1 qa] by (metis (full_types))
  have "open_video_reader pb ?q = Opened r2"
    using open_reader_opens [OF q(1,2) ra(1,2)] qa r2 q(3) by simp
  then have "reopen_video_reader pb r1 = Opened r2"
    using same v(7,8) assms(3) by (simp add: reopen_video_reader_def file_open_def)
  moreover have "disp_width r2 = disp_width qa" "disp_height r2 = disp_height qa" "mr_rotation r2 = mr_rotation qa"
    using r2 open_audio_part_opened [of pb qa r2] by (auto split: if_splits)
  moreover have rot: "mr_rotation qa = mr_rotation ra" using v(1) w(1) q(4) by simp
  then have "disp_width qa = disp_width r" "disp_height qa = disp_height r"
    using w(2,3) q(4) first same rot assms(5-7) by (simp_all add: file_open_def read_video_close_only_def)
  ultimately show ?thesis using first same(1) rot by simp
qed

lemma reopen_forgets_rotation:
  "mr_open r \<Longrightarrow> reopen_video_reader pb (r\<lparr>mr_rotation := x\<rparr>) = (if mr_raw r then Opened (r\<lparr>mr_rotation := x\<rparr>) else reopen_video_reader pb r)"
  by (simp add: reopen_video_reader_def read_video_close_only_def open_video_reader_def)

definition sideways_probe :: probe where
  "sideways_probe = \<lparr>pb_open = True, pb_info = True, pb_duration = Some 4000000, pb_video = Some 0, pb_vparams = True,
     pb_rotate_tag = Some (''90'', 90, False), pb_matrix = None, pb_decoder = True, pb_vcontext = True, pb_vopen = True, pb_pix_fmt = 0,
     pb_size = (1920, 1080), pb_time_base = 1 / 90000, pb_frame_rate = 30, pb_bit_rate = 8000000,
     pb_image_size = (\<lambda>f w h. 1), pb_fill = True, pb_sws = True, pb_audio = None, pb_aparams = False,
     pb_acontext = False, pb_aopen = False, pb_atime_base = 0, pb_aframe_rate = 0, pb_swr = False\<rparr>"

definition blank_reader :: media_reader where
  "blank_reader = ff_reader.extend example_reader
     (media_reader.fields False False 0 0 1080 1920 0 0 0 0 0 28 None SWS_BILINEAR)"

lemma sideways_opened: "\<exists>r1. open_video_reader sideways_probe blank_reader = Opened r1 \<and> mr_rotation r1 = 90"
proof -
  have "turn_into_range (\<lambda>x. x) (get_rotation (\<lambda>x. x) sideways_probe) = Some 90" by code_simp
  moreover have "ff_rnd blank_reader = (\<lambda>x. x)" by (simp add: blank_reader_def ff_reader.defs media_reader.defs example_reader_def)
  ultimately have "case open_video_reader sideways_probe blank_reader of Opened r1 \<Rightarrow> mr_rotation r1 = 90 | _ \<Rightarrow> False"
    by (simp add: open_defs set_codec_def set_video_def sideways_probe_def set_display_def blank_reader_def ff_reader.defs media_reader.defs example_reader_def)
  then show ?thesis by (auto split: open_result.splits)
qed

section \<open>Opened and failed readers\<close>

lemma open_failed_closed:
  assumes "open_video_reader pb r = OpenFailed r1"
  shows "\<not> mr_open r1 \<and> \<not> mr_raw r1 \<and> buffers r1 = [] \<and> rawAudio r1 = [] \<and> audio_size r1 = 0"
  using assms
  by (auto simp: open_video_reader_def read_video_close_only_def Let_def split: if_splits open_result.splits)

lemma choose_fps_bound: "choose_fps rnd tb fr \<le> 60"
  by (simp add: choose_fps_def Let_def)

lemma opened_reader_fresh:
  assumes "open_video_reader pb r = Opened r1" "\<not> mr_open r" "\<not> mr_raw r" "buffers r = []" "rawAudio r = []" "audio_size r = 0"
  shows "buffers r1 = [] \<and> rawAudio r1 = [] \<and> audio_size r1 = 0 \<and> ff_stream r1 = ff_stream r"
proof -
  obtain ra where ra: "if decode_video r then open_video_part pb (file_open pb r) = Opened ra else ra = file_open pb r"
      "if decode_audio ra then open_audio_part pb ra = Opened r1 else r1 = ra"
    using open_reader_opened [OF assms(1-3)] by metis
  have "buffers ra = [] \<and> rawAudio ra = [] \<and> audio_size ra = 0 \<and> ff_stream ra = ff_stream r"
    using ra(1) assms(4-6) open_video_part_opened(9-12) [of pb "file_open pb r" ra] by (auto simp: file_open_def split: if_splits)
  then show ?thesis using ra(2) open_audio_part_opened [of pb ra r1] by (auto split: if_splits)
qed

text \<open>From \<^verbatim>\<open>new_video_reader\<close> on: whatever the library answers, a reader opened for a file hands over
  all that is decoded from it.\<close>

lemma new_media_complete:
  assumes "new_video_reader r0 False dv da w h pref fmt ch rate = Some r" "open_video_reader pb r = Opened r1"
    "\<forall>e \<in> set es. frames_fit e" "run_calls cs es (ff_reader.truncate r1) = Done (ps, bs, r', es')"
  shows "\<exists>used. es = used @ es' \<and> ps @ buffers r' = concat (map (event_pictures (ff_reader.truncate r1)) used)"
proof -
  have r: "\<not> mr_open r" "\<not> mr_raw r" "buffers r = []" "rawAudio r = []" "audio_size r = 0" "\<not> ff_stream r"
    using assms(1) by (auto simp: new_video_reader_def split: if_splits)
  have "buffers (ff_reader.truncate r1) = []" "reader_sane (ff_reader.truncate r1)" "\<not> ff_stream (ff_reader.truncate r1)"
    using opened_reader_fresh [OF assms(2) r(1-5)] r(6) by (simp_all add: ff_reader.defs reader_sane_def)
  then show ?thesis using run_calls_kept [of "ff_reader.truncate r1" es cs] assms(3,4) by (auto simp: calls_owe_def kept_by_def)
qed

text \<open>Raw input whose output format is \<^verbatim>\<open>yuv420p\<close> is refused, or opened without its pictures.\<close>

lemma yuv_output_drops_pictures:
  assumes "rq_out_fmt q = Some ''yuv420p''" "open_raw_video rp q r0 = RawOpened r1"
  shows "\<not> decode_video r1"
proof -
  have "fmt_is_zero (parse_pix_fmt (rq_out_fmt q))" unfolding assms(1) by code_simp
  then show ?thesis
    using assms(2) by (auto simp: open_raw_video_def raw_reader0_def Let_def split: if_splits prod.splits)
qed

lemma missing_ring_reads_freed:
  assumes "rq_file q = ''shm://7''" "rq_fmt q = None" "rq_out_fmt q = None" "rq_aud_fmt q = Some f" "\<not> rp_shm rp"
  shows "open_raw_video rp q r0 = RawUseAfterFree"
  using assms by (simp add: open_raw_video_def parse_pix_fmt_def raw_source_ok_def Let_def)

end
