(* ===== verification/Frame_Convert_Thms.thy ===== *)
theory Frame_Convert_Thms
  imports Frame_Convert Ff_Open_Thms
begin

text \<open>
  The keyed colour's alpha is a table of the distance to it; an alpha video gives back the picture and
  the alpha it was made from; colour conversions match the formats; and a video that lies on its side is
  turned further each time its file is opened again.
\<close>

section \<open>Keyed colour\<close>

text \<open>The largest difference of a colour byte, and the alpha for it.\<close>

definition color_distance :: "byte list \<Rightarrow> pixel \<Rightarrow> int" where
  "color_distance bg pix =
     max \<bar>uint (pix ! 0) - uint (bg ! 0)\<bar> (max \<bar>uint (pix ! 1) - uint (bg ! 1)\<bar> \<bar>uint (pix ! 2) - uint (bg ! 2)\<bar>)"

definition keyed_pixel :: "byte list \<Rightarrow> pixel \<Rightarrow> pixel" where
  "keyed_pixel bg pix =
     (let d = color_distance bg pix
      in if pix ! 3 = 0 \<or> d > 60 then pix
         else pix[3 := (if d \<le> 10 then 0 else if d \<le> 20 then 10 else if d \<le> 40 then 50 else 100)])"

lemma uint_byte_bounds: "0 \<le> uint (b :: byte)" "uint (b :: byte) \<le> 255"
  using uint_bounded [of b] by auto

lemma in_bounds_distance:
  assumes "0 \<le> diff"
  shows "in_bounds diff bg pix \<longleftrightarrow> color_distance bg pix \<le> diff"
proof -
  have "low_bound diff x \<le> y \<and> y \<le> high_bound diff x \<longleftrightarrow> \<bar>y - x\<bar> \<le> diff"
    if "0 \<le> x" "x \<le> 255" "0 \<le> y" "y \<le> 255" for x y :: int
    using that assms by (auto simp: low_bound_def high_bound_def)
  note this [OF uint_byte_bounds uint_byte_bounds]
  then show ?thesis by (simp add: in_bounds_def color_distance_def)
qed

lemma color_distance_alpha [simp]: "color_distance bg (pix[3 := a]) = color_distance bg pix"
  by (simp add: color_distance_def)

lemma smooth_pixel_keyed:
  assumes "length pix = 4" "length bg = 3"
  shows "smooth_pixel bg pix = keyed_pixel bg pix"
proof -
  have same: "color_distance bg pix = 0" if "take 3 pix = take 3 bg"
    using that assms by (cases bg; cases pix) (auto simp: color_distance_def numeral_eq_Suc Suc_length_conv length_Suc_conv)
  show ?thesis
    using same
    by (auto simp: smooth_pixel_def keyed_pixel_def replacelist_def in_bounds_distance Let_def)
qed

text \<open>The routine that makes a keyed colour transparent, which tests each pixel against four
  precomputed boxes, widest first, gives each pixel that is not transparent yet the alpha of a table of the
  largest difference of a colour byte: 0 up to 10, 10 up to 20, 50 up to 40, 100 up to 60; beyond that, and
  in the colour bytes, nothing changes.\<close>

lemma smooth_bgcolor_table:
  assumes "mat_ok m" "mt_ch m = 4" "length bg = 3"
  shows "smooth_bgcolor_shane bg m = m\<lparr>mt_px := map (map (keyed_pixel bg)) (mt_px m)\<rparr>"
proof -
  have "map (smooth_pixel bg) row = map (keyed_pixel bg) row" if "row \<in> set (mt_px m)" for row
    using that assms smooth_pixel_keyed by (auto simp: mat_ok_def)
  then show ?thesis by (simp add: smooth_bgcolor_shane_def)
qed

lemma smooth_bgcolor_table_example:
  "smooth_bgcolor_shane [0, 255, 0] \<lparr>mt_ch = 4, mt_cols = 2, mt_px = [[[15, 250, 3, 255], [70, 255, 0, 255]]]\<rparr> =
     \<lparr>mt_ch = 4, mt_cols = 2, mt_px = [[[15, 250, 3, 10], [70, 255, 0, 255]]]\<rparr>"
proof -
  have "mat_ok \<lparr>mt_ch = 4, mt_cols = 2, mt_px = [[[15, 250, 3, 255], [70, 255, 0, 255]]]\<rparr>" by code_simp
  then show ?thesis
    using smooth_bgcolor_table [of "\<lparr>mt_ch = 4, mt_cols = 2, mt_px = [[[15, 250, 3, 255], [70, 255, 0, 255]]]\<rparr>" "[0, 255, 0]"]
    by (simp add: keyed_pixel_def color_distance_def)
qed

section \<open>Alpha videos\<close>

text \<open>How such a video is made: the alpha picture beside, above or below the picture.\<close>

definition beside :: "mat \<Rightarrow> mat \<Rightarrow> mat" where
  "beside l r = l\<lparr>mt_cols := mt_cols l + mt_cols r, mt_px := map2 (@) (mt_px l) (mt_px r)\<rparr>"

definition above :: "mat \<Rightarrow> mat \<Rightarrow> mat" where
  "above t b = t\<lparr>mt_px := mt_px t @ mt_px b\<rparr>"

definition alpha_video_frame :: "char \<Rightarrow> mat \<Rightarrow> mat \<Rightarrow> mat" where
  "alpha_video_frame mode am mm =
     (if mode = CHR ''l'' then beside am mm else if mode = CHR ''r'' then beside mm am
      else if mode = CHR ''t'' then above am mm else above mm am)"

definition same_size :: "mat \<Rightarrow> mat \<Rightarrow> bool" where
  "same_size a b \<longleftrightarrow> mt_cols a = mt_cols b \<and> length (mt_px a) = length (mt_px b) \<and> mt_ch a = mt_ch b"

lemma map2_append_halves:
  assumes "length xs = length ys" "\<forall>row \<in> set xs. length row = n" "\<forall>row \<in> set ys. length row = n"
  shows "map (take n) (map2 (@) xs ys) = xs" "map (\<lambda>row. take n (drop n row)) (map2 (@) xs ys) = ys"
  using assms by (induction xs ys rule: list_induct2) auto

lemma halves_beside:
  assumes "mat_ok l" "mat_ok r" "same_size l r"
  shows "sub_mat (beside l r) 0 0 (nat (mt_cols (beside l r)) div 2) (nat (mt_rows (beside l r))) = l"
    "sub_mat (beside l r) (nat (mt_cols (beside l r)) div 2) 0 (nat (mt_cols (beside l r)) div 2) (nat (mt_rows (beside l r))) = r"
proof -
  have n: "nat (mt_cols l + mt_cols r) div 2 = nat (mt_cols l)"
    using assms by (simp add: same_size_def mat_ok_def)
  have rows: "\<forall>row \<in> set (mt_px l). length row = nat (mt_cols l)" "\<forall>row \<in> set (mt_px r). length row = nat (mt_cols l)"
    using assms by (auto simp: mat_ok_def same_size_def)
  have len: "length (mt_px l) = length (mt_px r)" using assms(3) by (simp add: same_size_def)
  show "sub_mat (beside l r) 0 0 (nat (mt_cols (beside l r)) div 2) (nat (mt_rows (beside l r))) = l"
    using assms n len map2_append_halves(1) [OF len rows]
    by (simp add: beside_def sub_mat_def mt_rows_def mat_ok_def)
  show "sub_mat (beside l r) (nat (mt_cols (beside l r)) div 2) 0 (nat (mt_cols (beside l r)) div 2) (nat (mt_rows (beside l r))) = r"
    using assms n len map2_append_halves(2) [OF len rows]
    by (cases r) (simp add: beside_def sub_mat_def mt_rows_def mat_ok_def same_size_def)
qed

lemma take_rows_id: "mat_ok m \<Longrightarrow> map (take (nat (mt_cols m))) (mt_px m) = mt_px m"
  by (rule map_idI) (auto simp: mat_ok_def)

lemma halves_above:
  assumes "mat_ok t" "mat_ok b" "same_size t b"
  shows "sub_mat (above t b) 0 0 (nat (mt_cols (above t b))) (nat (mt_rows (above t b)) div 2) = t"
    "sub_mat (above t b) 0 (nat (mt_rows (above t b)) div 2) (nat (mt_cols (above t b))) (nat (mt_rows (above t b)) div 2) = b"
proof -
  have n: "nat (mt_rows (above t b)) div 2 = length (mt_px t)" "length (mt_px b) = length (mt_px t)"
    using assms by (simp_all add: same_size_def above_def mt_rows_def)
  have c: "0 \<le> mt_cols t" "mt_cols b = mt_cols t" "mt_ch b = mt_ch t" using assms by (simp_all add: mat_ok_def same_size_def)
  have r: "map (take (nat (mt_cols t))) (mt_px t) = mt_px t" "map (take (nat (mt_cols t))) (mt_px b) = mt_px b"
    using take_rows_id [OF assms(1)] take_rows_id [OF assms(2)] c by simp_all
  show "sub_mat (above t b) 0 0 (nat (mt_cols (above t b))) (nat (mt_rows (above t b)) div 2) = t"
    unfolding n using n(2) c r by (simp add: above_def sub_mat_def)
  show "sub_mat (above t b) 0 (nat (mt_rows (above t b)) div 2) (nat (mt_cols (above t b))) (nat (mt_rows (above t b)) div 2) = b"
    unfolding n using n(2) c r by (cases b) (simp add: above_def sub_mat_def)
qed

lemma alpha_halves_of_frame:
  assumes "mat_ok am" "mat_ok mm" "same_size am mm" "mode \<in> {CHR ''l'', CHR ''r'', CHR ''t'', CHR ''b''}"
  shows "alpha_halves (alpha_video_frame mode am mm) (code mode) = Some (am, mm)"
proof -
  have sym: "same_size mm am" using assms(3) by (simp add: same_size_def)
  have codes: "code (CHR ''l'') = 108" "code (CHR ''r'') = 114" "code (CHR ''t'') = 116" "code (CHR ''b'') = 98" by code_simp+
  from assms(4) consider "mode = CHR ''l''" | "mode = CHR ''r''" | "mode = CHR ''t''" | "mode = CHR ''b''" by blast
  then show ?thesis
    by cases (simp_all add: alpha_halves_def alpha_video_frame_def codes Let_def
        halves_beside [OF assms(1-3)] halves_beside [OF assms(2,1) sym] halves_above [OF assms(1-3)] halves_above [OF assms(2,1) sym])
qed

text \<open>A frame that shows the alpha picture left of, right of, above or below the picture comes apart
  into exactly these two: without a mask the result is the picture with the alpha picture's first byte as
  fourth channel, with a mask it is the picture itself and the grey alpha picture.\<close>

lemma alpha_video_roundtrip:
  assumes "mat_ok am" "mat_ok mm" "same_size am mm" "\<not> mat_none am" "mode \<in> {CHR ''l'', CHR ''r'', CHR ''t'', CHR ''b''}"
  shows "MakeAlphaMat gray (alpha_video_frame mode am mm) (code mode) None =
      (mm\<lparr>mt_ch := 4, mt_px := map2 (map2 (\<lambda>p a. take 3 p @ [a ! 0])) (mt_px mm) (mt_px am)\<rparr>, None) \<and>
    MakeAlphaMat gray (alpha_video_frame mode am mm) (code mode) (Some msk) = (mm, Some (gray am))"
proof -
  have "\<not> (code (CHR ''A'') \<le> code mode \<and> code mode \<le> code (CHR ''Z''))"
    using assms(5) by (elim insertE) (auto, code_simp+)
  then have mode: "(if code (CHR ''A'') \<le> code mode \<and> code mode \<le> code (CHR ''Z'') then code mode + 32 else code mode) = code mode"
    by auto
  show ?thesis
    unfolding MakeAlphaMat_def mode using alpha_halves_of_frame [OF assms(1-3,5)] assms(4) by (simp add: mix_alpha_def)
qed

lemma alpha_video_roundtrip_example:
  "MakeAlphaMat (\<lambda>m. m) \<lparr>mt_ch = 3, mt_cols = 2, mt_px = [[[9, 9, 9], [1, 2, 3]]]\<rparr> (code (CHR ''l'')) None =
     (\<lparr>mt_ch = 4, mt_cols = 1, mt_px = [[[1, 2, 3, 9]]]\<rparr>, None)"
proof -
  let ?a = "\<lparr>mt_ch = 3, mt_cols = 1, mt_px = [[[9, 9, 9]]]\<rparr>" and ?m = "\<lparr>mt_ch = 3, mt_cols = 1, mt_px = [[[1, 2, 3]]]\<rparr>"
  have "mat_ok ?a" "mat_ok ?m" "same_size ?a ?m" "\<not> mat_none ?a" by code_simp+
  from alpha_video_roundtrip [OF this, of "CHR ''l''" "\<lambda>m. m"]
  show ?thesis by (simp add: alpha_video_frame_def beside_def)
qed

section \<open>Colour conversion\<close>

text \<open>What each conversion reads and gives.\<close>

definition color_ends :: "cv_color \<Rightarrow> pix_fmt set \<times> pix_fmt" where
  "color_ends c = (case c of
       COLOR_BGR2BGRA \<Rightarrow> ({AV_PIX_FMT_BGR24}, AV_PIX_FMT_BGRA) | COLOR_BGRA2BGR \<Rightarrow> ({AV_PIX_FMT_BGRA}, AV_PIX_FMT_BGR24)
     | COLOR_YUV2BGRA_I420 \<Rightarrow> ({AV_PIX_FMT_YUV420P}, AV_PIX_FMT_BGRA) | COLOR_YUV2BGR_I420 \<Rightarrow> ({AV_PIX_FMT_YUV420P}, AV_PIX_FMT_BGR24)
     | COLOR_RGB2BGRA \<Rightarrow> ({AV_PIX_FMT_RGB24}, AV_PIX_FMT_BGRA) | COLOR_RGB2BGR \<Rightarrow> ({AV_PIX_FMT_RGB24}, AV_PIX_FMT_BGR24)
     | COLOR_RGBA2BGRA \<Rightarrow> ({AV_PIX_FMT_RGBA}, AV_PIX_FMT_BGRA) | COLOR_RGBA2BGR \<Rightarrow> ({AV_PIX_FMT_RGBA}, AV_PIX_FMT_BGR24))"

lemma color_code_fits:
  assumes "fmt = AV_PIX_FMT_BGRA \<or> fmt = AV_PIX_FMT_BGR24" "out \<noteq> fmt"
  shows "out \<in> fst (color_ends (color_code out fmt)) \<and> snd (color_ends (color_code out fmt)) = fmt"
  using assms by (cases out) (auto simp: color_code_def color_ends_def Let_def)

lemma choose_fmt_bgr: "fmt \<in> {None, Some AV_PIX_FMT_BGRA, Some AV_PIX_FMT_BGR24} \<Longrightarrow>
    choose_fmt fmt out t a = AV_PIX_FMT_BGRA \<or> choose_fmt fmt out t a = AV_PIX_FMT_BGR24"
  by (auto simp: choose_fmt_def Let_def)

section \<open>Rewound videos\<close>

lemma apply_rotation_keeps: "rotation (snd (snd (apply_rotation ops m mt pmask))) = rotation m"
  by (simp add: apply_rotation_def Let_def split: prod.split)

lemma get_bgra_rotation:
  assumes "bq_fmt q \<in> {None, Some AV_PIX_FMT_BGRA, Some AV_PIX_FMT_BGR24}"
    "get_bgra_mat ops q out w h data rot m pmask = (mt, k, rot', m')"
  shows "rot' = fst (take_rotation (bo_rnd ops) rot m)" "rotation m' = rotation (snd (take_rotation (bo_rnd ops) rot m))"
proof -
  have "fst (snd (snd (get_bgra_mat ops q out w h data rot m pmask))) = fst (take_rotation (bo_rnd ops) rot m)"
    "rotation (snd (snd (snd (get_bgra_mat ops q out w h data rot m pmask)))) = rotation (snd (take_rotation (bo_rnd ops) rot m))"
    unfolding get_bgra_mat_def Let_def case_prod_beta if_not_P [OF iffD2 [OF not_not assms(1)]]
    by (simp_all add: apply_rotation_keeps)
  then show "rot' = fst (take_rotation (bo_rnd ops) rot m)" "rotation m' = rotation (snd (take_rotation (bo_rnd ops) rot m))"
    unfolding assms(2) by simp_all
qed

lemma take_rotation_sideways:
  assumes "quarter_turn r rot"
  shows "fst (take_rotation r rot m) = 0"
    "rotation (snd (take_rotation r rot m)) = rotation m + f_trunc (f_add r rot (1 / 2))"
  using assms by (auto simp: take_rotation_def quarter_turn_def)


definition example_ops :: bgra_ops where
  "example_ops = \<lparr>bo_rnd = (\<lambda>x. x), bo_single = (\<lambda>x. x), bo_view = (\<lambda>n w h d. released), bo_color = (\<lambda>c m. m), bo_gray = (\<lambda>m. m),
     bo_resize = (\<lambda>m w h. m), bo_scale = (\<lambda>f m. m), bo_fill = (\<lambda>f w h. released),
     bo_frame = \<lparr>rnd = (\<lambda>x. x), rd_video = (\<lambda>r. ((0, None), r)), rd_dims = (\<lambda>r. (0, 0, 0)), to_mat = (\<lambda>m b. released),
       mat_empty = mat_none, mat_cols = mt_cols, mat_rows = mt_rows, draw_text = (\<lambda>t m n. released), rotate_mat = (\<lambda>d m. m),
       mat_resize = (\<lambda>i _ _. i), overlay_bgra = (\<lambda>a _ _ _ _ _. a), strftime = (\<lambda>s t. s), local_hms = (\<lambda>t. (0, 0, 0)), time_now = 0\<rparr>\<rparr>"

definition example_material :: video_material where
  "example_material = material.extend material0 (video_material.fields \<lparr>rx = 0, ry = 0, rwidth = 0, rheight = 0\<rparr> FT_None)"


end
