(* ===== verification/Main_Setup_Thms.thy ===== *)
theory Main_Setup_Thms
  imports Main_Setup Frame_Convert_Thms Main_Options_Thms
begin

text \<open>
  Of the setup: the frame written for an \<^verbatim>\<open>mp4alpha\<close> output is read back as an alpha video, which a
  failed start leaves behind, the frames a blind watermark is drawn on, and rates of slow videos.
\<close>

section \<open>The frame of an mp4alpha output\<close>

lemma mp4alpha_is_alpha_video:
  "mp4alpha_frame ow oh base = alpha_video_frame (if ow > oh then CHR ''b'' else CHR ''r'') (grey_alpha base) (drop_alpha base)"
  by (simp add: mp4alpha_frame_def alpha_video_frame_def above_def beside_def grey_alpha_def drop_alpha_def)

lemma four_split: "length p = 4 \<Longrightarrow> take 3 p @ [p ! 3] = p"
  using take_Suc_conv_app_nth [of 3 p] by simp

lemma split_alpha_ok:
  assumes "mat_ok base" "mt_ch base = 4" "\<not> mat_none base"
  shows "mat_ok (grey_alpha base)" "mat_ok (drop_alpha base)" "same_size (grey_alpha base) (drop_alpha base)" "\<not> mat_none (grey_alpha base)"
  using assms by (auto simp: mat_ok_def grey_alpha_def drop_alpha_def same_size_def mat_none_def)

lemma rejoin_alpha:
  assumes "mat_ok base" "mt_ch base = 4"
  shows "map2 (map2 (\<lambda>p a. take 3 p @ [a ! 0])) (mt_px (drop_alpha base)) (mt_px (grey_alpha base)) = mt_px base"
proof -
  have "take 3 p @ [p ! 3] = p" if "row \<in> set (mt_px base)" "p \<in> set row" for row p
    using that assms four_split by (auto simp: mat_ok_def)
  then show ?thesis
    by (auto simp: drop_alpha_def grey_alpha_def map2_map_map intro!: map_idI)
qed

text \<open>C38. The frame that an \<^verbatim>\<open>mp4alpha\<close> output sends to the encoder has the size the encoder was
  started with, and reading it as an alpha video, below for a wide and right for any other picture, gives
  the four channel picture that was written.\<close>

theorem mp4alpha_roundtrip:
  assumes "mat_ok base" "mt_ch base = 4" "\<not> mat_none base" "mt_cols base = os_width os" "mt_rows base = os_height os"
    "same_ci (os_fmt os) ''mp4alpha''" "os_alpha os"
  shows "case write_frame yuv os base of (m, n, ev) \<Rightarrow>
    (mt_cols m, mt_rows m) = encoder_size os \<and> n = mt_rows m * mt_cols m * 3 \<and>
    MakeAlphaMat gray m (code (if os_width os > os_height os then CHR ''b'' else CHR ''r'')) None = (base, None)"
proof -
  let ?mode = "if os_width os > os_height os then CHR ''b'' else CHR ''r''"
  note ok = split_alpha_ok [OF assms(1-3)]
  have codes: "\<not> (code (CHR ''A'') \<le> code ?mode \<and> code ?mode \<le> code (CHR ''Z''))"
    by (cases "os_width os > os_height os") (simp_all, code_simp+)
  then have mode: "(if code (CHR ''A'') \<le> code ?mode \<and> code ?mode \<le> code (CHR ''Z'') then code ?mode + 32 else code ?mode) = code ?mode"
    by auto
  have halves: "alpha_halves (mp4alpha_frame (os_width os) (os_height os) base) (code ?mode) = Some (grey_alpha base, drop_alpha base)"
    unfolding mp4alpha_is_alpha_video by (rule alpha_halves_of_frame [OF ok(1-3)]) simp
  have "mix_alpha (drop_alpha base) (grey_alpha base) = base"
    using rejoin_alpha [OF assms(1,2)] assms(2) by (cases base) (simp add: mix_alpha_def drop_alpha_def)
  then have "MakeAlphaMat gray (mp4alpha_frame (os_width os) (os_height os) base) (code ?mode) None = (base, None)"
    unfolding MakeAlphaMat_def mode halves using ok(4) by simp
  moreover have "(mt_cols (mp4alpha_frame (os_width os) (os_height os) base), mt_rows (mp4alpha_frame (os_width os) (os_height os) base)) = encoder_size os"
    using assms(4-6) by (auto simp: mp4alpha_frame_def encoder_size_def mt_rows_def drop_alpha_def grey_alpha_def)
  ultimately show ?thesis
    using assms(6,7) by (simp add: write_frame_def Let_def)
qed

definition example_spec :: output_spec where
  "example_spec = \<lparr>os_width = 2, os_height = 1, os_fps = 0, os_bitrate = 0, os_fmt = ''mp4alpha'', os_path = ''a.mp4'', os_alpha = True,
     os_raw = False, os_event = None, os_x_ratio = 1, os_y_ratio = 1\<rparr>"

theorem mp4alpha_roundtrip_witness:
  "case write_frame (\<lambda>m. m) example_spec \<lparr>mt_ch = 4, mt_cols = 2, mt_px = [[[1, 2, 3, 4], [5, 6, 7, 8]]]\<rparr> of (m, n, ev) \<Rightarrow>
     mt_px m = [[[1, 2, 3], [5, 6, 7]], [[4, 4, 4], [8, 8, 8]]] \<and>
     MakeAlphaMat (\<lambda>m. m) m (code (CHR ''b'')) None = (\<lparr>mt_ch = 4, mt_cols = 2, mt_px = [[[1, 2, 3, 4], [5, 6, 7, 8]]]\<rparr>, None)"
proof -
  let ?b = "\<lparr>mt_ch = 4, mt_cols = 2, mt_px = [[[1, 2, 3, 4], [5, 6, 7, 8]]]\<rparr>"
  have "mat_ok ?b" "mt_ch ?b = 4" "\<not> mat_none ?b" "mt_cols ?b = os_width example_spec" "mt_rows ?b = os_height example_spec"
    "same_ci (os_fmt example_spec) ''mp4alpha''" "os_alpha example_spec" by code_simp+
  note mp4alpha_roundtrip [OF this, of "\<lambda>m. m" "\<lambda>m. m"]
  moreover have "case write_frame (\<lambda>m. m) example_spec ?b of (m, n, ev) \<Rightarrow> mt_px m = [[[1, 2, 3], [5, 6, 7]], [[4, 4, 4], [8, 8, 8]]]"
    by code_simp
  ultimately show ?thesis by (auto simp: example_spec_def split: prod.splits)
qed

section \<open>Starting\<close>

text \<open>A start that fails leaves the audio fifo behind only when the command thread could not be
  started; no other failure after the fifo was made keeps it.\<close>

lemma failed_start_leaves_fifo:
  assumes "startup c e = (Some exit_code, rs)"
  shows "rs_fifo rs \<longleftrightarrow> \<not> sc_raw c \<and> sc_cmds c \<and> \<not> se_cmds e \<and> (sc_event c \<longrightarrow> se_event e) \<and> se_main e \<and> se_dir e \<and>
    se_materials e \<and> se_mkfifo e \<and> se_popen e"
  using assms
  by (auto simp: startup_def step_check_def step_output_def step_guarded_def resources0_def split: if_splits)

lemma started_with_all:
  assumes "startup c e = (None, rs)"
  shows "rs_video rs \<and> rs_audio rs = (\<not> sc_raw c) \<and> rs_fifo rs = (\<not> sc_raw c) \<and> rs_cmds rs = sc_cmds c \<and> rs_event rs = sc_event c \<and>
    rs_substream rs = sc_substream c \<and> rs_opengl rs = sc_opengl c \<and> rs_subtitle rs = sc_subtitle c \<and> rs_decoder rs = sc_decoder c"
  using assms
  by (auto simp: startup_def step_check_def step_output_def step_guarded_def resources0_def split: if_splits)

section \<open>Rates\<close>

lemma stream_bitrate_range: "1000000 \<le> stream_bitrate o' b \<and> (o_rtmpout o' \<noteq> None \<longrightarrow> stream_bitrate o' b \<le> 6000000)"
  by (simp add: stream_bitrate_def Let_def)

text \<open>A main video that gives no usable rate divides by zero before the loop.\<close>

lemma slow_video_divides_by_zero:
  assumes "os_fps os = 0" "ff_fps rd = 0" "ieee r"
  shows "frame_period (mp_fps (plan_main_video r o' os rd (plan0 os q))) = None"
proof -
  have half: "f_add r 0 (1 / 2) = 1 / 2" using ieee_half [OF assms(3), of 1] by (simp add: f_add_def)
  have "f_trunc (f_add r 0 (1 / 2)) = 0" unfolding half by (simp add: f_trunc_def floor_eq_iff)
  then show ?thesis using assms(1,2) by (simp add: plan_main_video_def Let_def frame_period_def)
qed

lemma first_product_pos: "0 < p \<Longrightarrow> 0 < first_product ms p \<and> first_product ms p \<le> p"
proof (induction ms arbitrary: p)
  case (Cons m ms)
  then show ?case
    by (cases "product_id m > 0 \<and> product_id m < p") (auto dest: Cons.IH intro: order_trans less_imp_le)
qed simp

text \<open>The first product is the least positive one of the materials.\<close>

lemma first_product_least:
  assumes "m \<in> set ms" "0 < product_id m" "p \<noteq> 0"
  shows "0 < first_product ms p \<and> first_product ms p \<le> product_id m"
  using assms
proof (induction ms arbitrary: p)
  case (Cons k ms)
  show ?case
  proof (cases "m = k")
    case True
    show ?thesis
      using first_product_pos [of "if product_id k > 0 \<and> (p < 0 \<or> product_id k < p) then product_id k else p" ms] True Cons.prems
      by (cases "p < 0 \<or> product_id k < p") (auto intro: order_trans)
  next
    case False
    with Cons show ?thesis by simp
  qed
qed simp

section \<open>Blind watermark\<close>

lemma fft_frames_from:
  assumes "txt \<noteq> []" "0 < fps" "0 < interval" "fps * interval < 2 ^ 31" "0 \<le> cnt"
  shows "fft_frames txt fps interval n cnt = Some (map (\<lambda>k. (cnt + int k) mod (fps * interval) = 0) [0..<n])"
  using assms(5)
proof (induction n arbitrary: cnt)
  case (Suc n)
  have p: "to_i32 (fps * interval) = fps * interval" "0 < fps * interval"
  proof -
    show pos: "0 < fps * interval" using assms(2,3) by (rule mult_pos_pos)
    show "to_i32 (fps * interval) = fps * interval" using assms(4) less_imp_le [OF pos] by (intro to_i32_id) linarith+
  qed
  have "map (\<lambda>k. (cnt + int k) mod (fps * interval) = 0) [0..<Suc n] =
      (cnt mod (fps * interval) = 0) # map (\<lambda>k. (cnt + 1 + int k) mod (fps * interval) = 0) [0..<n]"
    by (simp add: upt_conv_Cons map_Suc_upt [symmetric] algebra_simps del: upt_Suc)
  then show ?case
    using Suc assms(1-3) p by (simp add: fft_draw_def c_rem_nonneg del: upt_Suc)
qed simp

text \<open>The blind watermark is drawn on every frame whose number is a multiple of rate times interval.\<close>

lemma fft_frames_marked:
  assumes "txt \<noteq> []" "0 < fps" "0 < interval" "fps * interval < 2 ^ 31"
  shows "fft_frames txt fps interval n 0 = Some (map (\<lambda>k. int k mod (fps * interval) = 0) [0..<n])"
  using fft_frames_from [OF assms, of 0] by simp

end
