(* ===== verification/Encode_Threads.thy ===== *)
theory Encode_Threads
  imports Thread_Loop Event_Push Raw_Media C_Double
begin

text \<open>
  The encoder threads (\<^verbatim>\<open>videowriter.h\<close>, \<^verbatim>\<open>videowriter.cpp\<close>): frames and audio are
  queued by the frame loop and written by a thread to a pipe to ffmpeg, one turn of \<^verbatim>\<open>RUN\<close>
  at a time; and the substream output that owns a pair of them with the ffmpeg command line
  (\<^verbatim>\<open>material.cpp\<close>). What the system calls answer is an input of the turn; events sent,
  pipes opened and threads started are recorded as actions.
\<close>

section \<open>Video\<close>

datatype enc_action = EncEvent EventCode string | EncPopen string | EncStartAudio string | EncClose

record video_enc =
  v_stopped :: bool
  v_exit :: bool
  videoBuffers :: "byte list safe_queue"
  v_writer :: bool
  v_runner :: bool
  pipe_cmd :: string
  sendnum :: int
  audio_starter :: bool
  audio_fifo :: string
  v_wire :: "byte list list"
  v_actions :: "enc_action list"

definition FFVideoEncodeThread :: video_enc where
  "FFVideoEncodeThread = \<lparr>v_stopped = True, v_exit = True, videoBuffers = SafeQueue, v_writer = False, v_runner = False,
     pipe_cmd = [], sendnum = 0, audio_starter = False, audio_fifo = [], v_wire = [], v_actions = []\<rparr>"

text \<open>\<^verbatim>\<open>fwrite\<close> returns the number of items written, an unsigned number; \<open>env_wait\<close> is what
  happens to the queue during the timed wait.\<close>

record enc_env =
  env_popen :: bool
  env_fwrite :: nat
  env_wait :: "byte list safe_queue \<Rightarrow> byte list safe_queue"

definition v_act :: "enc_action \<Rightarrow> video_enc \<Rightarrow> video_enc" where
  "v_act a t = t\<lparr>v_actions := v_actions t @ [a]\<rparr>"

text \<open>The end of \<^verbatim>\<open>RUN\<close>: the writer is closed when the thread opened it.\<close>

definition v_leave :: "video_enc \<Rightarrow> video_enc \<times> bool" where
  "v_leave t = ((if v_writer t \<and> pipe_cmd t \<noteq> [] then v_act EncClose t\<lparr>v_writer := False\<rparr> else t), False)"

definition video_RUN :: "enc_env \<Rightarrow> video_enc \<Rightarrow> video_enc \<times> bool" where
  "video_RUN env t =
     (if v_stopped t \<or> \<not> v_writer t then
        (if v_exit t then v_leave t
         else if \<not> v_stopped t \<and> \<not> v_writer t \<and> pipe_cmd t \<noteq> [] then
           (let t1 = v_act (EncPopen (pipe_cmd t)) t
            in if env_popen env
               then let t2 = t1\<lparr>v_writer := True\<rparr>
                    in (if audio_starter t2 then v_act (EncStartAudio (audio_fifo t2)) t2 else t2, True)
               else (t1, True))
         else if v_stopped t \<and> v_writer t \<and> pipe_cmd t \<noteq> []
           then (v_act EncClose (t\<lparr>v_writer := False, pipe_cmd := []\<rparr>), True)
         else (t, True))
      else if v_exit t \<and> Size (videoBuffers t) = 0 then v_leave t
      else case PopMove (env_wait env) 100 (videoBuffers t) of
             (None, q) \<Rightarrow> (if v_exit t then v_leave (t\<lparr>videoBuffers := q\<rparr>) else (t\<lparr>videoBuffers := q\<rparr>, True))
           | (Some b, q) \<Rightarrow>
               let t1 = t\<lparr>videoBuffers := q, v_wire := v_wire t @ [b]\<rparr>;
                   ret = int (env_fwrite env)
               in if ret < 0 then (v_act (EncEvent ET_PUSH_FAILURE ''write fifo error'') t1, True)
                  else ((if sendnum t1 = 0 then v_act (EncEvent ET_START_OF_STREAM ''begin streaming'') t1 else t1)
                          \<lparr>sendnum := sendnum t1 + 1\<rparr>, True))"

definition video_Write :: "byte list \<Rightarrow> int \<Rightarrow> video_enc \<Rightarrow> int \<times> video_enc" where
  "video_Write data ty t =
     (let b = (if ty \<noteq> 0 then put_head ty (int (length data)) else []) @ data
      in (0, t\<lparr>videoBuffers := snd (PushMove (videoBuffers t) b)\<rparr>))"

definition video_STOP :: "bool \<Rightarrow> video_enc \<Rightarrow> video_enc" where
  "video_STOP force t =
     (let q = Abort (videoBuffers t) in t\<lparr>v_stopped := True, videoBuffers := (if force then Clear q else q)\<rparr>)"

definition video_START_fd :: "bool \<Rightarrow> video_enc \<Rightarrow> video_enc" where
  "video_START_fd fd t = t\<lparr>v_writer := fd, sendnum := 0, videoBuffers := Resume (videoBuffers t), v_exit := False,
     v_stopped := False, v_runner := True\<rparr>"

definition video_START :: "string \<Rightarrow> bool \<Rightarrow> string \<Rightarrow> video_enc \<Rightarrow> video_enc" where
  "video_START pipe starter fifo t = t\<lparr>v_writer := False, sendnum := 0, pipe_cmd := pipe, audio_starter := starter,
     audio_fifo := fifo, videoBuffers := Resume (videoBuffers t), v_exit := False, v_stopped := False, v_runner := True\<rparr>"

text \<open>\<^verbatim>\<open>EXIT\<close>: forced, it only signals the thread; otherwise it joins it, and \<open>wait_end\<close>
  gives the state found when the thread has ended.\<close>

definition video_EXIT :: "(video_enc \<Rightarrow> video_enc) \<Rightarrow> bool \<Rightarrow> video_enc \<Rightarrow> video_enc" where
  "video_EXIT wait_end force t =
     (let t1 = t\<lparr>v_exit := True, videoBuffers := (if force then Clear (videoBuffers t) else videoBuffers t)\<rparr>
      in if v_runner t1 then (if force then t1 else (wait_end t1)\<lparr>v_runner := False\<rparr>) else t1)"

section \<open>Audio\<close>

record audio_enc =
  a_stopped :: bool
  a_exit :: bool
  audioBuffers :: "byte list safe_queue"
  a_writer :: int
  a_runner :: bool
  a_fifo :: string
  a_wire :: "byte list list"

definition FFAudioEncodeThread :: audio_enc where
  "FFAudioEncodeThread = \<lparr>a_stopped = True, a_exit = True, audioBuffers = SafeQueue, a_writer = -1, a_runner = False,
     a_fifo = [], a_wire = []\<rparr>"

record fifo_env =
  env_fd :: int
  env_ret :: int
  fifo_wait :: "byte list safe_queue \<Rightarrow> byte list safe_queue"

definition audio_RUN :: "fifo_env \<Rightarrow> audio_enc \<Rightarrow> audio_enc \<times> bool" where
  "audio_RUN env t =
     (if a_stopped t then (if a_writer t \<ge> 0 then t\<lparr>a_writer := -1\<rparr> else t, \<not> a_exit t)
      else if a_writer t < 0 \<and> a_exit t then (t, False)
      else
        let t1 = (if a_writer t < 0 then t\<lparr>a_writer := env_fd env\<rparr> else t)
        in if a_writer t1 < 0 then (t1, True)
           else if a_exit t1 \<and> Size (audioBuffers t1) = 0 then (t1\<lparr>a_writer := -1\<rparr>, False)
           else case PopMove (fifo_wait env) 100 (audioBuffers t1) of
                  (None, q) \<Rightarrow>
                    (if a_exit t1 then (t1\<lparr>audioBuffers := q, a_writer := -1\<rparr>, False)
                     else (t1\<lparr>audioBuffers := q\<rparr>, True))
                | (Some b, q) \<Rightarrow>
                    (t1\<lparr>audioBuffers := q, a_wire := a_wire t1 @ [b]\<rparr>, \<not> (env_ret env < 0 \<and> a_exit t1)))"

definition audio_Write :: "byte list \<Rightarrow> audio_enc \<Rightarrow> int \<times> audio_enc" where
  "audio_Write data t = (0, t\<lparr>audioBuffers := snd (PushMove (audioBuffers t) data)\<rparr>)"

definition audio_STOP :: "bool \<Rightarrow> audio_enc \<Rightarrow> audio_enc" where
  "audio_STOP force t =
     (let q = Abort (audioBuffers t) in t\<lparr>a_stopped := True, audioBuffers := (if force then Clear q else q)\<rparr>)"

definition audio_START :: "string \<Rightarrow> audio_enc \<Rightarrow> audio_enc" where
  "audio_START fifo t = t\<lparr>a_fifo := fifo, audioBuffers := Resume (audioBuffers t), a_exit := False,
     a_stopped := False, a_runner := True\<rparr>"

definition audio_EXIT :: "bool \<Rightarrow> audio_enc \<Rightarrow> audio_enc" where
  "audio_EXIT force t =
     (let t1 = t\<lparr>a_exit := True\<rparr>
      in if force \<and> a_runner t1 then t1\<lparr>audioBuffers := Clear (audioBuffers t1)\<rparr> else t1)"

section \<open>Reading subtitles at the output's pace\<close>

record subtitle_enc =
  skip_subtitle :: bool
  lastFrameNo :: int
  st_fps :: int
  finishedBuffers :: "(int \<times> byte list) safe_queue"

text \<open>\<^verbatim>\<open>FFSubtitleEncodeThread::Read\<close>: the result code, a picture if a new one was taken, and
  the frame number if it was set.\<close>

definition subtitle_Read ::
  "rounding \<Rightarrow> ((int \<times> byte list) safe_queue \<Rightarrow> (int \<times> byte list) safe_queue) \<Rightarrow> int \<Rightarrow> int \<Rightarrow> 'a subtitle_enc_scheme
     \<Rightarrow> int \<times> byte list option \<times> int option \<times> 'a subtitle_enc_scheme" where
  "subtitle_Read r wait out_framenum out_fps t =
     (if skip_subtitle t then (-1, None, None, t)
      else if 0 < lastFrameNo t \<and> f_div r (f_add r (of_int (lastFrameNo t)) (1 / 2)) (of_int (st_fps t)) \<ge> f_div r (of_int out_framenum) (of_int out_fps)
        then (0, None, Some out_framenum, t)
      else case PopMove wait 100 (finishedBuffers t) of
             (None, q) \<Rightarrow> (0, None, None, t\<lparr>finishedBuffers := q\<rparr>)
           | (Some (no, pic), q) \<Rightarrow> (0, Some pic, Some no, t\<lparr>finishedBuffers := q, lastFrameNo := no\<rparr>))"

end
