(* ===== verification/Streamout.thy ===== *)
theory Streamout
  imports Encode_Threads C_Text
begin

text \<open>
  The ffmpeg command line of an output (\<^verbatim>\<open>format_ffmepg_encode_cmdline\<close>) and the life of
  a substream output with its two encoder threads (\<^verbatim>\<open>start_streamout_thread\<close>,
  \<^verbatim>\<open>stop_streamout_thread\<close>, \<^verbatim>\<open>close_streamout_thread\<close> in \<^verbatim>\<open>material.cpp\<close>). The
  macro \<^verbatim>\<open>FFMPEG_ENCODE_COLORSPACE\<close> is defined by \<^verbatim>\<open>decorateVideo.h\<close>.
\<close>

section \<open>The command line\<close>

text \<open>A pointer that may be null is an option.\<close>

record encode_spec =
  e_ffmpeg :: string
  e_output :: string
  e_width :: int
  e_height :: int
  e_fps :: int
  e_bitrate :: int
  e_nvenc :: bool
  e_preset :: "string option"
  e_fmt :: string
  e_rawaudio :: "string option"
  e_channel :: int
  e_samplerate :: int
  e_rtmp :: "string option"
  e_quiet :: bool

definition input_format :: "string \<Rightarrow> string" where
  "input_format fmt =
     (if same_ci fmt ''mp4alpha'' then ''bgr24''
      else if same_ci fmt ''mov'' \<or> same_ci fmt ''webm'' then ''bgra'' else ''yuv420p'')"

definition out_samplerate :: "encode_spec \<Rightarrow> int" where
  "out_samplerate e =
     (if e_rtmp e \<noteq> None \<and> (e_width e \<le> 640 \<or> e_height e \<le> 640) then 16000
      else if starts_with_ci ''mp4'' (e_fmt e) then 48000
      else e_samplerate e)"

definition audio_input :: "encode_spec \<Rightarrow> string" where
  "audio_input e = (case e_rawaudio e of None \<Rightarrow> []
     | Some f \<Rightarrow> ''-f s16le -ar '' @ print_int (e_samplerate e) @ '' -ac '' @ print_int (e_channel e) @ '' -i '' @ f)"

definition video_input :: "encode_spec \<Rightarrow> string" where
  "video_input e = ''-f rawvideo -pixel_format '' @ input_format (e_fmt e) @ '' -video_size ''
     @ print_int (e_width e) @ ''x'' @ print_int (e_height e) @ '' -i -''"

definition filter_param :: "encode_spec \<Rightarrow> string" where
  "filter_param e = (if e_rawaudio e \<noteq> None then ''-map 0:v -map 1:a'' else [])"

definition mp4_param :: "encode_spec \<Rightarrow> string" where
  "mp4_param e =
     ''-c:v '' @ (if e_nvenc e then ''h264_nvenc'' else if e_rtmp e \<noteq> None then ''h264'' else ''libx264'')
       @ '' -framerate '' @ print_int (e_fps e) @ '' -b:v '' @ print_int (e_bitrate e)
       @ (case e_preset e of
            Some (c # cs) \<Rightarrow> '' -preset '' @ c # cs
          | _ \<Rightarrow> if e_rtmp e \<noteq> None then '' -preset veryfast'' else [])
       @ (if e_rtmp e = None then '' -color_range tv -colorspace bt709 -color_trc bt709 -color_primaries bt709'' else [])"

definition is_mov :: "encode_spec \<Rightarrow> bool" where
  "is_mov e \<longleftrightarrow> e_rtmp e = None \<and> same_ci (e_fmt e) ''mov''"

definition is_webm :: "encode_spec \<Rightarrow> bool" where
  "is_webm e \<longleftrightarrow> e_rtmp e = None \<and> same_ci (e_fmt e) ''webm''"

definition out_param :: "encode_spec \<Rightarrow> string" where
  "out_param e =
     (if is_mov e then ''-c:v qtrle -pix_fmt argb -threads 8 -b:v '' @ print_int (e_bitrate e)
      else if is_webm e then ''-c:v libvpx-vp9 -pix_fmt yuva420p -threads 8 -deadline good -cpu-used 3 -tile-columns 6 -frame-parallel 1 -row-mt 1 -b:v '' @ print_int (e_bitrate e)
      else mp4_param e)
     @ (if e_quiet e then '' -loglevel warning'' else [])"

definition audio_param :: "encode_spec \<Rightarrow> string" where
  "audio_param e =
     (if e_rawaudio e = None then []
      else if \<not> is_mov e \<and> is_webm e then ''-c:a libopus -b:a '' @ print_int (out_samplerate e)
      else ''-acodec aac -ar '' @ print_int (out_samplerate e) @ '' -ac '' @ print_int (e_channel e))"

definition out_file :: "encode_spec \<Rightarrow> string" where
  "out_file e = (case e_rtmp e of Some u \<Rightarrow> ''-f flv '' @ u | None \<Rightarrow> ''-y '' @ e_output e)"

definition full_cmdline :: "encode_spec \<Rightarrow> string" where
  "full_cmdline e = e_ffmpeg e @ '' -fflags +genpts -r '' @ print_int (e_fps e) @ '' '' @ video_input e @ '' ''
     @ audio_input e @ '' '' @ filter_param e @ '' '' @ out_param e @ '' '' @ audio_param e @ '' '' @ out_file e"

definition format_ffmepg_encode_cmdline :: "encode_spec \<Rightarrow> string" where
  "format_ffmepg_encode_cmdline e = fst (snprintf 3999 (full_cmdline e))"

section \<open>Substream outputs\<close>

text \<open>\<open>freed_running\<close> records an encoder object that was deleted while its thread had not ended.\<close>

record streamout =
  s_rtmpout :: "string option"
  s_w :: int
  s_h :: int
  s_fps :: int
  s_bitrate :: int
  s_channel :: int
  s_samplerate :: int
  s_disable_audio :: bool
  s_audio_fifo :: string
  s_video :: "video_enc option"
  s_audio :: "audio_enc option"
  freed_running :: bool

definition stream_encode_spec :: "string \<Rightarrow> streamout \<Rightarrow> encode_spec" where
  "stream_encode_spec ffmpeg s =
     \<lparr>e_ffmpeg = ffmpeg, e_output = ''-'', e_width = s_w s, e_height = s_h s, e_fps = s_fps s, e_bitrate = s_bitrate s,
      e_nvenc = False, e_preset = None, e_fmt = ''mp4alpha'',
      e_rawaudio = (if s_disable_audio s then None else Some (s_audio_fifo s)), e_channel = s_channel s,
      e_samplerate = s_samplerate s, e_rtmp = s_rtmpout s, e_quiet = True\<rparr>"

datatype mkfifo_result = FifoMade | FifoExists | FifoFailed

definition new_or :: "'a \<Rightarrow> 'a option \<Rightarrow> 'a" where "new_or d o' = (case o' of None \<Rightarrow> d | Some x \<Rightarrow> x)"

definition start_streamout_thread :: "mkfifo_result \<Rightarrow> string \<Rightarrow> streamout \<Rightarrow> int \<times> streamout" where
  "start_streamout_thread mk ffmpeg s =
     (if \<not> s_disable_audio s \<and> mk = FifoFailed then (-1, s)
      else
        let cmd = format_ffmepg_encode_cmdline (stream_encode_spec ffmpeg s);
            v = new_or FFVideoEncodeThread (s_video s)
        in if s_disable_audio s then (0, s\<lparr>s_video := Some (video_START cmd False [] v)\<rparr>)
           else (0, s\<lparr>s_audio := Some (new_or FFAudioEncodeThread (s_audio s)),
                       s_video := Some (video_START cmd True (s_audio_fifo s) v)\<rparr>))"

definition stop_streamout_thread :: "bool \<Rightarrow> streamout \<Rightarrow> int \<times> streamout" where
  "stop_streamout_thread force s =
     (0, s\<lparr>s_video := map_option (video_STOP force) (s_video s), s_audio := map_option (audio_STOP force) (s_audio s)\<rparr>)"

definition close_streamout_thread :: "(video_enc \<Rightarrow> video_enc) \<Rightarrow> bool \<Rightarrow> streamout \<Rightarrow> int \<times> streamout" where
  "close_streamout_thread wait_end force s =
     (let s1 = (case s_video s of None \<Rightarrow> s
                | Some v \<Rightarrow> s\<lparr>s_video := None, freed_running := freed_running s \<or> v_runner (video_EXIT wait_end force v)\<rparr>)
      in (0, s1\<lparr>s_audio := map_option (audio_EXIT force) (s_audio s1)\<rparr>))"

end
