(* ===== verification/Encode_Threads_Thms.thy ===== *)
theory Encode_Threads_Thms
  imports Streamout
begin

text \<open>
  The encoder threads keep the order of the frames and end with an empty queue; failed writes
  are never noticed; a forced close frees an encoder that still runs. And what the ffmpeg
  command line says.
\<close>

lemmas v_ops = v_act_def v_leave_def

lemma v_leave_wire: "v_leave t = (t', g) \<Longrightarrow> v_wire t' = v_wire t \<and> videoBuffers t' = videoBuffers t \<and> \<not> g
    \<and> v_stopped t' = v_stopped t \<and> sendnum t' = sendnum t"
  by (auto simp: v_ops split: if_splits)

section \<open>Both threads are queue threads\<close>

lemma video_RUN_cases:
  assumes "video_RUN env t = (t', goes)"
  shows "(v_wire t' = v_wire t \<and> videoBuffers t' = videoBuffers t)
    \<or> (\<exists>q. PopMove (env_wait env) 100 (videoBuffers t) = (None, q) \<and> videoBuffers t' = q \<and> v_wire t' = v_wire t)
    \<or> (\<exists>b q. PopMove (env_wait env) 100 (videoBuffers t) = (Some b, q) \<and> videoBuffers t' = q \<and> v_wire t' = v_wire t @ [b])"
  using assms by (auto simp: video_RUN_def v_ops Let_def split: if_splits prod.splits option.splits)

lemma audio_RUN_cases:
  assumes "audio_RUN env t = (t', goes)"
  shows "(a_wire t' = a_wire t \<and> audioBuffers t' = audioBuffers t)
    \<or> (\<exists>q. PopMove (fifo_wait env) 100 (audioBuffers t) = (None, q) \<and> audioBuffers t' = q \<and> a_wire t' = a_wire t)
    \<or> (\<exists>b q. PopMove (fifo_wait env) 100 (audioBuffers t) = (Some b, q) \<and> audioBuffers t' = q \<and> a_wire t' = a_wire t @ [b])"
  using assms by (auto simp: audio_RUN_def Let_def split: if_splits prod.splits option.splits)

interpretation video_loop: queue_thread video_RUN "\<lambda>t. m_q (videoBuffers t)" v_wire "\<lambda>e. appends (env_wait e)"
proof
  fix e s s' goes
  assume a: "appends (env_wait e)" "video_RUN e s = (s', goes)"
  from video_RUN_cases [OF a(2)]
  show "\<exists>new. v_wire s' @ m_q (videoBuffers s') = v_wire s @ m_q (videoBuffers s) @ new"
    using PopMove_order [OF a(1)] by (elim disjE exE) fastforce+
  from video_RUN_cases [OF a(2)] show "\<exists>out. v_wire s' = v_wire s @ out \<and> length out \<le> 1" by auto
qed

interpretation audio_loop: queue_thread audio_RUN "\<lambda>t. m_q (audioBuffers t)" a_wire "\<lambda>e. appends (fifo_wait e)"
proof
  fix e s s' goes
  assume a: "appends (fifo_wait e)" "audio_RUN e s = (s', goes)"
  from audio_RUN_cases [OF a(2)]
  show "\<exists>new. a_wire s' @ m_q (audioBuffers s') = a_wire s @ m_q (audioBuffers s) @ new"
    using PopMove_order [OF a(1)] by (elim disjE exE) fastforce+
  from audio_RUN_cases [OF a(2)] show "\<exists>out. a_wire s' = a_wire s @ out \<and> length out \<le> 1" by auto
qed

lemma PopMove_none_empty:
  "appends w \<Longrightarrow> PopMove w t q = (None, q') \<Longrightarrow> \<not> m_abort q' \<Longrightarrow> m_q q' = []"
  by (auto simp: PopMove_def Let_def split: if_splits list.splits)

lemma Size_zero: "Size q = 0 \<Longrightarrow> length (m_q q) < 2 ^ 31 \<Longrightarrow> m_q q = []"
  by (simp add: Size_def to_i32_def)


definition drain_example :: video_enc where
  "drain_example = video_START_fd True FFVideoEncodeThread"

definition quiet_env :: enc_env where
  "quiet_env = \<lparr>env_popen = True, env_fwrite = 1, env_wait = (\<lambda>q. q)\<rparr>"


section \<open>Write failures\<close>

text \<open>The result of \<^verbatim>\<open>fwrite\<close> is a count and never negative, so the branch that reports
  a push failure is dead: no turn sends \<^verbatim>\<open>ET_PUSH_FAILURE\<close>, and a frame whose write fails is
  counted as sent (the first one even announces the start of the stream).\<close>

lemma push_failure_never_reported:
  assumes "video_RUN env t = (t', goes)" "env_fwrite env = 0"
  shows "(EncEvent ET_PUSH_FAILURE msg \<in> set (v_actions t') \<longleftrightarrow> EncEvent ET_PUSH_FAILURE msg \<in> set (v_actions t))
    \<and> (v_wire t' \<noteq> v_wire t \<longrightarrow> sendnum t' = sendnum t + 1
      \<and> (sendnum t = 0 \<longrightarrow> EncEvent ET_START_OF_STREAM ''begin streaming'' \<in> set (v_actions t')))"
  using assms by (auto simp: video_RUN_def v_ops Let_def split: if_splits prod.splits option.splits)

lemma push_failure_never_reported_example:
  "let t = snd (video_Write [1, 2] 0 drain_example); t' = fst (video_RUN (quiet_env\<lparr>env_fwrite := 0\<rparr>) t)
   in EncEvent ET_PUSH_FAILURE ''write fifo error'' \<notin> set (v_actions t') \<and> sendnum t' = 1"
proof -
  define t where "t = snd (video_Write [1, 2] 0 drain_example)"
  obtain t' g where r: "video_RUN (quiet_env\<lparr>env_fwrite := 0\<rparr>) t = (t', g)" by fastforce
  have t: "v_actions t = []" "sendnum t = 0" "v_wire t = []"
    by (simp_all add: t_def drain_example_def video_Write_def video_START_fd_def FFVideoEncodeThread_def Let_def)
  have "v_wire t' = [[1, 2]]"
    using r by (auto simp: t_def drain_example_def video_Write_def video_START_fd_def FFVideoEncodeThread_def quiet_env_def
        SafeQueue_def Resume_def PushMove_def Let_def video_RUN_def Size_def to_i32_def PopMove_def v_act_def)
  then have "EncEvent ET_PUSH_FAILURE ''write fifo error'' \<notin> set (v_actions t') \<and> sendnum t' = 1"
    using push_failure_never_reported [OF r, of "''write fifo error''"] t by simp
  then show ?thesis unfolding t_def [symmetric] using r by simp
qed

section \<open>Substream outputs\<close>

text \<open>A forced close deletes the video encoder while its thread may still run on it, and keeps a
  pointer to the audio encoder.\<close>

lemma forced_close_frees_running_encoder:
  assumes "s_video s = Some v" "v_runner v"
  shows "freed_running (snd (close_streamout_thread wait_end True s)) \<and> s_video (snd (close_streamout_thread wait_end True s)) = None"
  using assms by (simp add: close_streamout_thread_def video_EXIT_def Let_def)

lemma close_joins:
  assumes "s_video s = Some v" "\<not> freed_running s" "\<And>t. v_exit t \<Longrightarrow> wait_end t = t" "v_runner v"
  shows "\<not> freed_running (snd (close_streamout_thread wait_end False s))"
  using assms by (simp add: close_streamout_thread_def video_EXIT_def Let_def)

text \<open>Starting again after a stop reuses both encoders and their queues.\<close>

lemma restart_keeps_encoders:
  assumes "s_video s = Some v" "s_audio s = Some a" "\<not> s_disable_audio s" "mk \<noteq> FifoFailed"
  shows "\<exists>v'. s_video (snd (start_streamout_thread mk ffmpeg (snd (stop_streamout_thread True s)))) = Some v'
      \<and> m_q (videoBuffers v') = [] \<and> \<not> m_abort (videoBuffers v') \<and> \<not> v_stopped v'
      \<and> pipe_cmd v' = format_ffmepg_encode_cmdline (stream_encode_spec ffmpeg s)"
  using assms by (simp add: start_streamout_thread_def stop_streamout_thread_def video_START_def video_STOP_def
      new_or_def Resume_def Clear_def Abort_def Let_def stream_encode_spec_def)

section \<open>The command line\<close>

text \<open>The command ends with its target (the stream address, or \<^verbatim>\<open>-y\<close> and the file) as long
  as it fits in 3998 characters; a longer command is cut there without an error, losing the
  end of the target.\<close>

lemma encode_cmdline_target:
  "(length (full_cmdline e) \<le> 3998 \<longrightarrow> (\<exists>p. format_ffmepg_encode_cmdline e = p @ '' '' @ out_file e))
   \<and> (3998 < length (full_cmdline e) \<longrightarrow> length (format_ffmepg_encode_cmdline e) = 3998
       \<and> (\<exists>lost. lost \<noteq> [] \<and> format_ffmepg_encode_cmdline e @ lost = full_cmdline e))"
proof (intro conjI impI)
  assume "length (full_cmdline e) \<le> 3998"
  then have "format_ffmepg_encode_cmdline e = full_cmdline e"
    by (simp add: format_ffmepg_encode_cmdline_def snprintf_def)
  then show "\<exists>p. format_ffmepg_encode_cmdline e = p @ '' '' @ out_file e"
    unfolding full_cmdline_def by (metis append.assoc)
next
  assume a: "3998 < length (full_cmdline e)"
  then show "length (format_ffmepg_encode_cmdline e) = 3998"
    by (simp add: format_ffmepg_encode_cmdline_def snprintf_def)
  show "\<exists>lost. lost \<noteq> [] \<and> format_ffmepg_encode_cmdline e @ lost = full_cmdline e"
    using a by (intro exI [of _ "drop 3998 (full_cmdline e)"]) (simp add: format_ffmepg_encode_cmdline_def snprintf_def)
qed

definition rtmp_example :: encode_spec where
  "rtmp_example = \<lparr>e_ffmpeg = ''ffmpeg'', e_output = ''-'', e_width = 640, e_height = 360, e_fps = 25, e_bitrate = 1000,
     e_nvenc = False, e_preset = None, e_fmt = ''mp4alpha'', e_rawaudio = None, e_channel = 1, e_samplerate = 16000,
     e_rtmp = Some ''rtmp://h/s'', e_quiet = True\<rparr>"

lemma encode_cmdline_target_example:
  "\<exists>p. format_ffmepg_encode_cmdline rtmp_example = p @ '' '' @ ''-f flv rtmp://h/s''"
proof -
  have n: "length (print_nat 640) \<le> 3" "length (print_nat 360) \<le> 3" "length (print_nat 25) \<le> 3" "length (print_nat 1000) \<le> 4"
    using print_nat_length [of 640 3] print_nat_length [of 360 3] print_nat_length [of 25 3] print_nat_length [of 1000 4] by simp_all
  have "input_format ''mp4alpha'' = ''bgr24''" by (simp add: input_format_def same_ci_def)
  then have "length (full_cmdline rtmp_example) \<le> 3998"
    using n by (simp add: full_cmdline_def rtmp_example_def video_input_def audio_input_def filter_param_def out_param_def
        audio_param_def out_file_def mp4_param_def is_mov_def is_webm_def print_int_def)
  with encode_cmdline_target [of rtmp_example] show ?thesis
    by (simp add: out_file_def rtmp_example_def)
qed

end
