(* ===== verification/Shm_Attach.thy ===== *)
theory Shm_Attach
  imports Shm_Signal
begin

text \<open>
  Creating, opening and destroying a ring (\<^verbatim>\<open>shm_queue.c\<close>): the segments of the
  system, the wrapper \<^verbatim>\<open>attach_shm\<close>, \<^verbatim>\<open>open_shm_queue\<close> with the size
  calculation and the zeroing, \<^verbatim>\<open>sq_create\<close> under the lock file,
  \<^verbatim>\<open>sq_open\<close>, \<^verbatim>\<open>sq_open_by_shmid\<close> and the two ways to destroy a queue.
  The System V calls work on a table of segments; which identifier a new segment gets,
  whether the system grants a segment of a size, and what \<^verbatim>\<open>open\<close> and
  \<^verbatim>\<open>flock\<close> of the lock file return are the fields of a record.
\<close>

section \<open>Segments of the system\<close>

text \<open>What lies in a segment is read through the header. A segment marked for removal has
  the private key and goes with its last user.\<close>

record segment =
  sg_key :: int
  sg_size :: int
  sg_removed :: bool
  sg_head :: shm
  sg_attached :: int

record shm_os =
  new_shmid :: "int set \<Rightarrow> int"
  shm_granted :: "int \<Rightarrow> bool"
  shm_mapped :: "int \<Rightarrow> bool"
  mem_granted :: bool
  lock_open :: "int list \<Rightarrow> int"
  lock_ok :: bool

record shm_sys =
  segs :: "int \<rightharpoonup> segment"
  seg_ids :: "int list"
  lock_fds :: "int list"
  lock_held :: "int option"

definition IPC_PRIVATE :: int where "IPC_PRIVATE = 0"

text \<open>A segment with any content, before the zeroing by its creator.\<close>

definition shm0 :: "int \<Rightarrow> int \<Rightarrow> shm" where
  "shm0 es ec = \<lparr>ele_size = es, ele_count = ec, head_pos = 0, tail_pos = 0, sig_node_num = 0,
     sig_process_num = 0, pidnum = 0, pidset = replicate 64 0, sigmask = replicate 8 0,
     siglock = replicate 64 0, signr = replicate 64 0, nodes = (\<lambda>x. 0)\<rparr>"

definition find_key :: "shm_sys \<Rightarrow> int \<Rightarrow> int option" where
  "find_key s key = List.find (\<lambda>i. case segs s i of Some g \<Rightarrow> sg_key g = key | None \<Rightarrow> False) (seg_ids s)"

text \<open>\<^verbatim>\<open>shmget\<close>: the key is an \<^verbatim>\<open>int\<close>, the private key always makes a new
  segment, an existing one must not be smaller than asked.\<close>

definition new_segment :: "shm_os \<Rightarrow> shm_sys \<Rightarrow> int \<Rightarrow> int \<Rightarrow> int \<times> shm_sys" where
  "new_segment os s key sz =
     (if 0 < sz \<and> shm_granted os sz then
        (let i = new_shmid os (set (seg_ids s))
         in (i, s\<lparr>segs := (segs s)(i \<mapsto> \<lparr>sg_key = key, sg_size = sz, sg_removed = False, sg_head = shm0 0 0, sg_attached = 0\<rparr>),
                  seg_ids := i # seg_ids s\<rparr>))
      else (-1, s))"

definition shmget :: "shm_os \<Rightarrow> shm_sys \<Rightarrow> int \<Rightarrow> int \<Rightarrow> bool \<Rightarrow> int \<times> shm_sys" where
  "shmget os s long_key sz creat =
     (let key = to_i32 long_key
      in if key = IPC_PRIVATE then new_segment os s key sz
         else case find_key s key of
             Some i \<Rightarrow> (case segs s i of
                 Some g \<Rightarrow> if sg_size g < sz then (-1, s) else (i, s)
               | None \<Rightarrow> (-1, s))
           | None \<Rightarrow> if creat then new_segment os s key sz else (-1, s))"

definition shmctl_stat :: "shm_sys \<Rightarrow> int \<Rightarrow> int option" where
  "shmctl_stat s i = map_option sg_size (segs s i)"

text \<open>A removed segment stays until its last user detaches it.\<close>

definition drop_segment :: "shm_sys \<Rightarrow> int \<Rightarrow> shm_sys" where
  "drop_segment s i = s\<lparr>segs := (segs s)(i := None), seg_ids := removeAll i (seg_ids s)\<rparr>"

definition shmctl_rmid :: "shm_sys \<Rightarrow> int \<Rightarrow> int \<times> shm_sys" where
  "shmctl_rmid s i =
     (case segs s i of None \<Rightarrow> (-1, s)
      | Some g \<Rightarrow> if sg_attached g \<le> 0 then (0, drop_segment s i)
                  else (0, s\<lparr>segs := (segs s)(i \<mapsto> g\<lparr>sg_key := IPC_PRIVATE, sg_removed := True\<rparr>)\<rparr>))"

definition shmat :: "shm_os \<Rightarrow> shm_sys \<Rightarrow> int \<Rightarrow> shm_sys option" where
  "shmat os s i =
     (case segs s i of None \<Rightarrow> None
      | Some g \<Rightarrow> if shm_mapped os i
                  then Some (s\<lparr>segs := (segs s)(i \<mapsto> g\<lparr>sg_attached := sg_attached g + 1\<rparr>)\<rparr>)
                  else None)"

definition shmdt :: "shm_sys \<Rightarrow> int \<Rightarrow> shm_sys" where
  "shmdt s i =
     (case segs s i of None \<Rightarrow> s
      | Some g \<Rightarrow>
          (let g' = g\<lparr>sg_attached := sg_attached g - 1\<rparr>
           in if sg_removed g \<and> sg_attached g' \<le> 0 then drop_segment s i
              else s\<lparr>segs := (segs s)(i \<mapsto> g')\<rparr>))"

text \<open>What a process writes through an attached pointer.\<close>

definition store_head :: "shm_sys \<Rightarrow> int \<Rightarrow> shm \<Rightarrow> shm_sys" where
  "store_head s i q =
     (case segs s i of None \<Rightarrow> s
      | Some g \<Rightarrow> s\<lparr>segs := (segs s)(i \<mapsto> g\<lparr>sg_head := q\<rparr>)\<rparr>)"

definition load_head :: "shm_sys \<Rightarrow> int \<Rightarrow> shm" where
  "load_head s i = (case segs s i of None \<Rightarrow> shm0 0 0 | Some g \<Rightarrow> sg_head g)"

section \<open>attach_shm\<close>

text \<open>The result is the segment attached and whether this call created it; the pointer
  \<^verbatim>\<open>pShmId\<close> is never null, so its value is an argument. The second
  \<^verbatim>\<open>shmget\<close> of the creating branch is only made for a key other than 0, and is
  the one whose result is kept.\<close>

definition attach_at :: "shm_os \<Rightarrow> shm_sys \<Rightarrow> int \<Rightarrow> bool \<Rightarrow> (int \<times> bool) option \<times> shm_sys" where
  "attach_at os s shmid created =
     (case shmat os s shmid of None \<Rightarrow> (None, s) | Some s' \<Rightarrow> (Some (shmid, created), s'))"

definition attach_create :: "shm_os \<Rightarrow> shm_sys \<Rightarrow> int \<Rightarrow> int \<Rightarrow> (int \<times> bool) option \<times> shm_sys" where
  "attach_create os s iKey iSize =
     (let (i1, s1) = shmget os s iKey iSize True
      in if i1 < 0 then (None, s1)
         else if iKey \<noteq> 0
         then (let (i2, s2) = shmget os s1 iKey iSize True
               in if i2 < 0 then (None, s2) else attach_at os s2 i2 True)
         else attach_at os s1 i1 True)"

definition attach_existing :: "shm_os \<Rightarrow> shm_sys \<Rightarrow> int \<Rightarrow> int \<Rightarrow> bool \<Rightarrow> int
    \<Rightarrow> (int \<times> bool) option \<times> shm_sys" where
  "attach_existing os s iKey iSize creating shmid =
     (if creating then
        (case shmctl_stat s shmid of
           None \<Rightarrow> (None, s)
         | Some segsz \<Rightarrow>
             if segsz \<noteq> iSize then
               (let (r, s1) = shmctl_rmid s shmid
                in if r \<noteq> 0 then (None, s1)
                   else (let (i, s2) = shmget os s1 iKey iSize True
                         in if i < 0 then (None, s2) else attach_at os s2 i True))
             else attach_at os s shmid False)
      else attach_at os s shmid False)"

definition attach_shm :: "shm_os \<Rightarrow> shm_sys \<Rightarrow> int \<Rightarrow> int \<Rightarrow> bool \<Rightarrow> int
    \<Rightarrow> (int \<times> bool) option \<times> shm_sys" where
  "attach_shm os s iKey iSize creating shm_id =
     (if 0 < shm_id then attach_existing os s iKey iSize creating shm_id
      else if iKey = 0 then (if creating then attach_create os s iKey iSize else (None, s))
      else (let (i, s1) = shmget os s iKey 0 False
            in if i < 0 then (if creating then attach_create os s1 iKey iSize else (None, s1))
               else attach_existing os s1 iKey iSize creating i))"

section \<open>open_shm_queue\<close>

text \<open>\<^verbatim>\<open>sizeof(struct sq_head_t)\<close>: 28 bytes of counters, 64 process ids, 8 bytes
  of mask, two arrays of 64 numbers and 4 MB of reserve. The size is computed in
  \<^verbatim>\<open>unsigned long\<close>.\<close>

definition SQ_HEAD_SIZE :: int where "SQ_HEAD_SIZE = 28 + 256 + 8 + 256 + 256 + 4 * 2 ^ 20"

definition align8 :: "int \<Rightarrow> int" where "align8 es = (es + 7) div 8 * 8"

definition shm_need :: "int \<Rightarrow> int \<Rightarrow> int" where
  "shm_need es ec =
     (let a = size_t (SQ_HEAD_SIZE + size_t (SQ_NODE_HEAD_SIZE + es) * (ec + 1))
      in size_t (a + 2 ^ 22 - 1) div 2 ^ 22 * 2 ^ 22)"

definition open_shm_queue :: "shm_os \<Rightarrow> shm_sys \<Rightarrow> int \<Rightarrow> int \<Rightarrow> int \<Rightarrow> bool \<Rightarrow> int
    \<Rightarrow> int option \<times> shm_sys" where
  "open_shm_queue os s shm_key es ec create shm_id =
     (let es1 = (if create then align8 es else es);
          need = (if create then shm_need es1 ec else 0)
      in case attach_shm os s shm_key need create shm_id of
        (None, s1) \<Rightarrow> (None, s1)
      | (Some (i, created), s1) \<Rightarrow>
          if created then (Some i, store_head s1 i (shm0 (to_i32 es1) (to_i32 ec)))
          else if create \<and> (ele_size (load_head s1 i) \<noteq> es1 \<or> ele_count (load_head s1 i) \<noteq> ec)
          then (None, shmdt s1 i)
          else (Some i, s1))"

section \<open>Lock file and signal parameters\<close>

text \<open>The result is the code and the descriptor; \<^verbatim>\<open>None\<close> is a call that never
  returns, because another open description of the process holds the lock. Releasing it
  through another description has no effect.\<close>

definition exc_lock :: "shm_os \<Rightarrow> shm_sys \<Rightarrow> bool \<Rightarrow> int \<Rightarrow> (int \<times> int \<times> shm_sys) option" where
  "exc_lock os s unlocking fd0 =
     (let fd = (if fd0 \<le> 0 then lock_open os (lock_fds s) else fd0);
          s1 = (if fd0 \<le> 0 \<and> 0 \<le> fd then s\<lparr>lock_fds := fd # lock_fds s\<rparr> else s)
      in if fd < 0 then Some (-1, fd, s1)
         else if \<not> lock_ok os then Some (-2, fd, s1)
         else if unlocking
         then Some (0, fd, if lock_held s1 = Some fd then s1\<lparr>lock_held := None\<rparr> else s1)
         else if lock_held s1 = None \<or> lock_held s1 = Some fd
         then Some (0, fd, s1\<lparr>lock_held := Some fd\<rparr>)
         else None)"

fun signal_all :: "sq_world \<Rightarrow> nat \<Rightarrow> nat \<Rightarrow> sq_handle \<Rightarrow> sq_handle" where
  "signal_all w 0 i sq = sq"
| "signal_all w (Suc k) i sq = (let (r, sq1, wr) = signal_process w sq i in signal_all w k (Suc i) sq1)"

definition sq_set_sigparam :: "sq_world \<Rightarrow> sq_handle \<Rightarrow> int \<Rightarrow> int \<Rightarrow> sq_handle" where
  "sq_set_sigparam w sq sig_ele_num sig_proc_num =
     (let q = verify_and_remove_bad_pids w
                ((qhead sq)\<lparr>sig_node_num := sig_ele_num, sig_process_num := sig_proc_num\<rparr>)
      in signal_all w (nat (pidnum q)) 0 (sq\<lparr>qhead := q\<rparr>))"

section \<open>Creating, opening and destroying\<close>

text \<open>A handle as \<^verbatim>\<open>calloc\<close> leaves it, with its key.\<close>

definition new_handle :: "int \<Rightarrow> sq_handle" where
  "new_handle key = \<lparr>qhead = shm0 0 0, sig_idx = 0, poll_fd = 0, poll_fdset = replicate 64 0,
     fifo_times = replicate 64 0, sq_key = key, rw_conflict_time = 0, sq_id = 0\<rparr>"

text \<open>Without undoing the lock; the key is given as the \<^verbatim>\<open>long\<close> it is passed on as.\<close>

definition sq_create_locked :: "sq_world \<Rightarrow> shm_os \<Rightarrow> shm_sys \<Rightarrow> int \<Rightarrow> int \<Rightarrow> int \<Rightarrow> int \<Rightarrow> int
    \<Rightarrow> sq_handle option \<times> shm_sys" where
  "sq_create_locked w os s shm_key es ec sig_ele_num sig_proc_num =
     (if \<not> mem_granted os then (None, s)
      else if es \<le> 0 \<or> ec \<le> RESERVE_BLOCK_COUNT then (None, s)
      else case open_shm_queue os s shm_key es ec True 0 of
        (None, s1) \<Rightarrow> (None, s1)
      | (Some i, s1) \<Rightarrow>
          (let sq = sq_set_sigparam w ((new_handle shm_key)\<lparr>sq_id := i, qhead := load_head s1 i\<rparr>)
                      sig_ele_num sig_proc_num
           in (Some sq, store_head s1 i (qhead sq))))"

definition sq_create :: "sq_world \<Rightarrow> shm_os \<Rightarrow> shm_sys \<Rightarrow> int \<Rightarrow> int \<Rightarrow> int \<Rightarrow> int \<Rightarrow> int
    \<Rightarrow> (sq_handle option \<times> shm_sys) option" where
  "sq_create w os s shm_key es ec sig_ele_num sig_proc_num =
     (case exc_lock os s False (-1) of
        None \<Rightarrow> None
      | Some (r, fd, s1) \<Rightarrow>
          (let (res, s2) = sq_create_locked w os s1 shm_key es ec sig_ele_num sig_proc_num
           in map_option (\<lambda>(r, fd, s3). (res, s3)) (exc_lock os s2 True fd)))"

definition sq_open :: "shm_os \<Rightarrow> shm_sys \<Rightarrow> int \<Rightarrow> sq_handle option \<times> shm_sys" where
  "sq_open os s shm_key =
     (if \<not> mem_granted os then (None, s)
      else case open_shm_queue os s shm_key 0 0 False 0 of
        (None, s1) \<Rightarrow> (None, s1)
      | (Some i, s1) \<Rightarrow>
          (Some ((new_handle shm_key)\<lparr>sig_idx := -1, sq_id := i, qhead := load_head s1 i\<rparr>), s1))"

definition sq_open_by_shmid :: "shm_os \<Rightarrow> shm_sys \<Rightarrow> int \<Rightarrow> sq_handle option \<times> shm_sys" where
  "sq_open_by_shmid os s shm_id =
     (if \<not> mem_granted os then (None, s)
      else case open_shm_queue os s 0 0 0 False shm_id of
        (None, s1) \<Rightarrow> (None, s1)
      | (Some i, s1) \<Rightarrow>
          (Some ((new_handle 0)\<lparr>sig_idx := -1, sq_id := i, qhead := load_head s1 i\<rparr>), s1))"

definition sq_destroy :: "shm_sys \<Rightarrow> sq_handle \<Rightarrow> shm_sys" where
  "sq_destroy s sq = shmdt s (sq_id sq)"

definition sq_destroy_and_remove :: "shm_sys \<Rightarrow> sq_handle \<Rightarrow> shm_sys" where
  "sq_destroy_and_remove s sq = snd (shmctl_rmid (shmdt s (sq_id sq)) (sq_id sq))"

end
