(* ===== verification/Shm_Attach_Thms.thy ===== *)
theory Shm_Attach_Thms
  imports Shm_Attach Shm_Signal_Thms
begin

text \<open>
  What creating and opening a ring guarantees: the segment holds every node, a new ring is
  empty and is the one a reader opens by the key, a writer that comes back with the same
  parameters finds its items, one that comes back with another size leaves the readers on
  a segment nobody writes to; and the descriptors and locks \<^verbatim>\<open>sq_create\<close> leaves.
\<close>

section \<open>The documented behaviour of the system\<close>

definition os_ok :: "shm_os \<Rightarrow> bool" where
  "os_ok os \<longleftrightarrow> (\<forall>used. finite used \<longrightarrow> new_shmid os used \<notin> used \<and> 0 \<le> new_shmid os used)"

definition sys_ok :: "shm_sys \<Rightarrow> bool" where
  "sys_ok s \<longleftrightarrow> set (seg_ids s) = dom (segs s)
     \<and> (\<forall>i g. segs s i = Some g \<longrightarrow> 0 \<le> i \<and> 0 \<le> sg_size g)
     \<and> (\<forall>i j g h. segs s i = Some g \<and> segs s j = Some h \<and> sg_key g = sg_key h \<and> sg_key g \<noteq> 0 \<longrightarrow> i = j)"

section \<open>Sizes\<close>

lemma align8_bounds: "es \<le> align8 es" "align8 es < es + 8" "align8 es mod 8 = 0"
proof -
  have "es + 7 = (es + 7) div 8 * 8 + (es + 7) mod 8" by simp
  moreover have "0 \<le> (es + 7) mod 8" "(es + 7) mod 8 < 8" by simp_all
  ultimately show "es \<le> align8 es" "align8 es < es + 8" by (simp_all add: align8_def)
  show "align8 es mod 8 = 0" by (simp add: align8_def)
qed

lemma round_up: "0 < b \<Longrightarrow> a \<le> (a + b - 1) div b * b" for a b :: int
  using div_mult_mod_eq [of "a + b - 1" b] pos_mod_bound [of b "a + b - 1"] by linarith

lemma shm_need_fits:
  assumes "0 \<le> es" "es < 2 ^ 32" "0 \<le> ec" "ec < 2 ^ 31"
  shows "SQ_HEAD_SIZE + (ec + 1) * (SQ_NODE_HEAD_SIZE + es) \<le> shm_need es ec" "0 < shm_need es ec"
proof -
  let ?p = "(SQ_NODE_HEAD_SIZE + es) * (ec + 1)"
  have p: "0 \<le> ?p" "?p \<le> (2 ^ 32 + 16) * 2 ^ 31"
    using mult_mono [of "SQ_NODE_HEAD_SIZE + es" "2 ^ 32 + 16" "ec + 1" "2 ^ 31"] assms
    by (simp_all add: SQ_NODE_HEAD_SIZE_def)
  have s: "size_t (SQ_NODE_HEAD_SIZE + es) = SQ_NODE_HEAD_SIZE + es"
    using assms by (intro size_t_id) (auto simp: SQ_NODE_HEAD_SIZE_def)
  have a: "size_t (SQ_HEAD_SIZE + ?p) = SQ_HEAD_SIZE + ?p"
    using p by (intro size_t_id) (auto simp: SQ_HEAD_SIZE_def)
  have b: "size_t (SQ_HEAD_SIZE + ?p + 2 ^ 22 - 1) = SQ_HEAD_SIZE + ?p + 2 ^ 22 - 1"
    using p by (intro size_t_id) (auto simp: SQ_HEAD_SIZE_def)
  have n: "shm_need es ec = (SQ_HEAD_SIZE + ?p + 2 ^ 22 - 1) div 2 ^ 22 * 2 ^ 22"
    unfolding shm_need_def Let_def s a b ..
  from round_up [of "2 ^ 22" "SQ_HEAD_SIZE + ?p"] n show "SQ_HEAD_SIZE + (ec + 1) * (SQ_NODE_HEAD_SIZE + es) \<le> shm_need es ec"
    by (simp add: algebra_simps)
  with p show "0 < shm_need es ec" by (simp add: SQ_HEAD_SIZE_def algebra_simps)
qed

section \<open>A zeroed ring is empty; the signal parameters do not touch it\<close>

lemma shm0_empty: "shape_wf (shm0 es ec) \<Longrightarrow> ring_inv (shm0 es ec) \<and> ring_list (shm0 es ec) = []"
  by (simp add: shm0_def ring_inv_def ring_list_def ring_items_def ring_used_def ring_wf_def shape_wf_def
      free_clear_def RESERVE_BLOCK_COUNT_def node_token_def get32_def TOKEN_NO_DATA_def)

text \<open>The fields the ring consists of.\<close>

definition ring_part :: "shm \<Rightarrow> int \<times> int \<times> int \<times> int \<times> mem" where
  "ring_part q = (ele_size q, ele_count q, head_pos q, tail_pos q, nodes q)"

lemma same_ring_part: "same_ring q q' \<Longrightarrow> ring_part q' = ring_part q"
  unfolding same_ring_def ring_part_def by (cases q, cases q') simp

lemma blank_dead_same: "same_ring q (blank_dead w n q)"
proof (induction w n q rule: blank_dead.induct)
  case (2 w i q)
  have "same_ring q ((snd (sq_set_sig_off q (int i)))\<lparr>pidset := (pidset q)[i := 0]\<rparr>)"
    by (simp add: same_ring_def sq_set_sig_off_def Let_def)
  with 2 show ?case using same_ring_trans by auto
qed simp

lemma verify_same: "same_ring q (verify_and_remove_bad_pids w q)"
proof -
  let ?q0 = "if pidnum q < 0 \<or> SQ_MAX_READER_PROC_NUM < pidnum q then q\<lparr>pidnum := SQ_MAX_READER_PROC_NUM\<rparr> else q"
  obtain n q1 where d: "drop_dead_tail w (nat (pidnum ?q0)) ?q0 = (n, q1)" by (metis surj_pair)
  have "same_ring q ?q0" by (simp add: same_ring_def)
  moreover have "same_ring ?q0 q1" using drop_dead_tail_spec [OF d] by blast
  moreover have "same_ring q1 (blank_dead w (n - 1) q1)" by (rule blank_dead_same)
  ultimately show ?thesis
    unfolding verify_and_remove_bad_pids_def Let_def d prod.case by (blast intro: same_ring_trans)
qed

lemma signal_all_same: "same_ring (qhead sq) (qhead (signal_all w k i sq))"
proof (induction k arbitrary: i sq)
  case (Suc k)
  obtain r sq1 wr where s: "signal_process w sq i = (r, sq1, wr)" by (metis prod_cases3)
  from signal_process_fields(1) [OF s] Suc [of sq1 "Suc i"] s show ?case
    using same_ring_trans by auto
qed simp

lemma set_sigparam_ring: "ring_part (qhead (sq_set_sigparam w sq a b)) = ring_part (qhead sq)"
  using same_ring_part [OF signal_all_same] same_ring_part [OF verify_same]
  by (simp add: sq_set_sigparam_def Let_def) (simp add: ring_part_def)

lemma ring_part_fields:
  assumes "ring_part q' = ring_part q"
  shows "ele_size q' = ele_size q" "ele_count q' = ele_count q" "head_pos q' = head_pos q"
    "tail_pos q' = tail_pos q" "nodes q' = nodes q"
  using assms by (simp_all add: ring_part_def)

lemma ring_part_inv:
  assumes "ring_part q' = ring_part q" "ring_inv q"
  shows "ring_inv q'" "ring_list q' = ring_list q"
proof -
  note f = ring_part_fields [OF assms(1)]
  from assms(2) have wf: "ring_wf q" by (simp add: ring_inv_def)
  note b = ring_wf_bounds [OF wf] and u = ring_used_bounds [OF wf]
  have ru: "ring_used q' = ring_used q" by (simp add: ring_used_def f)
  have "ring_decode q' (head_pos q) (ring_used q) = ring_decode q (head_pos q) (ring_used q)"
    using b u f by (intro ring_decode_nodes_only) auto
  then have it: "ring_items q' = ring_items q" by (simp add: ring_items_def f ru)
  have "node_token q' i = node_token q i" for i by (simp add: node_token_def SQ_GET_def SQ_NODE_SIZE_def f)
  with assms(2) f ru it show "ring_inv q'"
    by (simp add: ring_inv_def ring_wf_def shape_wf_def free_clear_def)
  from it show "ring_list q' = ring_list q" by (simp add: ring_list_def)
qed

section \<open>Segments\<close>

lemma sys_okD:
  assumes "sys_ok s"
  shows "set (seg_ids s) = dom (segs s)" "segs s i = Some g \<Longrightarrow> 0 \<le> i" "segs s i = Some g \<Longrightarrow> 0 \<le> sg_size g"
    "segs s i = Some g \<Longrightarrow> segs s j = Some h \<Longrightarrow> sg_key g = sg_key h \<Longrightarrow> sg_key g \<noteq> 0 \<Longrightarrow> i = j"
  using assms unfolding sys_ok_def by blast+

lemma find_key_Some:
  assumes "find_key s key = Some i"
  shows "\<exists>g. segs s i = Some g \<and> sg_key g = key \<and> i \<in> set (seg_ids s)"
  using assms unfolding find_key_def
  by (auto simp: find_Some_iff nth_mem split: option.splits)

lemma find_key_None:
  assumes "find_key s key = None" "sys_ok s" "segs s i = Some g"
  shows "sg_key g \<noteq> key"
proof
  assume "sg_key g = key"
  moreover have "i \<in> set (seg_ids s)" using sys_okD(1) [OF assms(2)] assms(3) by auto
  ultimately show False using assms(1,3) by (auto simp: find_key_def find_None_iff)
qed

lemma find_key_unique:
  assumes "sys_ok s" "segs s i = Some g" "sg_key g = key" "key \<noteq> 0"
  shows "find_key s key = Some i"
proof (cases "find_key s key")
  case None
  with find_key_None assms show ?thesis by blast
next
  case (Some j)
  then obtain h where "segs s j = Some h" "sg_key h = key" using find_key_Some by blast
  with sys_okD(4) [OF assms(1,2)] assms(3,4) have "i = j" by metis
  with Some show ?thesis by simp
qed

lemma find_key_cong: "segs s' = segs s \<Longrightarrow> seg_ids s' = seg_ids s \<Longrightarrow> find_key s' key = find_key s key"
  by (simp add: find_key_def)

lemma to_i32_nonzero: "to_i32 k \<noteq> 0 \<Longrightarrow> k \<noteq> 0"
  by (auto simp: to_i32_def)

lemma attach_at_Some:
  "attach_at os s i c = (Some r, s') \<longleftrightarrow> (\<exists>g. segs s i = Some g \<and> shm_mapped os i \<and> r = (i, c)
     \<and> s' = s\<lparr>segs := (segs s)(i \<mapsto> g\<lparr>sg_attached := sg_attached g + 1\<rparr>)\<rparr>)"
  by (auto simp: attach_at_def shmat_def split: option.splits)

lemma shmget_fresh:
  assumes "os_ok os" "sys_ok s" "find_key s (to_i32 key) = None" "shmget os s key sz True = (i, s1)" "0 \<le> i"
  shows "segs s i = None" "i \<notin> set (seg_ids s)"
    "s1 = s\<lparr>segs := (segs s)(i \<mapsto> \<lparr>sg_key = to_i32 key, sg_size = sz, sg_removed = False,
              sg_head = shm0 0 0, sg_attached = 0\<rparr>), seg_ids := i # seg_ids s\<rparr>"
proof -
  have "i = new_shmid os (set (seg_ids s)) \<and> s1 = s\<lparr>segs := (segs s)(i \<mapsto> \<lparr>sg_key = to_i32 key,
      sg_size = sz, sg_removed = False, sg_head = shm0 0 0, sg_attached = 0\<rparr>), seg_ids := i # seg_ids s\<rparr>"
    using assms(3-5) by (auto simp: shmget_def new_segment_def IPC_PRIVATE_def Let_def split: if_splits)
  moreover have "new_shmid os (set (seg_ids s)) \<notin> set (seg_ids s)"
    using assms(1) by (simp add: os_ok_def)
  moreover have "set (seg_ids s) = dom (segs s)" using assms(2) by (simp add: sys_ok_def)
  ultimately show "segs s i = None" "i \<notin> set (seg_ids s)"
    "s1 = s\<lparr>segs := (segs s)(i \<mapsto> \<lparr>sg_key = to_i32 key, sg_size = sz, sg_removed = False,
              sg_head = shm0 0 0, sg_attached = 0\<rparr>), seg_ids := i # seg_ids s\<rparr>"
    by auto
qed

lemma shmget_found:
  assumes "find_key s (to_i32 key) = Some i" "segs s i = Some g" "sz \<le> sg_size g" "to_i32 key \<noteq> 0"
  shows "shmget os s key sz c = (i, s)"
  using assms by (simp add: shmget_def IPC_PRIVATE_def)

lemma attach_fresh:
  assumes ok: "os_ok os" "sys_ok s" and key: "to_i32 key \<noteq> 0" "find_key s (to_i32 key) = None"
    and a: "attach_shm os s key sz True 0 = (Some (i, created), s')"
  shows "created" "segs s i = None" "seg_ids s' = i # seg_ids s" "0 \<le> i"
    "segs s' = (segs s)(i \<mapsto> \<lparr>sg_key = to_i32 key, sg_size = sz, sg_removed = False,
                              sg_head = shm0 0 0, sg_attached = 1\<rparr>)"
    "shm_mapped os i"
proof -
  have none: "shmget os s key 0 False = (-1, s)" using key by (simp add: shmget_def IPC_PRIVATE_def)
  have c: "attach_create os s key sz = (Some (i, created), s')"
    using a none to_i32_nonzero [OF key(1)] by (simp add: attach_shm_def)
  obtain i1 s1 where g: "shmget os s key sz True = (i1, s1)" by fastforce
  have i1: "0 \<le> i1" using c g by (simp add: attach_create_def split: if_splits)
  note f = shmget_fresh [OF ok key(2) g i1]
  have "find_key s1 (to_i32 key) = Some i1" using f(3) by (simp add: find_key_def)
  then have "shmget os s1 key sz True = (i1, s1)" using f(3) key by (intro shmget_found) auto
  with c g i1 to_i32_nonzero [OF key(1)] have "attach_at os s1 i1 True = (Some (i, created), s')"
    by (simp add: attach_create_def)
  with f i1 show "created" "segs s i = None" "seg_ids s' = i # seg_ids s" "0 \<le> i"
    "segs s' = (segs s)(i \<mapsto> \<lparr>sg_key = to_i32 key, sg_size = sz, sg_removed = False,
                              sg_head = shm0 0 0, sg_attached = 1\<rparr>)"
    "shm_mapped os i"
    by (auto simp: attach_at_Some)
qed

lemma attach_kept:
  assumes "sys_ok s" "segs s i = Some g" "sg_key g = to_i32 key" "to_i32 key \<noteq> 0"
    and "creating \<Longrightarrow> sg_size g = sz" "shm_mapped os i"
  shows "attach_shm os s key sz creating 0 =
    (Some (i, False), s\<lparr>segs := (segs s)(i \<mapsto> g\<lparr>sg_attached := sg_attached g + 1\<rparr>)\<rparr>)"
proof -
  have "shmget os s key 0 False = (i, s)"
    using assms find_key_unique [OF assms(1-4)] sys_okD(3) [OF assms(1,2)] by (intro shmget_found) auto
  moreover have "attach_existing os s key sz creating i = attach_at os s i False"
    using assms(2,5) by (simp add: attach_existing_def shmctl_stat_def)
  ultimately show ?thesis
    using assms(2,6) to_i32_nonzero [OF assms(4)] sys_okD(2) [OF assms(1,2)]
    by (simp add: attach_shm_def attach_at_def shmat_def)
qed

lemma sys_ok_update:
  assumes "sys_ok s" "segs s i = Some g" "sg_key g' = sg_key g" "sg_size g' = sg_size g"
    and "segs s' = (segs s)(i \<mapsto> g')" "seg_ids s' = seg_ids s"
  shows "sys_ok s'"
proof -
  have old: "\<exists>h'. segs s j = Some h' \<and> sg_key h' = sg_key h \<and> sg_size h' = sg_size h"
    if "segs s' j = Some h" for j h
    using that assms(2-5) by (cases "j = i") auto
  have "set (seg_ids s') = dom (segs s')"
    using assms(2,5,6) sys_okD(1) [OF assms(1)] by auto
  moreover have "0 \<le> j \<and> 0 \<le> sg_size h" if "segs s' j = Some h" for j h
    using old [OF that] sys_okD(2,3) [OF assms(1)] by metis
  moreover have "j = k" if "segs s' j = Some h" "segs s' k = Some l" "sg_key h = sg_key l" "sg_key h \<noteq> 0" for j k h l
    using old [OF that(1)] old [OF that(2)] that(3,4) sys_okD(4) [OF assms(1)] by metis
  ultimately show ?thesis unfolding sys_ok_def by blast
qed

lemma sys_ok_insert:
  assumes "sys_ok s" "segs s i = None" "0 \<le> i" "0 \<le> sg_size g" "find_key s (sg_key g) = None"
    and "segs s' = (segs s)(i \<mapsto> g)" "seg_ids s' = i # seg_ids s"
  shows "sys_ok s'"
proof -
  have "set (seg_ids s') = dom (segs s')"
    using assms(6,7) sys_okD(1) [OF assms(1)] by auto
  moreover have "0 \<le> j \<and> 0 \<le> sg_size h" if "segs s' j = Some h" for j h
    using that assms(3,4,6) sys_okD(2,3) [OF assms(1)] by (cases "j = i") auto
  moreover have "j = k" if "segs s' j = Some h" "segs s' k = Some l" "sg_key h = sg_key l" "sg_key h \<noteq> 0" for j k h l
  proof -
    have new: "sg_key h' \<noteq> sg_key g" if "segs s m = Some h'" for m h'
      using find_key_None [OF assms(5,1) that] .
    show ?thesis
    proof (cases "j = i \<or> k = i")
      case True
      with that assms(6) new show ?thesis by (metis fun_upd_apply option.inject)
    next
      case False
      with that assms(6) sys_okD(4) [OF assms(1)] show ?thesis by (metis fun_upd_apply)
    qed
  qed
  ultimately show ?thesis unfolding sys_ok_def by blast
qed

lemma store_head_found:
  "segs s i = Some g \<Longrightarrow> store_head s i q = s\<lparr>segs := (segs s)(i \<mapsto> g\<lparr>sg_head := q\<rparr>)\<rparr>"
  by (simp add: store_head_def)

section \<open>The lock around the creation\<close>

lemma exc_lock_frame:
  "exc_lock os s u fd = Some (r, fd', s') \<Longrightarrow> segs s' = segs s \<and> seg_ids s' = seg_ids s"
  by (auto simp: exc_lock_def Let_def split: if_splits)

lemma sys_ok_cong: "segs s' = segs s \<Longrightarrow> seg_ids s' = seg_ids s \<Longrightarrow> sys_ok s' = sys_ok s"
  by (simp add: sys_ok_def)

lemma sq_create_inner:
  assumes "sq_create w os s key es ec a b = Some (res, s')"
  obtains s1 s2 where "segs s1 = segs s" "seg_ids s1 = seg_ids s"
    "sq_create_locked w os s1 key es ec a b = (res, s2)" "segs s' = segs s2" "seg_ids s' = seg_ids s2"
proof -
  obtain r fd s1 where l: "exc_lock os s False (-1) = Some (r, fd, s1)"
    using assms by (auto simp: sq_create_def split: option.splits)
  obtain res' s2 where c: "sq_create_locked w os s1 key es ec a b = (res', s2)" by fastforce
  obtain r' fd' where u: "exc_lock os s2 True fd = Some (r', fd', s')" and "res' = res"
    using assms l c by (auto simp: sq_create_def)
  with that [of s1 s2] exc_lock_frame [OF l] exc_lock_frame [OF u] c show thesis by auto
qed

section \<open>Creating and opening\<close>

lemma signal_all_id: "sq_id (signal_all w k i sq) = sq_id sq"
proof (induction k arbitrary: i sq)
  case (Suc k)
  obtain r sq1 wr where s: "signal_process w sq i = (r, sq1, wr)" by (metis prod_cases3)
  then have "sq_id sq1 = sq_id sq" by (auto simp: signal_process_def Let_def split: if_splits)
  with Suc s show ?case by simp
qed simp

lemma set_sigparam_id: "sq_id (sq_set_sigparam w sq a b) = sq_id sq"
  by (simp add: sq_set_sigparam_def Let_def signal_all_id)

text \<open>What a successful creation on an open queue does.\<close>

lemma create_locked_Some:
  assumes "sq_create_locked w os s key es ec a b = (Some h, s2)"
  obtains i s1 where "mem_granted os" "0 < es" "10 < ec" "open_shm_queue os s key es ec True 0 = (Some i, s1)"
    "sq_id h = i" "ring_part (qhead h) = ring_part (load_head s1 i)" "s2 = store_head s1 i (qhead h)"
proof -
  have p: "mem_granted os" "0 < es" "10 < ec"
    using assms by (auto simp: sq_create_locked_def RESERVE_BLOCK_COUNT_def split: if_splits)
  then obtain i s1 where o: "open_shm_queue os s key es ec True 0 = (Some i, s1)"
    using assms by (auto simp: sq_create_locked_def RESERVE_BLOCK_COUNT_def split: prod.splits option.splits)
  let ?h = "(new_handle key)\<lparr>sq_id := i, qhead := load_head s1 i\<rparr>"
  have "h = sq_set_sigparam w ?h a b" "s2 = store_head s1 i (qhead h)"
    using assms p o by (auto simp: sq_create_locked_def RESERVE_BLOCK_COUNT_def Let_def)
  with that [OF p o] set_sigparam_id [of w ?h a b] set_sigparam_ring [of w ?h a b] show thesis by simp
qed

lemma shape_wf_shm0:
  assumes "0 < es" "es \<le> 2 ^ 31 - 8" "10 < ec" "ec < 2 ^ 30"
  shows "shape_wf (shm0 (to_i32 (align8 es)) (to_i32 ec))" "to_i32 (align8 es) = align8 es" "to_i32 ec = ec"
proof -
  show t: "to_i32 (align8 es) = align8 es" "to_i32 ec = ec"
    using assms align8_bounds [of es] by (auto intro!: to_i32_id)
  have "align8 es \<noteq> 2 ^ 31 - 1" using align8_bounds(3) [of es] by auto
  moreover have "align8 es \<le> 2 ^ 31 - 1" using assms align8_bounds [of es] by linarith
  ultimately show "shape_wf (shm0 (to_i32 (align8 es)) (to_i32 ec))"
    unfolding t using assms align8_bounds [of es]
    by (simp add: shape_wf_def shm0_def RESERVE_BLOCK_COUNT_def)
qed

lemma create_locked_fresh:
  assumes ok: "os_ok os" "sys_ok s" and key: "to_i32 key \<noteq> 0" "find_key s (to_i32 key) = None"
    and c: "sq_create_locked w os s key es ec a b = (Some h, s2)" and sz: "es \<le> 2 ^ 31 - 8" "ec < 2 ^ 30"
  shows "mem_granted os" "0 < es" "10 < ec" "segs s (sq_id h) = None" "sys_ok s2"
    "segs s2 = (segs s)(sq_id h \<mapsto> \<lparr>sg_key = to_i32 key, sg_size = shm_need (align8 es) ec,
        sg_removed = False, sg_head = qhead h, sg_attached = 1\<rparr>)"
    "ring_part (qhead h) = ring_part (shm0 (align8 es) ec)" "shm_mapped os (sq_id h)"
proof -
  obtain i s1 where p: "mem_granted os" "0 < es" "10 < ec"
    and o: "open_shm_queue os s key es ec True 0 = (Some i, s1)"
    and h: "sq_id h = i" "ring_part (qhead h) = ring_part (load_head s1 i)" "s2 = store_head s1 i (qhead h)"
    using create_locked_Some [OF c] by blast
  obtain created sA where at: "attach_shm os s key (shm_need (align8 es) ec) True 0 = (Some (i, created), sA)"
    using o by (auto simp: open_shm_queue_def Let_def split: prod.splits option.splits if_splits)
  note f = attach_fresh [OF ok key at]
  note w = shape_wf_shm0 [OF p(2) sz(1) p(3) sz(2)]
  let ?g = "\<lparr>sg_key = to_i32 key, sg_size = shm_need (align8 es) ec, sg_removed = False,
      sg_head = qhead h, sg_attached = 1\<rparr>"
  have s1: "s1 = store_head sA i (shm0 (align8 es) ec)"
    using o at f(1) w(2,3) by (simp add: open_shm_queue_def Let_def)
  then have s1': "segs s1 = (segs s)(i \<mapsto> \<lparr>sg_key = to_i32 key, sg_size = shm_need (align8 es) ec,
      sg_removed = False, sg_head = shm0 (align8 es) ec, sg_attached = 1\<rparr>)" "seg_ids s1 = i # seg_ids s"
    using f(3,5) by (simp_all add: store_head_def)
  then have s2': "segs s2 = (segs s)(i \<mapsto> ?g)" "seg_ids s2 = i # seg_ids s"
    using h(3) by (simp_all add: store_head_def)
  have "0 \<le> shm_need (align8 es) ec"
    using shm_need_fits(2) [of "align8 es" ec] p sz align8_bounds [of es] by simp
  then have "sys_ok s2"
    using sys_ok_insert [OF ok(2) f(2,4), of ?g s2] key(2) s2' by simp
  then show "mem_granted os" "0 < es" "10 < ec" "segs s (sq_id h) = None" "sys_ok s2"
    "segs s2 = (segs s)(sq_id h \<mapsto> ?g)" "ring_part (qhead h) = ring_part (shm0 (align8 es) ec)"
    "shm_mapped os (sq_id h)"
    using p f(2) h(1,2) s1'(1) s2'(1) f(6) by (simp_all add: load_head_def)
qed

lemma sq_open_found:
  assumes "sys_ok s" "segs s i = Some g" "sg_key g = to_i32 key" "to_i32 key \<noteq> 0"
    and "shm_mapped os i" "mem_granted os"
  shows "sq_open os s key = (Some ((new_handle key)\<lparr>sig_idx := -1, sq_id := i, qhead := sg_head g\<rparr>),
           s\<lparr>segs := (segs s)(i \<mapsto> g\<lparr>sg_attached := sg_attached g + 1\<rparr>)\<rparr>)"
  using attach_kept [OF assms(1-4) _ assms(5), of False 0] assms(6)
  by (simp add: sq_open_def open_shm_queue_def load_head_def)

text \<open>C4. A ring created under a new key lies completely inside the segment the system
  gave, every node included, is well formed and empty with at least the asked element
  size and exactly the asked number of elements, and is the ring that a reader gets who
  opens the same key.\<close>

theorem created_ring_opens:
  assumes "os_ok os" "sys_ok s" "to_i32 key \<noteq> 0" "find_key s (to_i32 key) = None"
    and "es \<le> 2 ^ 31 - 8" "ec < 2 ^ 30"
    and "sq_create w os s key es ec a b = Some (Some h, s')"
  shows "\<exists>g s''. segs s' (sq_id h) = Some g \<and> sg_head g = qhead h
    \<and> SQ_HEAD_SIZE + (ele_count (qhead h) + 1) * SQ_NODE_SIZE (qhead h) \<le> sg_size g
    \<and> ring_inv (qhead h) \<and> ring_list (qhead h) = []
    \<and> es \<le> ele_size (qhead h) \<and> ele_count (qhead h) = ec
    \<and> sq_open os s' key = (Some ((new_handle key)\<lparr>sig_idx := -1, sq_id := sq_id h, qhead := qhead h\<rparr>), s'')"
proof -
  obtain s1 s2 where i: "segs s1 = segs s" "seg_ids s1 = seg_ids s"
    "sq_create_locked w os s1 key es ec a b = (Some h, s2)" "segs s' = segs s2" "seg_ids s' = seg_ids s2"
    using sq_create_inner [OF assms(7)] .
  have ok: "sys_ok s1" "find_key s1 (to_i32 key) = None"
    using assms(2,4) sys_ok_cong [OF i(1,2)] find_key_cong [OF i(1,2)] by auto
  note c = create_locked_fresh [OF assms(1) ok(1) assms(3) ok(2) i(3) assms(5,6)]
  note r = ring_part_fields [OF c(7)]
  have "ring_inv (shm0 (align8 es) ec) \<and> ring_list (shm0 (align8 es) ec) = []"
    using shape_wf_shm0 [OF c(2) assms(5) c(3) assms(6)] by (intro shm0_empty) simp
  then have ring: "ring_inv (qhead h)" "ring_list (qhead h) = []"
    using ring_part_inv [OF c(7)] by auto
  have sz: "ele_size (qhead h) = align8 es" "ele_count (qhead h) = ec"
    using r by (simp_all add: shm0_def)
  have fit: "SQ_HEAD_SIZE + (ec + 1) * (SQ_NODE_HEAD_SIZE + align8 es) \<le> shm_need (align8 es) ec"
    using shm_need_fits(1) [of "align8 es" ec] align8_bounds [of es] c(2,3) assms(5,6) by simp
  have "sys_ok s'" using c(5) sys_ok_cong [OF i(4,5)] by simp
  then show ?thesis
    using sq_open_found [of s' "sq_id h" _ key os] c assms(3) i(4) ring sz fit align8_bounds(1) [of es]
    by (simp add: SQ_NODE_SIZE_def)
qed

definition os_example :: shm_os where
  "os_example = \<lparr>new_shmid = (\<lambda>used. 1 + Max (insert 0 used)), shm_granted = (\<lambda>n. n < 2 ^ 32),
     shm_mapped = (\<lambda>i. True), mem_granted = True, lock_open = (\<lambda>fds. 3), lock_ok = True\<rparr>"

definition sys_empty :: shm_sys where
  "sys_empty = \<lparr>segs = Map.empty, seg_ids = [], lock_fds = [], lock_held = None\<rparr>"

lemma os_example_ok: "os_ok os_example"
proof -
  have "1 + Max (insert 0 used) \<notin> used \<and> 0 \<le> 1 + Max (insert 0 used)" if "finite used" for used :: "int set"
  proof -
    have "x \<le> Max (insert 0 used)" if "x \<in> insert 0 used" for x using that \<open>finite used\<close> by simp
    from this [of 0] this [of "1 + Max (insert 0 used)"] show ?thesis by auto
  qed
  then show ?thesis by (simp add: os_ok_def os_example_def)
qed

lemma sys_empty_ok: "sys_ok sys_empty" "find_key sys_empty k = None"
  by (simp_all add: sys_ok_def sys_empty_def find_key_def)

lemma set_sigparam_none:
  "pidnum (qhead sq) = 0 \<Longrightarrow> sq_set_sigparam w sq a b =
     sq\<lparr>qhead := (qhead sq)\<lparr>sig_node_num := a, sig_process_num := b\<rparr>\<rparr>"
  by (simp add: sq_set_sigparam_def verify_and_remove_bad_pids_def SQ_MAX_READER_PROC_NUM_def)

lemma shm_need_16: "align8 13 = 16" "shm_need 16 20 = 8388608"
  by (simp_all add: align8_def shm_need_def SQ_HEAD_SIZE_def SQ_NODE_HEAD_SIZE_def size_t_def)

lemma create_example:
  "\<exists>h s'. sq_create world89 os_example sys_empty 7 13 20 1 1 = Some (Some h, s')"
  by (simp add: sq_create_def exc_lock_def sq_create_locked_def open_shm_queue_def attach_shm_def attach_create_def
      attach_at_def shmat_def shmget_def new_segment_def IPC_PRIVATE_def to_i32_def find_key_def
      os_example_def sys_empty_def RESERVE_BLOCK_COUNT_def shm_need_16 set_sigparam_none
      load_head_def store_head_def shm0_def Let_def)

theorem created_ring_opens_witness:
  "\<exists>h s'. sq_create world89 os_example sys_empty 7 13 20 1 1 = Some (Some h, s')
     \<and> ring_list (qhead h) = [] \<and> ele_count (qhead h) = 20"
proof -
  obtain h s' where c: "sq_create world89 os_example sys_empty 7 13 20 1 1 = Some (Some h, s')"
    using create_example by blast
  have "to_i32 7 \<noteq> 0" by (simp add: to_i32_def)
  from created_ring_opens [OF os_example_ok sys_empty_ok(1) this sys_empty_ok(2) _ _ c] c show ?thesis by auto
qed

section \<open>A writer that comes back\<close>

lemma create_locked_kept:
  fixes w :: sq_world and a b :: int
  assumes "sys_ok s" "segs s i = Some g" "sg_key g = to_i32 key" "to_i32 key \<noteq> 0"
    and "sg_size g = shm_need (align8 es) ec" "ele_size (sg_head g) = align8 es" "ele_count (sg_head g) = ec"
    and "0 < es" "10 < ec" "mem_granted os" "shm_mapped os i"
  defines "h \<equiv> sq_set_sigparam w ((new_handle key)\<lparr>sq_id := i, qhead := sg_head g\<rparr>) a b"
  shows "sq_create_locked w os s key es ec a b =
    (Some h, s\<lparr>segs := (segs s)(i \<mapsto> g\<lparr>sg_attached := sg_attached g + 1, sg_head := qhead h\<rparr>)\<rparr>)"
proof -
  have "attach_shm os s key (shm_need (align8 es) ec) True 0 =
      (Some (i, False), s\<lparr>segs := (segs s)(i \<mapsto> g\<lparr>sg_attached := sg_attached g + 1\<rparr>)\<rparr>)"
    using assms by (intro attach_kept) auto
  then have "open_shm_queue os s key es ec True 0 =
      (Some i, s\<lparr>segs := (segs s)(i \<mapsto> g\<lparr>sg_attached := sg_attached g + 1\<rparr>)\<rparr>)"
    using assms(6,7) by (simp add: open_shm_queue_def load_head_def)
  then show ?thesis
    using assms(8-10) by (simp add: sq_create_locked_def RESERVE_BLOCK_COUNT_def load_head_def store_head_def h_def Let_def)
qed

text \<open>C5. A writer that comes back (after a crash or a restart) and creates the ring of its
  key again with the parameters it had attaches the same segment: nothing is zeroed, the
  readers stay on it, and every item put before is still there, in order.\<close>

theorem created_again_keeps_items:
  assumes "sys_ok s" "segs s i = Some g" "sg_key g = to_i32 key" "to_i32 key \<noteq> 0"
    and "sg_size g = shm_need (align8 es) ec" "ele_size (sg_head g) = align8 es" "ele_count (sg_head g) = ec"
    and "0 < es" "10 < ec" "mem_granted os" "shm_mapped os i" "ring_inv (sg_head g)"
    and "sq_create w os s key es ec a b = Some (res, s')"
  shows "\<exists>h. res = Some h \<and> sq_id h = i \<and> ring_inv (qhead h) \<and> ring_list (qhead h) = ring_list (sg_head g)
    \<and> segs s' = (segs s)(i \<mapsto> g\<lparr>sg_attached := sg_attached g + 1, sg_head := qhead h\<rparr>)"
proof -
  obtain s1 s2 where c: "segs s1 = segs s" "seg_ids s1 = seg_ids s"
    "sq_create_locked w os s1 key es ec a b = (res, s2)" "segs s' = segs s2"
    using sq_create_inner [OF assms(13)] by metis
  let ?h = "sq_set_sigparam w ((new_handle key)\<lparr>sq_id := i, qhead := sg_head g\<rparr>) a b"
  have "sys_ok s1" "segs s1 i = Some g" using assms(1,2) c(1) sys_ok_cong [OF c(1,2)] by simp_all
  note k = create_locked_kept [OF this assms(3-11), of w a b]
  have r: "res = Some ?h" using k c(3) by simp
  have "segs s2 = (segs s1)(i \<mapsto> g\<lparr>sg_attached := sg_attached g + 1, sg_head := qhead ?h\<rparr>)"
    using k c(3) by auto
  then have "segs s' = (segs s)(i \<mapsto> g\<lparr>sg_attached := sg_attached g + 1, sg_head := qhead ?h\<rparr>)"
    using c(1,4) by simp
  moreover have "ring_part (qhead ?h) = ring_part (sg_head g)" by (simp add: set_sigparam_ring)
  moreover have "sq_id ?h = i" by (simp add: set_sigparam_id)
  ultimately show ?thesis using r ring_part_inv [OF _ assms(12)] by blast
qed

text \<open>A ring with one item whose writer died while attached.\<close>

definition ring_crashed :: shm where
  "ring_crashed = sq_put_write (ring0 28\<lparr>tail_pos := 29\<rparr>) 28 [1, 2, 3] (7, 8)"

lemma ring_crashed_ok: "ring_inv ring_crashed" "ring_list ring_crashed = [([1, 2, 3], 7, 8)]"
  "ele_size ring_crashed = 16" "ele_count ring_crashed = 30"
proof -
  note q = ring_inv_put [OF conjunct1 [OF ring0_inv] ring0_put, simplified]
  show "ring_inv ring_crashed" "ring_list ring_crashed = [([1, 2, 3], 7, 8)]"
    unfolding ring_crashed_def using q ring0_inv [of 28] by simp_all
  show "ele_size ring_crashed = 16" "ele_count ring_crashed = 30"
    by (simp_all add: ring_crashed_def sq_put_write_def ring0_def Let_def)
qed

definition sys_crashed :: shm_sys where
  "sys_crashed = \<lparr>segs = [5 \<mapsto> \<lparr>sg_key = 7, sg_size = 8388608, sg_removed = False,
     sg_head = ring_crashed, sg_attached = 1\<rparr>], seg_ids = [5], lock_fds = [], lock_held = None\<rparr>"

lemma sys_crashed_ok: "sys_ok sys_crashed"
  by (simp add: sys_ok_def sys_crashed_def)

lemma shm_need_16_30: "align8 16 = 16" "shm_need 16 30 = 8388608"
  by (simp_all add: align8_def shm_need_def SQ_HEAD_SIZE_def SQ_NODE_HEAD_SIZE_def size_t_def)

text \<open>A creation that finds the lock free returns.\<close>

lemma sq_create_returns:
  assumes "lock_held s = None"
  obtains res s' where "sq_create w os s key es ec a b = Some (res, s')"
proof -
  have u: "exc_lock os s2 True fd \<noteq> None" for s2 fd by (simp add: exc_lock_def Let_def)
  have "exc_lock os s False (- 1) \<noteq> None" using assms by (simp add: exc_lock_def Let_def)
  then obtain r fd s1 where l: "exc_lock os s False (- 1) = Some (r, fd, s1)" by fastforce
  obtain res s2 where "sq_create_locked w os s1 key es ec a b = (res, s2)" by fastforce
  moreover obtain r' fd' s3 where "exc_lock os s2 True fd = Some (r', fd', s3)" using u by fastforce
  ultimately show thesis using l that by (simp add: sq_create_def)
qed

theorem created_again_keeps_items_witness:
  "\<exists>h s'. sq_create world89 os_example sys_crashed 7 16 30 1 1 = Some (Some h, s')
     \<and> ring_list (qhead h) = [([1, 2, 3], 7, 8)]"
proof -
  have "lock_held sys_crashed = None" by (simp add: sys_crashed_def)
  then obtain res s' where c: "sq_create world89 os_example sys_crashed 7 16 30 1 1 = Some (res, s')"
    using sq_create_returns by blast
  let ?g = "\<lparr>sg_key = 7, sg_size = 8388608, sg_removed = False, sg_head = ring_crashed, sg_attached = 1\<rparr>"
  have g: "segs sys_crashed 5 = Some ?g" by (simp add: sys_crashed_def)
  have k: "sg_key ?g = to_i32 7" "to_i32 7 \<noteq> 0" by (simp_all add: to_i32_def)
  have z: "sg_size ?g = shm_need (align8 16) 30" by (simp add: shm_need_16_30)
  have e: "ele_size (sg_head ?g) = align8 16" "ele_count (sg_head ?g) = 30" "ring_inv (sg_head ?g)"
    by (simp_all add: ring_crashed_ok shm_need_16_30)
  have o: "mem_granted os_example" "shm_mapped os_example 5" by (simp_all add: os_example_def)
  obtain h where "res = Some h" "ring_list (qhead h) = ring_list (sg_head ?g)"
    using created_again_keeps_items [OF sys_crashed_ok g k z e(1,2) _ _ o e(3) c] by auto
  with c show ?thesis by (simp add: ring_crashed_ok)
qed

text \<open>With another size (in units of 4 MB) the segment is removed under its readers: they
  keep the old memory, which no key leads to any more, and the writer works on a new,
  empty ring. Nothing tells the readers.\<close>

lemma attach_other_size:
  assumes ok: "os_ok os" "sys_ok s" and g: "segs s i = Some g" "sg_key g = to_i32 key" "to_i32 key \<noteq> 0"
    and sz: "sg_size g \<noteq> sz" "0 < sg_attached g"
    and a: "attach_shm os s key sz True 0 = (Some (j, created), s')"
  shows "created" "j \<noteq> i" "segs s' i = Some (g\<lparr>sg_key := 0, sg_removed := True\<rparr>)"
    "\<exists>n. segs s' j = Some n \<and> sg_key n = to_i32 key \<and> sg_size n = sz"
proof -
  let ?s1 = "s\<lparr>segs := (segs s)(i \<mapsto> g\<lparr>sg_key := 0, sg_removed := True\<rparr>)\<rparr>"
  have "shmget os s key 0 False = (i, s)"
    using g find_key_unique [OF ok(2) g] sys_okD(3) [OF ok(2) g(1)] by (intro shmget_found) auto
  moreover have rm: "shmctl_rmid s i = (0, ?s1)"
    using g sz by (simp add: shmctl_rmid_def IPC_PRIVATE_def)
  obtain k s2 where n: "shmget os ?s1 key sz True = (k, s2)" by fastforce
  ultimately have k: "0 \<le> k" "attach_at os s2 k True = (Some (j, created), s')"
    using a to_i32_nonzero [OF g(3)] sys_okD(2) [OF ok(2) g(1)] sz rm g n
    by (auto simp: attach_shm_def attach_existing_def shmctl_stat_def split: if_splits)
  have gone: "find_key ?s1 (to_i32 key) = None"
  proof (cases "find_key ?s1 (to_i32 key)")
    case (Some m)
    then obtain h where h: "segs ?s1 m = Some h" "sg_key h = to_i32 key" using find_key_Some by blast
    then have "m \<noteq> i" using g(3) by auto
    with h sys_okD(4) [OF ok(2), of m h i g] g show ?thesis by auto
  qed
  have "k = new_shmid os (set (seg_ids s))" "s2 = ?s1\<lparr>segs := (segs ?s1)(k \<mapsto> \<lparr>sg_key = to_i32 key,
      sg_size = sz, sg_removed = False, sg_head = shm0 0 0, sg_attached = 0\<rparr>), seg_ids := k # seg_ids s\<rparr>"
    using n k(1) gone g(3) by (auto simp: shmget_def new_segment_def IPC_PRIVATE_def Let_def split: if_splits)
  moreover have "i \<in> set (seg_ids s)" using sys_okD(1) [OF ok(2)] g(1) by auto
  ultimately have "k \<noteq> i" using ok(1) by (auto simp: os_ok_def)
  with k \<open>s2 = _\<close> show "created" "j \<noteq> i" "segs s' i = Some (g\<lparr>sg_key := 0, sg_removed := True\<rparr>)"
    "\<exists>n. segs s' j = Some n \<and> sg_key n = to_i32 key \<and> sg_size n = sz"
    by (auto simp: attach_at_Some)
qed

section \<open>What a creation leaves behind\<close>

text \<open>The lock file is never closed: each creation leaves one more open descriptor.\<close>

lemma sq_create_leaks_descriptor:
  assumes "lock_ok os" "0 < lock_open os (lock_fds s)" "lock_held s = None"
  shows "case exc_lock os s False (-1) of
      Some (r, fd, s1) \<Rightarrow> r = 0 \<and> (\<forall>s2. lock_held s2 = lock_held s1 \<and> lock_fds s2 = lock_fds s1 \<longrightarrow>
         (\<exists>s3. exc_lock os s2 True fd = Some (0, fd, s3) \<and> lock_held s3 = None
             \<and> lock_fds s3 = lock_open os (lock_fds s) # lock_fds s))
    | None \<Rightarrow> False"
  using assms by (simp add: exc_lock_def Let_def)

text \<open>In a process without standard input the lock file gets descriptor 0, which
  \<^verbatim>\<open>exc_lock\<close> takes for "not open": the lock is released through a second descriptor,
  which has no effect, and the next creation under this key never returns.\<close>

definition same_lock :: "shm_sys \<Rightarrow> shm_sys \<Rightarrow> bool" where
  "same_lock s s' \<longleftrightarrow> lock_held s' = lock_held s \<and> lock_fds s' = lock_fds s"

lemma same_lock_trans: "same_lock s s1 \<Longrightarrow> same_lock s1 s2 \<Longrightarrow> same_lock s s2"
  by (simp add: same_lock_def)

lemma same_lock_refl [simp]: "same_lock s s" by (simp add: same_lock_def)

lemma same_lock_ops [simp]:
  "same_lock s (store_head s i q)" "same_lock s (shmdt s i)" "same_lock s (snd (shmctl_rmid s i))"
  "same_lock s (snd (shmget os s key sz c))" "same_lock s (snd (attach_at os s i created))"
  by (auto simp: same_lock_def store_head_def shmdt_def drop_segment_def shmctl_rmid_def shmget_def
      new_segment_def attach_at_def shmat_def Let_def split: option.splits)

lemma same_lock_shmget: "shmget os s key sz c = (k, s1) \<Longrightarrow> same_lock s s1"
  using same_lock_ops(4) [of s os key sz c] by simp

lemma same_lock_existing: "same_lock s (snd (attach_existing os s key sz c i))"
proof -
  obtain r s1 where rm: "shmctl_rmid s i = (r, s1)" by fastforce
  obtain k s2 where n: "shmget os s1 key sz True = (k, s2)" by fastforce
  have "same_lock s s1" using same_lock_ops(3) [of s i] rm by simp
  moreover from this same_lock_shmget [OF n] have "same_lock s s2" by (rule same_lock_trans)
  ultimately show ?thesis
    using rm n same_lock_trans [OF \<open>same_lock s s2\<close> same_lock_ops(5)]
    by (simp add: attach_existing_def split: option.splits)
qed

lemma same_lock_new: "same_lock s (snd (attach_create os s key sz))"
proof -
  obtain k1 s1 k2 s2 where n: "shmget os s key sz True = (k1, s1)" "shmget os s1 key sz True = (k2, s2)" by fastforce
  have "same_lock s s1" using same_lock_shmget n by blast
  moreover from this have "same_lock s s2" using same_lock_shmget n same_lock_trans by blast
  ultimately show ?thesis
    using n same_lock_trans [OF _ same_lock_ops(5)] by (simp add: attach_create_def)
qed

lemma same_lock_attach: "same_lock s (snd (attach_shm os s key sz create i))"
proof -
  obtain k s1 where n: "shmget os s key 0 False = (k, s1)" by fastforce
  have l: "same_lock s s1" using same_lock_shmget [OF n] .
  show ?thesis
    using n same_lock_existing same_lock_new same_lock_trans [OF l same_lock_existing]
      same_lock_trans [OF l same_lock_new] l
    by (simp add: attach_shm_def)
qed

lemma same_lock_create: "same_lock s (snd (sq_create_locked w os s key es ec a b))"
proof -
  have o: "same_lock s (snd (open_shm_queue os s key es ec True 0))"
    using same_lock_attach [of s os key "shm_need (align8 es) ec" True 0]
    by (auto simp: open_shm_queue_def Let_def split: prod.splits option.splits intro: same_lock_trans)
  show ?thesis
    using o by (auto simp: sq_create_locked_def Let_def split: prod.splits option.splits intro: same_lock_trans)
qed

lemma descriptor_zero_keeps_lock:
  assumes lock: "lock_ok os" "lock_held s = None" "lock_open os (lock_fds s) = 0"
    and others: "\<And>fds. 0 \<in> set fds \<Longrightarrow> 0 < lock_open os fds"
    and first: "sq_create w os s key es ec a b = Some (res, s')"
  shows "sq_create w' os s' key es' ec' a' b' = None"
proof -
  let ?s1 = "s\<lparr>lock_fds := 0 # lock_fds s, lock_held := Some 0\<rparr>"
  have l: "exc_lock os s False (-1) = Some (0, 0, ?s1)" using lock by (simp add: exc_lock_def)
  obtain r2 s2 where c: "sq_create_locked w os ?s1 key es ec a b = (r2, s2)" by fastforce
  have s2: "lock_held s2 = Some 0" "lock_fds s2 = 0 # lock_fds s"
    using same_lock_create [of ?s1 w os key es ec a b] c by (simp_all add: same_lock_def)
  have "s' = s2\<lparr>lock_fds := lock_open os (lock_fds s2) # lock_fds s2\<rparr>"
    using first c lock(1) others [of "lock_fds s2"] s2
    unfolding sq_create_def l by (simp add: exc_lock_def Let_def)
  then show ?thesis
    using s2 lock(1) others [of "lock_fds s'"] by (simp add: sq_create_def exc_lock_def Let_def)
qed

text \<open>The handle of a creator is zeroed, not marked as unregistered: switching its signals
  off disarms the first registered reader.\<close>

lemma creator_disarms_reader:
  assumes "sig_idx sq = 0" "0 < pidnum (qhead sq)" "pidnum (qhead sq) \<le> 64" "length (sigmask (qhead sq)) = 8"
  shows "fst (sq_sigoff sq) = 0" "\<not> mask_bit (qhead (snd (sq_sigoff sq))) 0"
  using assms mask_bit_off [of 0 "qhead sq" 0]
  by (simp_all add: sq_sigoff_def sq_set_sig_off_def uint32_lt_def Let_def)

text \<open>An anonymous ring whose identifier is 0 cannot be opened by its identifier.\<close>

lemma shmid_zero_not_opened: "fst (sq_open_by_shmid os s 0) = None"
  by (simp add: sq_open_by_shmid_def open_shm_queue_def attach_shm_def)

end
