(* ===== verification/Subtitle.thy ===== *)
theory Subtitle
  imports Encode_Threads Frame_Read
begin

text \<open>
  Subtitles (\<^verbatim>\<open>FFSubtitleEncodeThread\<close> in \<^verbatim>\<open>videowriter.cpp\<close> and
  \<^verbatim>\<open>videowriter.h\<close>): where the area of the subtitles lies for an alignment, the two
  texts given to the filter library, starting, and the thread that renders pictures ahead of the
  frame loop, one turn at a time. What the filter library answers is an input of the turn.
\<close>

section \<open>State\<close>

record subtitle_thread = subtitle_enc +
  s_exit :: bool
  s_stopped :: bool
  s_runner :: bool
  s_file :: string
  s_align :: int
  st_x :: int
  st_y :: int
  st_w :: int
  st_h :: int
  frame_number :: int

definition FFSubtitleEncodeThread :: subtitle_thread where
  "FFSubtitleEncodeThread = \<lparr>skip_subtitle = False, lastFrameNo = -1, st_fps = 0, finishedBuffers = SafeQueue,
     s_exit = False, s_stopped = False, s_runner = False, s_file = [], s_align = 0,
     st_x = 0, st_y = 0, st_w = 0, st_h = 0, frame_number = 0\<rparr>"

section \<open>Style\<close>

definition to_upper :: "char \<Rightarrow> char" where
  "to_upper c = (let n = of_char c :: nat in if 97 \<le> n \<and> n \<le> 122 then char_of (n - 32) else c)"

text \<open>The rest of a text from the first occurrence of another.\<close>

fun strstr_from :: "string \<Rightarrow> string \<Rightarrow> string option" where
  "strstr_from [] p = (if p = [] then Some [] else None)"
| "strstr_from (c # cs) p = (if starts_with p (c # cs) then Some (c # cs) else strstr_from cs p)"

definition align_token :: string where "align_token = ''ALIGNMENT=''"

definition subtitle_style :: "string \<Rightarrow> string \<times> int" where
  "subtitle_style style =
     (let force_style = replace_all (replace_all style ''%20%'' '' '') [CHR 0x5C, CHR ''&''] ''&'';
          (fs, al) = (case strstr_from (map to_upper style) align_token of
              Some str \<Rightarrow> (force_style, atoi (drop (length align_token) str))
            | None \<Rightarrow> ((if force_style \<noteq> [] then force_style @ '','' else force_style)
                        @ ''Alignment='' @ print_int 10, 10))
      in (fs @ '',WrapStyle=1'', al))"

section \<open>Area\<close>

definition MIN_SUBTITLE_WIDTH :: int where "MIN_SUBTITLE_WIDTH = 100"

definition vert_area :: "int \<Rightarrow> int \<Rightarrow> int \<Rightarrow> int \<Rightarrow> int \<times> int" where
  "vert_area align height y h =
     (let vert_align = c_div align 4;
          max_height = (if height * 2 < h * 2 then h * 2 else height * 2)
      in if vert_align = 0 then
           (if max_height < height then (y + h - max_height, max_height) else (y + h - height, height))
         else if vert_align = 1 then (y, if max_height < height then max_height else height)
         else (y + c_div h 2 - c_div height 2, height))"

definition hori_area :: "int \<Rightarrow> int \<Rightarrow> int \<Rightarrow> int \<times> int" where
  "hori_area width x w =
     (if w < MIN_SUBTITLE_WIDTH
      then (if width < x + w then x + w - MIN_SUBTITLE_WIDTH else x, MIN_SUBTITLE_WIDTH)
      else (x, w))"

section \<open>Texts for the filter library\<close>

text \<open>28 is \<^verbatim>\<open>AV_PIX_FMT_BGRA\<close>; the buffers take 1023 and 4094 characters. The area ratio is
  a float. The opening quote of the style is the three bytes of the source text (U+2018).\<close>

definition subtitle_args :: "int \<Rightarrow> int \<Rightarrow> int \<Rightarrow> string" where
  "subtitle_args w h fps =
     fst (snprintf 1024 (''video_size='' @ print_int w @ ''x'' @ print_int h @ '':pix_fmt='' @ print_int 28
       @ '':time_base='' @ print_int 1 @ ''/'' @ print_int fps @ '':pixel_aspect='' @ print_int w @ ''/'' @ print_int h))"

definition virtual_size :: "rounding \<Rightarrow> int \<Rightarrow> int \<Rightarrow> int \<Rightarrow> int \<Rightarrow> int \<times> int" where
  "virtual_size rnd32 width height w h =
     (let area = to_i32 (width * height); sub_area = to_i32 (w * h);
          ratio = f_div rnd32 (rnd32 (of_int area)) (rnd32 (of_int sub_area))
      in (f_trunc (f_mul rnd32 (rnd32 (of_int w)) ratio), f_trunc (f_mul rnd32 (rnd32 (of_int h)) ratio)))"

definition style_quote :: string where "style_quote = [CHR 0xE2, CHR 0x80, CHR 0x98]"

definition subtitle_desc :: "string \<Rightarrow> int \<times> int \<Rightarrow> string \<Rightarrow> string" where
  "subtitle_desc file vir force_style =
     (let d = fst (snprintf 4095 (''subtitles=filename='' @ [CHR 0x27] @ file @ [CHR 0x27] @ '':original_size=''
                @ print_int (fst vir) @ ''x'' @ print_int (snd vir) @ '':alpha=1''));
          fs = replace_all force_style '','' [CHR 0x5C, CHR '','']
      in if force_style = [] then d
         else d @ fst (snprintf (4095 - int (length d)) ('':force_style='' @ style_quote @ fs @ [CHR 0x27])))"

section \<open>Starting and stopping\<close>

record subtitle_ops =
  sub_exists :: "string \<Rightarrow> bool"
  filter_alloc :: bool
  create_in :: "string \<Rightarrow> int"
  create_out :: int
  parse_graph :: "string \<Rightarrow> int"
  graph_config :: int
  get_buffer :: "int \<Rightarrow> int \<Rightarrow> int"
  fill_arrays :: "int \<Rightarrow> int \<Rightarrow> int"
  rnd_float :: rounding

definition init_subtitle_filter :: "subtitle_ops \<Rightarrow> string \<Rightarrow> string \<Rightarrow> bool" where
  "init_subtitle_filter ops args desc =
     (if \<not> filter_alloc ops then False
      else if create_in ops args < 0 then False
      else if create_out ops < 0 then False
      else if parse_graph ops desc < 0 then False
      else if graph_config ops < 0 then False
      else True)"

definition begin_thread :: "subtitle_thread \<Rightarrow> subtitle_thread" where
  "begin_thread t = (if s_runner t then t else t\<lparr>s_runner := True, frame_number := 0, skip_subtitle := False\<rparr>)"

definition subtitle_START :: "subtitle_ops \<Rightarrow> string \<Rightarrow> string \<Rightarrow> int \<Rightarrow> int \<Rightarrow> int \<Rightarrow> int \<Rightarrow> int \<Rightarrow> int \<Rightarrow> int
    \<Rightarrow> subtitle_thread \<Rightarrow> int \<times> subtitle_thread" where
  "subtitle_START ops file style fps width height x y w h t =
     (let t1 = t\<lparr>s_file := file, st_fps := fps, st_x := x, st_y := y, st_w := w, st_h := h,
                 s_exit := False, s_stopped := False\<rparr>
      in if \<not> sub_exists ops file then (-1, t1)
         else
           let (force_style, al) = subtitle_style style;
               (y1, h1) = vert_area al height y h;
               (x1, w1) = hori_area width x w;
               t2 = t1\<lparr>s_align := al, st_x := x1, st_y := y1, st_w := w1, st_h := h1\<rparr>
           in if \<not> init_subtitle_filter ops (subtitle_args w1 h1 fps)
                    (subtitle_desc file (virtual_size (rnd_float ops) width height w1 h1) force_style)
              then (-1, t2)
              else if get_buffer ops w1 h1 \<noteq> 0 then (-1, t2)
              else if fill_arrays ops w1 h1 < 0 then (-1, t2)
              else (0, begin_thread t2))"

definition subtitle_STOP :: "bool \<Rightarrow> subtitle_thread \<Rightarrow> subtitle_thread" where
  "subtitle_STOP force t =
     (let t1 = t\<lparr>s_stopped := True\<rparr>
      in if force then t1\<lparr>finishedBuffers := Clear (finishedBuffers t1)\<rparr> else t1)"

definition subtitle_EXIT :: "bool \<Rightarrow> subtitle_thread \<Rightarrow> subtitle_thread" where
  "subtitle_EXIT force t = t\<lparr>finishedBuffers := Clear (finishedBuffers t), s_exit := True\<rparr>"

section \<open>The rendering thread\<close>

text \<open>A filtered picture: its time stamp, the code of the conversion or copy into the buffer of
  the queue, and the bytes. The sink ends with "again", "end of file" or another error.\<close>

record filtered = pts :: int
  conv_ret :: int
  pixels :: "byte list"

datatype sink_end = SinkAgain | SinkEof | SinkError

record render_env =
  writable_ret :: int
  fill_ret :: int
  add_ret :: int
  sink :: "filtered list"
  sink_ends :: sink_end

fun take_filtered :: "filtered list \<Rightarrow> sink_end \<Rightarrow> subtitle_thread \<Rightarrow> subtitle_thread" where
  "take_filtered [] e t = (if e = SinkAgain then t else t\<lparr>skip_subtitle := True\<rparr>)"
| "take_filtered (f # fs) e t =
     (if conv_ret f < 0 then t\<lparr>skip_subtitle := True\<rparr>
      else take_filtered fs e (t\<lparr>finishedBuffers := snd (PushMove (finishedBuffers t) (pts f, pixels f))\<rparr>))"

definition subtitle_RUN :: "render_env \<Rightarrow> subtitle_thread \<Rightarrow> subtitle_thread \<times> bool" where
  "subtitle_RUN env t =
     (if s_stopped t \<or> skip_subtitle t \<or> 5 \<le> Size (finishedBuffers t) then (t, \<not> s_exit t)
      else if writable_ret env \<noteq> 0 then (t\<lparr>skip_subtitle := True\<rparr>, True)
      else if fill_ret env < 0 then (t\<lparr>skip_subtitle := True\<rparr>, True)
      else let t1 = t\<lparr>frame_number := frame_number t + 1\<rparr>
           in if add_ret env < 0 then (t1\<lparr>skip_subtitle := True\<rparr>, True)
              else (take_filtered (sink env) (sink_ends env) t1, True))"

end
