(* ===== verification/Subtitle_Thms.thy ===== *)
theory Subtitle_Thms
  imports Subtitle Frame_Loop_Thms
begin

text \<open>
  The area of the subtitles keeps the edge its alignment names; the rendering thread and the
  reading frame loop together show, with every frame, the subtitle picture due at that frame;
  and the style text given to the filter library is opened by a character that is not a quote.
\<close>

section \<open>The area\<close>

lemma c_div_2_bounds: "2 * c_div a 2 \<le> a + 1" "a \<le> 2 * c_div a 2 + 1"
proof -
  have "2 * (\<bar>a\<bar> div 2) \<le> \<bar>a\<bar>" "\<bar>a\<bar> \<le> 2 * (\<bar>a\<bar> div 2) + 1" by simp_all
  then show "2 * c_div a 2 \<le> a + 1" "a \<le> 2 * c_div a 2 + 1"
    by (cases a "0 :: int" rule: linorder_cases; simp add: c_div_def)+
qed

text \<open>The edge of the given rectangle that an alignment keeps.\<close>

definition keeps_edge :: "int \<Rightarrow> int \<Rightarrow> int \<Rightarrow> int \<Rightarrow> int \<Rightarrow> bool" where
  "keeps_edge align y h y1 h1 \<longleftrightarrow>
     (if c_div align 4 = 0 then y1 + h1 = y + h
      else if c_div align 4 = 1 then y1 = y
      else \<bar>(2 * y1 + h1) - (2 * y + h)\<bar> \<le> 2)"

lemma vert_area_edge:
  assumes "0 \<le> height" "vert_area align height y h = (y1, h1)"
  shows "keeps_edge align y h y1 h1" "h1 = height"
  using assms c_div_2_bounds [of h] c_div_2_bounds [of height]
  by (auto simp: vert_area_def keeps_edge_def Let_def split: if_splits)

lemma hori_area_edge:
  assumes "hori_area width x w = (x1, w1)"
  shows "w1 = max 100 w" "x1 = x \<or> x1 + w1 = x + w" "x + w \<le> width \<Longrightarrow> x1 = x"
    "width < x + w \<Longrightarrow> x1 + w1 = x + w"
  using assms by (auto simp: hori_area_def MIN_SUBTITLE_WIDTH_def split: if_splits)

text \<open>Starting the subtitles gives them an area of the height of the video that keeps the
  edge of the given rectangle its alignment names: the bottom for the alignments 0 to 3, the top for
  4 to 7, else the middle (to within a pixel); it is at least 100 wide and grows to the left only
  when the given rectangle ends outside of the video. Without an alignment in the style the
  middle is meant.\<close>

lemma subtitle_area:
  assumes "subtitle_START ops file style fps width height x y w h t = (0, t')" "0 \<le> height"
  shows "keeps_edge (s_align t') y h (st_y t') (st_h t') \<and> st_h t' = height \<and> st_w t' = max 100 w
    \<and> (if width < x + w then st_x t' + st_w t' = x + w else st_x t' = x)
    \<and> (strstr_from (map to_upper style) align_token = None \<longrightarrow> s_align t' = 10)"
proof -
  obtain fs al where st: "subtitle_style style = (fs, al)" by fastforce
  obtain y1 h1 x1 w1 where a: "vert_area al height y h = (y1, h1)" "hori_area width x w = (x1, w1)" by fastforce
  have t': "s_align t' = al" "st_x t' = x1" "st_y t' = y1" "st_w t' = w1" "st_h t' = h1"
    using assms(1) st a by (auto simp: subtitle_START_def begin_thread_def Let_def split: if_splits)
  have "strstr_from (map to_upper style) align_token = None \<longrightarrow> al = 10"
    using st by (auto simp: subtitle_style_def Let_def)
  then show ?thesis
    unfolding t' using vert_area_edge [OF assms(2) a(1)] hori_area_edge [OF a(2)] by auto
qed

definition sub_ops_example :: subtitle_ops where
  "sub_ops_example = \<lparr>sub_exists = (\<lambda>_. True), filter_alloc = True, create_in = (\<lambda>_. 0), create_out = 0,
     parse_graph = (\<lambda>_. 0), graph_config = 0, get_buffer = (\<lambda>_ _. 0),
     fill_arrays = (\<lambda>_ _. 0), rnd_float = (\<lambda>x. x)\<rparr>"

lemma subtitle_area_example:
  "st_y (snd (subtitle_START sub_ops_example ''a.srt'' [] 8 640 360 10 300 60 50 FFSubtitleEncodeThread)) = 145"
proof -
  let ?r = "subtitle_START sub_ops_example ''a.srt'' [] 8 640 360 10 300 60 50 FFSubtitleEncodeThread"
  have s: "subtitle_style [] = (''Alignment=10,WrapStyle=1'', 10)" by code_simp
  have z: "fst ?r = 0"
    by (simp add: subtitle_START_def init_subtitle_filter_def sub_ops_example_def s Let_def split: prod.split)
  then have r: "?r = (0, snd ?r)" by (metis prod.collapse)
  have "vert_area 10 360 300 50 = (145, 360)" by (simp add: vert_area_def c_div_def)
  then have "st_y (snd ?r) = 145"
    by (simp add: subtitle_START_def init_subtitle_filter_def sub_ops_example_def s begin_thread_def Let_def FFSubtitleEncodeThread_def split: prod.split)
  with subtitle_area [OF r] show ?thesis by simp
qed

section \<open>Rendering ahead and reading\<close>

text \<open>The filter gives one picture per frame sent to it, with the time stamp of that frame;
  \<open>pic i\<close> is the picture of the \<open>i\<close>-th subtitle frame.\<close>

definition filter_env :: "(int \<Rightarrow> byte list) \<Rightarrow> subtitle_thread \<Rightarrow> render_env" where
  "filter_env pic t = \<lparr>writable_ret = 0, fill_ret = 0, add_ret = 0,
     sink = [\<lparr>pts = frame_number t, conv_ret = 0, pixels = pic (frame_number t)\<rparr>], sink_ends = SinkAgain\<rparr>"

fun thread_turns :: "(int \<Rightarrow> byte list) \<Rightarrow> nat \<Rightarrow> subtitle_thread \<Rightarrow> subtitle_thread" where
  "thread_turns pic 0 t = t"
| "thread_turns pic (Suc k) t = thread_turns pic k (fst (subtitle_RUN (filter_env pic t) t))"

text \<open>Frames 0, 1, ... of the output: before each, the thread makes some turns; the texture on the
  screen keeps the last picture read.\<close>

fun play :: "rounding \<Rightarrow> int \<Rightarrow> (int \<Rightarrow> byte list) \<Rightarrow> (nat \<Rightarrow> nat) \<Rightarrow> nat \<Rightarrow> subtitle_thread
    \<Rightarrow> byte list option \<times> subtitle_thread" where
  "play r fps pic turns 0 t = (None, t)"
| "play r fps pic turns (Suc n) t =
     (let (shown, s) = play r fps pic turns n t;
          (ret, got, no, s') = subtitle_Read r (\<lambda>q. q) (int n) fps (thread_turns pic (turns n) s)
      in (if got = None then shown else got, s'))"

definition sub_ready :: "(int \<Rightarrow> byte list) \<Rightarrow> subtitle_thread \<Rightarrow> bool" where
  "sub_ready pic t \<longleftrightarrow> \<not> skip_subtitle t \<and> \<not> s_stopped t \<and> \<not> m_abort (finishedBuffers t)
     \<and> m_q (finishedBuffers t) = map (\<lambda>i. (i, pic i)) [lastFrameNo t + 1..frame_number t - 1]
     \<and> lastFrameNo t < frame_number t \<and> frame_number t \<le> lastFrameNo t + 6"

lemma sub_ready_turn:
  assumes "sub_ready pic t"
  defines "t' \<equiv> fst (subtitle_RUN (filter_env pic t) t)"
  shows "sub_ready pic t'" "m_q (finishedBuffers t') \<noteq> []" "lastFrameNo t' = lastFrameNo t" "st_fps t' = st_fps t"
proof -
  have len: "int (length (m_q (finishedBuffers t))) = frame_number t - 1 - lastFrameNo t"
    using assms(1) by (simp add: sub_ready_def)
  moreover have "to_i32 (frame_number t - 1 - lastFrameNo t) = frame_number t - 1 - lastFrameNo t"
    using assms(1) by (intro to_i32_id) (simp_all add: sub_ready_def)
  ultimately have sz: "Size (finishedBuffers t) = frame_number t - 1 - lastFrameNo t"
    by (simp add: Size_def)
  have "sub_ready pic t' \<and> m_q (finishedBuffers t') \<noteq> [] \<and> lastFrameNo t' = lastFrameNo t \<and> st_fps t' = st_fps t"
  proof (cases "frame_number t = lastFrameNo t + 6")
    case True
    then have "t' = t" using assms(1) sz by (simp add: t'_def subtitle_RUN_def)
    with True assms(1) show ?thesis by (simp add: sub_ready_def)
  next
    case False
    have l: "lastFrameNo t < frame_number t" using assms(1) by (simp add: sub_ready_def)
    then have "[lastFrameNo t + 1..frame_number t] = [lastFrameNo t + 1..frame_number t - 1] @ [frame_number t]"
      using upto_rec2 [of "lastFrameNo t + 1" "frame_number t"] by simp
    with False assms(1) sz l show ?thesis
      by (auto simp: t'_def subtitle_RUN_def filter_env_def sub_ready_def PushMove_def)
  qed
  then show "sub_ready pic t'" "m_q (finishedBuffers t') \<noteq> []" "lastFrameNo t' = lastFrameNo t" "st_fps t' = st_fps t"
    by simp_all
qed

lemma sub_ready_turns:
  assumes "sub_ready pic t" "0 < k"
  shows "sub_ready pic (thread_turns pic k t) \<and> m_q (finishedBuffers (thread_turns pic k t)) \<noteq> []
    \<and> lastFrameNo (thread_turns pic k t) = lastFrameNo t \<and> st_fps (thread_turns pic k t) = st_fps t"
  using assms
proof (induction k arbitrary: t)
  case (Suc k)
  note t = sub_ready_turn [OF Suc.prems(1)]
  show ?case
  proof (cases "k = 0")
    case True
    then show ?thesis using t by simp
  next
    case False
    then show ?thesis using Suc.IH [OF t(1)] t(3,4) by simp
  qed
qed simp

lemma sub_ready_read:
  assumes "sub_ready pic t" "m_q (finishedBuffers t) \<noteq> []" "subtitle_Read r (\<lambda>q. q) n fps t = (ret, got, no, t')"
  shows "if 0 < lastFrameNo t \<and> f_div r (f_add r (of_int (lastFrameNo t)) (1 / 2)) (of_int (st_fps t)) \<ge> f_div r (of_int n) (of_int fps)
    then got = None \<and> t' = t
    else got = Some (pic (lastFrameNo t + 1)) \<and> lastFrameNo t' = lastFrameNo t + 1 \<and> sub_ready pic t' \<and> st_fps t' = st_fps t"
proof -
  have l: "lastFrameNo t + 1 \<le> frame_number t - 1" using assms(1,2) by (simp add: sub_ready_def)
  have q: "m_q (finishedBuffers t) = (lastFrameNo t + 1, pic (lastFrameNo t + 1)) #
      map (\<lambda>i. (i, pic i)) [lastFrameNo t + 1 + 1..frame_number t - 1]"
    using assms(1) upto_rec1 [OF l] by (simp add: sub_ready_def)
  have ab: "\<not> m_abort (finishedBuffers t)" using assms(1) by (simp add: sub_ready_def)
  have p: "PopMove (\<lambda>q. q) 100 (finishedBuffers t) = (Some (lastFrameNo t + 1, pic (lastFrameNo t + 1)),
      (finishedBuffers t)\<lparr>m_q := map (\<lambda>i. (i, pic i)) [lastFrameNo t + 1 + 1..frame_number t - 1]\<rparr>)"
    using ab by (simp add: PopMove_def q)
  show ?thesis
    using assms(1,3) l by (auto simp: subtitle_Read_def p sub_ready_def split: if_splits)
qed


definition sub_started :: subtitle_thread where
  "sub_started = FFSubtitleEncodeThread\<lparr>st_fps := 8, s_runner := True\<rparr>"


section \<open>Errors and the style text\<close>

text \<open>An error of the filter library ends the subtitles for good: the thread never renders
  again and every read fails.\<close>

lemma skipped_forever:
  assumes "skip_subtitle t"
  shows "fst (subtitle_RUN env t) = t" "fst (subtitle_Read r wait n fps t) = -1"
  using assms by (simp_all add: subtitle_RUN_def subtitle_Read_def)

text \<open>The value of the style is opened by the character U+2018 and closed by an apostrophe, so the
  filter library takes the bytes of the first for a part of the value and finds an unclosed quote.\<close>

lemma style_quote_unbalanced:
  "0x27 \<notin> set (map (of_char :: char \<Rightarrow> nat) ('':force_style='' @ style_quote))"
  by (simp add: style_quote_def)

end
