(* ===== verification/Gif_Decode.thy ===== *)
theory Gif_Decode
  imports C_Double
begin

text \<open>
  Decoding animated pictures (\<^verbatim>\<open>decode_gif\<close> and \<^verbatim>\<open>decode_webp\<close> of
  \<^verbatim>\<open>ffgif.cpp\<close>). What ffmpeg and libwebp answer is a record each: the results of
  the calls before the loop, then the packets of the file with the pictures the decoder gives
  after each of them, or the states of the webp decoder. A picture that could not be scaled is
  \<open>None\<close>; \<open>bgra\<close> is the conversion of the colours.
\<close>

section \<open>Webp\<close>

record ('i, 'd) webp_source =
  ws_file :: bool
  ws_data :: bool
  ws_options :: bool
  ws_decoder :: "'d option"
  ws_info :: bool
  ws_more :: "'d \<Rightarrow> bool"
  ws_next :: "'d \<Rightarrow> ('i \<times> int) option \<times> 'd"

text \<open>The loop goes on as long as pictures are left, whether or not the last one could be
  decoded; it may run for ever.\<close>

partial_function (option) webp_loop ::
  "rounding \<Rightarrow> ('i \<Rightarrow> 'i) \<Rightarrow> ('i, 'd) webp_source \<Rightarrow> 'd \<Rightarrow> 'i list \<Rightarrow> rat list \<Rightarrow> ('i list \<times> rat list) option" where
  "webp_loop r bgra ws d fs pts =
     (if ws_more ws d
      then case ws_next ws d of
             (None, d') \<Rightarrow> webp_loop r bgra ws d' fs pts
           | (Some (i, timestamp), d') \<Rightarrow>
               webp_loop r bgra ws d' (fs @ [bgra i]) (pts @ [f_mul r (of_int timestamp) (r (1 / 1000))])
      else Some (fs, pts))"

text \<open>The result code, the pictures and their times.\<close>

definition decode_webp ::
  "rounding \<Rightarrow> ('i \<Rightarrow> 'i) \<Rightarrow> ('i, 'd) webp_source \<Rightarrow> 'i list \<Rightarrow> rat list \<Rightarrow> (int \<times> 'i list \<times> rat list) option" where
  "decode_webp r bgra ws fs pts =
     (if \<not> ws_file ws \<or> \<not> ws_data ws \<or> \<not> ws_options ws then Some (-1, fs, pts)
      else case ws_decoder ws of
             None \<Rightarrow> Some (-1, fs, pts)
           | Some d \<Rightarrow>
               if \<not> ws_info ws then Some (-1, fs, pts)
               else map_option (\<lambda>(fs', pts'). (0, fs', pts')) (webp_loop r bgra ws d fs pts))"

section \<open>Gif\<close>

text \<open>A packet: its stream, whether the decoder took it, and the pictures with their time
  stamps that the decoder holds ready after it.\<close>

record 'i gif_packet =
  gp_stream :: int
  gp_sent :: bool
  gp_pictures :: "('i option \<times> int) list"

record 'i gif_source =
  gs_open :: bool
  gs_info :: bool
  gs_stream :: "int option"
  gs_webp :: bool
  gs_decoder :: bool
  gs_params :: bool
  gs_avopen :: bool
  gs_time_base :: rat
  gs_frame_rate :: rat
  gs_fill :: bool
  gs_sws :: bool
  gs_packets :: "'i gif_packet list"

text \<open>\<^verbatim>\<open>0.0001f\<close> is the float next to the number. A rate of 0 makes the time base
  infinite, which is \<open>None\<close>.\<close>

definition float_1e_4 :: rat where "float_1e_4 = 13743895 / 2 ^ 37"

definition gif_time_base :: "rounding \<Rightarrow> 'i gif_source \<Rightarrow> rat option" where
  "gif_time_base r gs =
     (if gs_time_base gs < float_1e_4
      then (if gs_frame_rate gs = 0 then None else Some (f_div r 1 (gs_frame_rate gs)))
      else Some (gs_time_base gs))"

text \<open>The inner loop: the error set, what the decoder still holds, pictures and times.\<close>

fun receive_pictures ::
  "rounding \<Rightarrow> ('i \<Rightarrow> 'i) \<Rightarrow> rat \<Rightarrow> ('i option \<times> int) list \<Rightarrow> 'i list \<Rightarrow> rat list
     \<Rightarrow> bool \<times> ('i option \<times> int) list \<times> 'i list \<times> rat list" where
  "receive_pictures r bgra tb [] fs pts = (False, [], fs, pts)"
| "receive_pictures r bgra tb ((i, t) # rest) fs pts =
     (case i of
        None \<Rightarrow> (True, rest, fs, pts)
      | Some x \<Rightarrow> receive_pictures r bgra tb rest (fs @ [bgra x]) (pts @ [f_mul r (of_int t) tb]))"

text \<open>The outer loop. An error of the inner one is overwritten at the end of the file.\<close>

fun gif_loop ::
  "rounding \<Rightarrow> ('i \<Rightarrow> 'i) \<Rightarrow> rat \<Rightarrow> int \<Rightarrow> 'i gif_packet list \<Rightarrow> ('i option \<times> int) list \<Rightarrow> 'i list \<Rightarrow> rat list
     \<Rightarrow> int \<times> 'i list \<times> rat list" where
  "gif_loop r bgra tb idx [] held fs pts = (0, fs, pts)"
| "gif_loop r bgra tb idx (p # ps) held fs pts =
     (if gp_stream p \<noteq> idx then gif_loop r bgra tb idx ps held fs pts
      else if \<not> gp_sent p then (-1, fs, pts)
      else case receive_pictures r bgra tb (held @ gp_pictures p) fs pts of
             (failed, held', fs', pts') \<Rightarrow> gif_loop r bgra tb idx ps held' fs' pts')"

text \<open>An infinite time base makes every time infinite or not a number; such a source has no
  value here.\<close>

definition decode_gif ::
  "rounding \<Rightarrow> ('i \<Rightarrow> 'i) \<Rightarrow> 'i gif_source \<Rightarrow> ('i, 'd) webp_source \<Rightarrow> 'i list \<Rightarrow> rat list
     \<Rightarrow> (int \<times> 'i list \<times> rat list) option" where
  "decode_gif r bgra gs ws fs pts =
     (if \<not> gs_open gs \<or> \<not> gs_info gs then Some (-1, fs, pts)
      else case gs_stream gs of
             None \<Rightarrow> Some (-1, fs, pts)
           | Some idx \<Rightarrow>
               if gs_webp gs then decode_webp r bgra ws fs pts
               else if \<not> gs_decoder gs \<or> \<not> gs_params gs \<or> \<not> gs_avopen gs \<or> \<not> gs_fill gs \<or> \<not> gs_sws gs
               then Some (-1, fs, pts)
               else case gif_time_base r gs of
                      None \<Rightarrow> None
                    | Some tb \<Rightarrow> Some (gif_loop r bgra tb idx (gs_packets gs) [] fs pts))"

end
