(* ===== verification/Open_Materials.thy ===== *)
theory Open_Materials
  imports Frame_Read Gif_Decode Ff_Open Decoder_Thread Event_Push
begin

text \<open>
  Opening materials (\<^verbatim>\<open>open_materials\<close> of \<^verbatim>\<open>material.cpp\<close>): the pictures of a
  gif, an image, a text or a clock are loaded, sized, faded and turned; a video or audio material
  gets a reader and a decoder thread. Loading and changing pictures is OpenCV's and a parameter;
  decoding of gifs, readers and decoder threads are those of their own theories.
\<close>

section \<open>State and the parts outside\<close>

text \<open>\<open>mat_scale8\<close> is \<^verbatim>\<open>convertTo\<close> to 8 bits with the factor \<^verbatim>\<open>1.0/255\<close>,
  \<open>fade\<close> multiplies the alpha channel, \<open>give_alpha\<close> adds one that is constant,
  \<open>blank\<close> makes a black picture of the type of another one and \<open>put_part\<close> copies
  the visible part of a picture to a place.\<close>

record ('r, 'b, 'i, 'd) open_ops = "('r, 'b, 'i) frame_ops" +
  rnd_float :: rounding
  to_bgra :: "'i \<Rightarrow> 'i"
  gif_of :: "string \<Rightarrow> 'i gif_source"
  webp_of :: "string \<Rightarrow> ('i, 'd) webp_source"
  imread :: "string \<Rightarrow> 'i option"
  mat_channels :: "'i \<Rightarrow> int"
  mat_8bit :: "'i \<Rightarrow> bool"
  mat_scale8 :: "'i \<Rightarrow> 'i"
  fade :: "rat \<Rightarrow> 'i \<Rightarrow> 'i"
  give_alpha :: "rat \<Rightarrow> 'i \<Rightarrow> 'i"
  blank :: "'i \<Rightarrow> int \<Rightarrow> int \<Rightarrow> 'i"
  put_part :: "'i \<Rightarrow> 'i \<Rightarrow> int \<Rightarrow> int \<Rightarrow> int \<Rightarrow> int \<Rightarrow> 'i"

record ('i, 'k) medium =
  md_mat :: material
  md_ctx :: "'i materialcontext"
  md_reader :: "'k option"
  md_audio :: "byte list"
  md_audindex :: int

text \<open>Readers by name, the decoder map, the reader of the main audio and the events sent;
  \<open>fresh\<close> names a new reader, \<open>probe_of\<close> is what ffmpeg answers for a path and
  \<open>reader0\<close> holds the members a new reader leaves as they are.\<close>

record 'k media_world =
  mw_readers :: "'k \<rightharpoonup> media_reader"
  mw_decoders :: "'k \<rightharpoonup> decoder"
  mw_main :: "'k option"
  mw_events :: "(EventCode \<times> string) list"

record 'k open_cfg =
  x_ratio :: rat
  y_ratio :: rat
  raw_mainaudio :: bool
  out_channel :: int
  out_samplerate :: int
  stream_buffer_size :: int
  oc_fps :: rat
  oc_bgr24 :: int
  disable_opengl :: bool
  cur_product :: int
  fresh :: "'k set \<Rightarrow> 'k"
  probe_of :: "string \<Rightarrow> probe"
  reader0 :: media_reader

section \<open>Pictures\<close>

definition scaled_size :: "('r, 'b, 'i, 'd) open_ops \<Rightarrow> int \<Rightarrow> rat \<Rightarrow> int" where
  "scaled_size ops n ratio = f_trunc (f_mul (rnd ops) (of_int n) ratio)"

definition mat_size :: "('r, 'b, 'i, 'd) open_ops \<Rightarrow> 'i \<Rightarrow> int \<times> int" where
  "mat_size ops i = (mat_cols ops i, mat_rows ops i)"

text \<open>A width or height of 0 becomes that of the picture on the output.\<close>

definition fill_rect :: "('r, 'b, 'i, 'd) open_ops \<Rightarrow> 'k open_cfg \<Rightarrow> int \<Rightarrow> int \<Rightarrow> cv_rect \<Rightarrow> cv_rect" where
  "fill_rect ops cfg w h r =
     (let r1 = (if rwidth r = 0 then r\<lparr>rwidth := scaled_size ops w (x_ratio cfg)\<rparr> else r)
      in if rheight r1 = 0 then r1\<lparr>rheight := scaled_size ops h (y_ratio cfg)\<rparr> else r1)"

definition resize_to :: "('r, 'b, 'i, 'd) open_ops \<Rightarrow> int \<Rightarrow> int \<Rightarrow> 'i \<Rightarrow> 'i" where
  "resize_to ops w h i = (if w \<noteq> mat_cols ops i \<or> h \<noteq> mat_rows ops i then mat_resize ops i w h else i)"

definition faded :: "int \<Rightarrow> bool" where "faded op \<longleftrightarrow> 0 < op \<and> op < 100"

definition fop :: "('r, 'b, 'i, 'd) open_ops \<Rightarrow> int \<Rightarrow> rat" where
  "fop ops op = f_div (rnd_float ops) (of_int op) 100"

text \<open>Images and the pictures of a clock: 8 bits, and whether there is an alpha channel.\<close>

definition as_8bit :: "('r, 'b, 'i, 'd) open_ops \<Rightarrow> 'i \<Rightarrow> 'i \<times> ColorType" where
  "as_8bit ops i =
     (if mat_channels ops i = 4
      then (if \<not> mat_8bit ops i then mat_scale8 ops i else i, FT_BGRA)
      else (if \<not> (mat_channels ops i = 3 \<and> mat_8bit ops i) then mat_scale8 ops i else i, FT_BGR))"

definition fade_image :: "('r, 'b, 'i, 'd) open_ops \<Rightarrow> int \<Rightarrow> 'i \<Rightarrow> 'i" where
  "fade_image ops op i =
     (if faded op
      then (if mat_channels ops i = 3 then give_alpha ops (f_mul (rnd_float ops) (fop ops op) 255) i
            else fade ops (fop ops op) i)
      else i)"

definition turned :: "material \<Rightarrow> bool" where "turned m \<longleftrightarrow> c_rem (rotation m) 360 \<noteq> 0"

section \<open>Gifs\<close>

text \<open>One turn of the loop, from the last picture to the first: the rectangle of the material,
  the rectangle all pictures are resized to, and the picture.\<close>

definition gif_rects ::
  "('r, 'b, 'i, 'd) open_ops \<Rightarrow> 'k open_cfg \<Rightarrow> 'i \<Rightarrow> material \<Rightarrow> cv_rect \<Rightarrow> material \<times> cv_rect" where
  "gif_rects ops cfg i m old =
     (let (m1, old1) = (if rwidth (mrect m) = 0
                        then (let v = scaled_size ops (mat_cols ops i) (x_ratio cfg)
                              in (m\<lparr>mrect := (mrect m)\<lparr>rwidth := v\<rparr>\<rparr>, old\<lparr>rwidth := v\<rparr>)) else (m, old))
      in if rheight (mrect m1) = 0
         then (let v = scaled_size ops (mat_rows ops i) (y_ratio cfg)
               in (m1\<lparr>mrect := (mrect m1)\<lparr>rheight := v\<rparr>\<rparr>, old1\<lparr>rheight := v\<rparr>)) else (m1, old1))"

definition gif_picture ::
  "('r, 'b, 'i, 'd) open_ops \<Rightarrow> 'k open_cfg \<Rightarrow> bool \<Rightarrow> 'i \<Rightarrow> material \<Rightarrow> cv_rect \<Rightarrow> 'i \<times> material \<times> cv_rect" where
  "gif_picture ops cfg on_cpu i m0 old0 =
     (let (m, old) = gif_rects ops cfg i m0 old0
      in if \<not> on_cpu then (i, m, old)
         else (let i1 = resize_to ops (rwidth old) (rheight old) i;
                   i2 = (if faded (opacity m) then fade ops (fop ops (opacity m)) i1 else i1)
               in if turned m
                  then (let (i3, px, py) = RotateMat (frame_ops.truncate ops) i2 (rx old, ry old) (c_rem (rotation m) 360)
                        in (i3, m\<lparr>mrect := \<lparr>rx = px, ry = py, rwidth = mat_cols ops i3, rheight = mat_rows ops i3\<rparr>\<rparr>, old))
                  else (i2, m, old)))"

fun gif_pictures ::
  "('r, 'b, 'i, 'd) open_ops \<Rightarrow> 'k open_cfg \<Rightarrow> bool \<Rightarrow> 'i list \<Rightarrow> 'i list \<Rightarrow> material \<Rightarrow> cv_rect \<Rightarrow> 'i list \<times> material" where
  "gif_pictures ops cfg on_cpu [] done m old = (done, m)"
| "gif_pictures ops cfg on_cpu (i # is) done m old =
     (let (i', m', old') = gif_picture ops cfg on_cpu i m old in gif_pictures ops cfg on_cpu is (i' # done) m' old')"

text \<open>The rate is only logged; \<open>0\<close> stands for one that is not a finite number. The times are
  those of the file, in seconds.\<close>

definition open_gif ::
  "('r, 'b, 'i, 'd) open_ops \<Rightarrow> 'k open_cfg \<Rightarrow> 'i list \<Rightarrow> rat list \<Rightarrow> material \<Rightarrow> 'i materialcontext
     \<Rightarrow> material \<times> 'i materialcontext" where
  "open_gif ops cfg loaded pts m c =
     (let on_cpu = (disable_opengl cfg \<or> length loaded < 100);
          (fs, m1) = gif_pictures ops cfg on_cpu (rev loaded) [] m (mrect m)
      in (if on_cpu then m1\<lparr>opacity := 100, rotation := 0\<rparr> else m1,
          c\<lparr>frames := fs, fps_times := gif_relative_times (rnd ops) pts,
            cw := mat_cols ops (hd fs), ch := mat_rows ops (hd fs),
            cfps := (case gif_timebase (rnd ops) pts of None \<Rightarrow> 0 | Some t \<Rightarrow> f_div (rnd ops) 1000 t),
            ftype := FT_BGRA\<rparr>))"

text \<open>The result code, material and context; no value if decoding does not return. A new material
  has no pictures and no times.\<close>

definition load_gif ::
  "('r, 'b, 'i, 'd) open_ops \<Rightarrow> 'k open_cfg \<Rightarrow> material \<Rightarrow> 'i materialcontext
     \<Rightarrow> (int \<times> material \<times> 'i materialcontext) option" where
  "load_gif ops cfg m c =
     (case decode_gif (rnd ops) (to_bgra ops) (gif_of ops (mpath m)) (webp_of ops (mpath m)) [] [] of
        None \<Rightarrow> None
      | Some (ret, fs, pts) \<Rightarrow>
          if ret \<noteq> 0 \<or> fs = [] then Some (-1, m, c\<lparr>frames := fs\<rparr>)
          else (case open_gif ops cfg fs pts m c of (m', c') \<Rightarrow> Some (0, m', c')))"

section \<open>Images\<close>

definition open_image ::
  "('r, 'b, 'i, 'd) open_ops \<Rightarrow> 'k open_cfg \<Rightarrow> 'i \<Rightarrow> material \<Rightarrow> 'i materialcontext \<Rightarrow> material \<times> 'i materialcontext" where
  "open_image ops cfg img m c =
     (let (i1, ft1) = as_8bit ops img;
          r = fill_rect ops cfg (mat_cols ops i1) (mat_rows ops i1) (mrect m);
          i2 = resize_to ops (rwidth r) (rheight r) i1;
          ft2 = (if faded (opacity m) \<and> mat_channels ops i2 = 3 then FT_BGRA else ft1);
          i3 = fade_image ops (opacity m) i2;
          (i4, r4, ft4) =
            (if turned m
             then (let (i, px, py) = RotateMat (frame_ops.truncate ops) i3 (rx r, ry r) (c_rem (rotation m) 360)
                   in (i, \<lparr>rx = px, ry = py, rwidth = mat_cols ops i, rheight = mat_rows ops i\<rparr>, FT_BGRA))
             else (i3, r, ft2))
      in (m\<lparr>mrect := r4, opacity := 100, rotation := 0\<rparr>,
          c\<lparr>frames := frames c @ [i4], cw := mat_cols ops i4, ch := mat_rows ops i4, cfps := 0, ftype := ft4\<rparr>))"

section \<open>Clocks\<close>

text \<open>The background: its ratios, the size of the clock, the picture.\<close>

definition clock_background ::
  "('r, 'b, 'i, 'd) open_ops \<Rightarrow> 'k open_cfg \<Rightarrow> 'i \<Rightarrow> cv_rect \<Rightarrow> 'i materialcontext \<Rightarrow> 'i \<times> cv_rect \<times> 'i materialcontext" where
  "clock_background ops cfg i r c =
     (if rwidth r \<le> 0 \<or> rheight r \<le> 0
      then (i, r\<lparr>rwidth := scaled_size ops (mat_cols ops i) (x_ratio cfg), rheight := scaled_size ops (mat_rows ops i) (y_ratio cfg)\<rparr>,
            c\<lparr>clock_x_ratio := x_ratio cfg, clock_y_ratio := y_ratio cfg\<rparr>)
      else (resize_to ops (rwidth r) (rheight r) i, r,
            c\<lparr>clock_x_ratio := f_div (rnd ops) (of_int (rwidth r)) (of_int (mat_cols ops i)),
              clock_y_ratio := f_div (rnd ops) (of_int (rheight r)) (of_int (mat_rows ops i))\<rparr>))"

text \<open>A hand is scaled and put on the middle of an empty picture as large as the clock.\<close>

definition clock_hand :: "('r, 'b, 'i, 'd) open_ops \<Rightarrow> 'i \<Rightarrow> cv_rect \<Rightarrow> 'i materialcontext \<Rightarrow> 'i" where
  "clock_hand ops i r c =
     (let i1 = resize_to ops (scaled_size ops (mat_cols ops i) (clock_x_ratio c)) (scaled_size ops (mat_rows ops i) (clock_y_ratio c)) i;
          base = blank ops i1 (rwidth r) (rheight r)
      in put_part ops base i1 (c_div (mat_cols ops base - mat_cols ops i1) 2) (c_div (mat_rows ops base - mat_rows ops i1) 2)
           (mat_cols ops i1) (mat_rows ops i1))"

text \<open>One picture of the four; the new rectangle is only set when a background is turned.\<close>

definition clock_picture ::
  "('r, 'b, 'i, 'd) open_ops \<Rightarrow> 'k open_cfg \<Rightarrow> bool \<Rightarrow> 'i \<Rightarrow> material \<Rightarrow> 'i materialcontext \<Rightarrow> cv_rect
     \<Rightarrow> material \<times> 'i materialcontext \<times> cv_rect" where
  "clock_picture ops cfg first img m c newRect =
     (let (i1, ft) = as_8bit ops img; c1 = c\<lparr>ftype := ft\<rparr>;
          (i2, r, c2) = (if first then clock_background ops cfg i1 (mrect m) c1 else (clock_hand ops i1 (mrect m) c1, mrect m, c1));
          i3 = fade_image ops (opacity m) i2;
          (i4, newRect') =
            (if turned m
             then (let (i, px, py) = RotateMat (frame_ops.truncate ops) i3 (rx r, ry r) (c_rem (rotation m) 360)
                   in (i, if first then \<lparr>rx = px, ry = py, rwidth = mat_cols ops i, rheight = mat_rows ops i\<rparr> else newRect))
             else (i3, newRect))
      in (m\<lparr>mrect := r\<rparr>, c2\<lparr>frames := frames c2 @ [i4]\<rparr>, newRect'))"

fun clock_pictures ::
  "('r, 'b, 'i, 'd) open_ops \<Rightarrow> 'k open_cfg \<Rightarrow> bool \<Rightarrow> string list \<Rightarrow> material \<Rightarrow> 'i materialcontext \<Rightarrow> cv_rect
     \<Rightarrow> bool \<times> material \<times> 'i materialcontext \<times> cv_rect" where
  "clock_pictures ops cfg first [] m c newRect = (True, m, c, newRect)"
| "clock_pictures ops cfg first (s # ss) m c newRect =
     (case imread ops s of
        None \<Rightarrow> (False, m, c, newRect)
      | Some img \<Rightarrow>
          (let (m', c', r') = clock_picture ops cfg first img m c newRect in clock_pictures ops cfg False ss m' c' r'))"

definition open_clock ::
  "('r, 'b, 'i, 'd) open_ops \<Rightarrow> 'k open_cfg \<Rightarrow> material \<Rightarrow> 'i materialcontext \<Rightarrow> int \<times> material \<times> 'i materialcontext" where
  "open_clock ops cfg m c =
     (let strs = splitString (mpath m) CHR '','' in
      if length strs \<noteq> 4 then (-1, m, c)
      else case clock_pictures ops cfg True strs m c (mrect m) of
        (ok, m', c', r) \<Rightarrow>
          if \<not> ok then (-1, m', c')
          else (0, m'\<lparr>mrect := r, rotation := 0, opacity := 100\<rparr>,
                c'\<lparr>ftype := (if mat_channels ops (hd (frames c')) = 3 then FT_BGR else FT_BGRA)\<rparr>))"

section \<open>Video and audio\<close>

text \<open>\<^verbatim>\<open>open_video_reader (const char *, ...)\<close>: a new reader that is opened at once.
  The result is \<open>None\<close> when opening does not return, else the reader or the null pointer.\<close>

definition open_new_reader ::
  "probe \<Rightarrow> media_reader \<Rightarrow> bool \<Rightarrow> bool \<Rightarrow> bool \<Rightarrow> int \<Rightarrow> int \<Rightarrow> string option \<Rightarrow> int \<Rightarrow> int \<Rightarrow> int \<Rightarrow> media_reader option option" where
  "open_new_reader pb r0 stream dv da w h pref fmt chn rate =
     (case new_video_reader r0 stream dv da w h pref fmt chn rate of
        None \<Rightarrow> Some None
      | Some r \<Rightarrow> (case open_video_reader pb r of
            Opened r' \<Rightarrow> Some (Some r')
          | OpenFailed r' \<Rightarrow> Some None
          | OpenHangs \<Rightarrow> None
          | OpenCrashes \<Rightarrow> None))"

definition material_reader :: "'k open_cfg \<Rightarrow> material \<Rightarrow> media_reader option option" where
  "material_reader cfg m =
     (let dv = (mtype m = MT_Video); da = (volume m > 0); st = is_stream_path (mpath m);
          w = rwidth (mrect m); h = rheight (mrect m)
      in if mtype m = MT_MainAudio
         then open_new_reader (probe_of cfg (mpath m)) (reader0 cfg) st dv da w h (Some ''speed'') (oc_bgr24 cfg)
                (out_channel cfg) (out_samplerate cfg)
         else Some (new_video_reader (reader0 cfg) st dv da w h (Some ''speed'') (oc_bgr24 cfg)
                (out_channel cfg) (out_samplerate cfg)))"

definition other_product :: "'k open_cfg \<Rightarrow> material \<Rightarrow> bool" where
  "other_product cfg m \<longleftrightarrow> product_id m > 0 \<and> cur_product cfg > 0 \<and> product_id m \<noteq> cur_product cfg"

definition start_material :: "'k open_cfg \<Rightarrow> material \<Rightarrow> 'k \<Rightarrow> 'k media_world \<Rightarrow> 'k media_world" where
  "start_material cfg m k w =
     (let fl = (if check_is_stream m then stream_buffer_size cfg else 0)
      in w\<lparr>mw_decoders :=
             snd ((if other_product cfg m then stop_video_decoder_thread else start_video_decoder_thread)
                    (Some k) AV_STREAMING fl (mw_decoders w))\<rparr>)"

definition open_media ::
  "'k open_cfg \<Rightarrow> ('i, 'k) medium \<Rightarrow> 'k media_world \<Rightarrow> (int \<times> ('i, 'k) medium \<times> 'k media_world) option" where
  "open_media cfg md w =
     (let m = md_mat md in
      case material_reader cfg m of
        None \<Rightarrow> None
      | Some None \<Rightarrow>
          Some (-1, md\<lparr>md_reader := None\<rparr>,
            if check_is_stream m then w\<lparr>mw_events := mw_events w @ [(ET_STREAM_NONEXIST, ''Stream not found'')]\<rparr> else w)
      | Some (Some r) \<Rightarrow>
          let k = fresh cfg (dom (mw_readers w));
              r' = (if mtype m \<noteq> MT_MainAudio \<and> check_is_audio m then r\<lparr>ff_fps := oc_fps cfg\<rparr> else r);
              w1 = w\<lparr>mw_readers := (mw_readers w)(k \<mapsto> r')\<rparr>;
              c1 = (md_ctx md)\<lparr>bufindex := 0, frames := []\<rparr>;
              c2 = (if mtype m = MT_Video then c1\<lparr>ftype := FT_BGR, cfps := 0\<rparr> else c1\<lparr>cfps := oc_fps cfg\<rparr>)
          in Some (0, md\<lparr>md_ctx := c2, md_reader := Some k, md_audio := [], md_audindex := -1\<rparr>,
               if mtype m = MT_MainAudio then w1\<lparr>mw_main := Some k\<rparr> else start_material cfg m k w1))"

section \<open>The dispatch and the loop\<close>

definition open_text ::
  "('r, 'b, 'i, 'd) open_ops \<Rightarrow> material \<Rightarrow> 'i materialcontext \<Rightarrow> material \<times> 'i materialcontext" where
  "open_text ops m c =
     (case get_text_image (frame_ops.truncate ops) (replace_all (replace_all (mtext m) ''%20%'' '' '') ''%c%'' '':'') m c of
        (m', c') \<Rightarrow> (m', c'\<lparr>cfps := 0\<rparr>))"

definition with_pictures :: "('i, 'k) medium \<Rightarrow> int \<times> material \<times> 'i materialcontext \<Rightarrow> int \<times> ('i, 'k) medium" where
  "with_pictures md res = (case res of (ret, m, c) \<Rightarrow> (ret, md\<lparr>md_mat := m, md_ctx := c\<rparr>))"

definition open_by_type ::
  "('r, 'b, 'i, 'd) open_ops \<Rightarrow> 'k open_cfg \<Rightarrow> ('i, 'k) medium \<Rightarrow> 'k media_world
     \<Rightarrow> (int \<times> ('i, 'k) medium \<times> 'k media_world) option" where
  "open_by_type ops cfg md w =
     (let m = md_mat md; c = md_ctx md;
          pictures = map_option (\<lambda>res. case with_pictures md res of (ret, md') \<Rightarrow> (ret, md', w))
      in case mtype m of
           MT_Gif \<Rightarrow> pictures (load_gif ops cfg m c)
         | MT_Audio \<Rightarrow> open_media cfg md w
         | MT_Video \<Rightarrow> open_media cfg md w
         | MT_MainAudio \<Rightarrow> if raw_mainaudio cfg then Some (0, md, w) else open_media cfg md w
         | MT_Text \<Rightarrow> pictures (Some (0, open_text ops m c))
         | MT_Image \<Rightarrow> (case imread ops (mpath m) of
               Some img \<Rightarrow> pictures (Some (0, open_image ops cfg img m c))
             | None \<Rightarrow> pictures (map_option (\<lambda>(ret, m', c'). (ret, if ret = 0 then m'\<lparr>mtype := MT_Gif\<rparr> else m', c')) (load_gif ops cfg m c)))
         | MT_Clock \<Rightarrow> pictures (Some (open_clock ops cfg m c))
         | _ \<Rightarrow> pictures (Some (0, m, c\<lparr>cw := 0, ch := 0, cfps := 0, ftype := FT_None\<rparr>)))"

text \<open>What is done for every material that was opened.\<close>

definition finish_open :: "('r, 'b, 'i, 'd) open_ops \<Rightarrow> 'k open_cfg \<Rightarrow> ('i, 'k) medium \<Rightarrow> ('i, 'k) medium" where
  "finish_open ops cfg md =
     (let c = md_ctx md; m = md_mat md
      in md\<lparr>md_ctx := c\<lparr>cts := 0, tstep := (if cfps c \<noteq> 0 then f_div (rnd ops) 1000 (cfps c) else 0)\<rparr>,
            md_mat := m\<lparr>glTexture := 0, mrect := fill_rect ops cfg (cw c) (ch c) (mrect m)\<rparr>\<rparr>)"

definition open_material ::
  "('r, 'b, 'i, 'd) open_ops \<Rightarrow> 'k open_cfg \<Rightarrow> ('i, 'k) medium \<Rightarrow> 'k media_world
     \<Rightarrow> (int \<times> ('i, 'k) medium \<times> 'k media_world) option" where
  "open_material ops cfg md w =
     (case open_by_type ops cfg md w of
        None \<Rightarrow> None
      | Some (ret, md', w') \<Rightarrow> if ret \<noteq> 0 then Some (-1, md', w') else Some (0, finish_open ops cfg md', w'))"

fun open_materials ::
  "('r, 'b, 'i, 'd) open_ops \<Rightarrow> 'k open_cfg \<Rightarrow> ('i, 'k) medium list \<Rightarrow> 'k media_world
     \<Rightarrow> (int \<times> ('i, 'k) medium list \<times> 'k media_world) option" where
  "open_materials ops cfg [] w = Some (0, [], w)"
| "open_materials ops cfg (md # mds) w =
     (case open_material ops cfg md w of
        None \<Rightarrow> None
      | Some (ret, md', w') \<Rightarrow>
          if ret \<noteq> 0 then Some (-1, md' # mds, w')
          else map_option (\<lambda>(ret, mds', w''). (ret, md' # mds', w'')) (open_materials ops cfg mds w'))"

end
