(* ===== verification/Gif_Decode_Thms.thy ===== *)
theory Gif_Decode_Thms
  imports Gif_Decode Frame_Read
begin

text \<open>
  What decoding an animated picture gives: as many times as pictures, for a sound file all its
  pictures in order; an error of the scaler that is forgotten, and a webp file that is decoded
  for ever.
\<close>

section \<open>Pictures and times\<close>

lemma receive_pictures_length:
  "receive_pictures r bgra tb ps fs pts = (e, held, fs', pts') \<Longrightarrow> length pts = length fs \<Longrightarrow> length pts' = length fs'"
  by (induction r bgra tb ps fs pts rule: receive_pictures.induct) (auto split: option.splits)

lemma gif_loop_length:
  "gif_loop r bgra tb idx ps held fs pts = (ret, fs', pts') \<Longrightarrow> length pts = length fs \<Longrightarrow> length pts' = length fs'"
proof (induction r bgra tb idx ps held fs pts rule: gif_loop.induct)
  case (2 r bgra tb idx p ps held fs pts)
  obtain e held1 fs1 pts1 where s: "receive_pictures r bgra tb (held @ gp_pictures p) fs pts = (e, held1, fs1, pts1)"
    by (metis prod_cases4)
  from receive_pictures_length [OF s] 2 s show ?case by (auto split: if_splits)
qed simp

text \<open>A webp decoder that gives the pictures \<open>xs\<close> and then says that none is left.\<close>

inductive webp_gives :: "('i, 'd) webp_source \<Rightarrow> 'd \<Rightarrow> ('i \<times> int) list \<Rightarrow> bool" for ws where
  no_more: "\<not> ws_more ws d \<Longrightarrow> webp_gives ws d []"
| picture: "ws_more ws d \<Longrightarrow> ws_next ws d = (Some x, d') \<Longrightarrow> webp_gives ws d' xs \<Longrightarrow> webp_gives ws d (x # xs)"

lemma webp_loop_pictures:
  "webp_gives ws d xs \<Longrightarrow> webp_loop r bgra ws d fs pts =
     Some (fs @ map (bgra \<circ> fst) xs, pts @ map (\<lambda>x. f_mul r (of_int (snd x)) (r (1 / 1000))) xs)"
proof (induction arbitrary: fs pts rule: webp_gives.induct)
  case (no_more d)
  then show ?case by (subst webp_loop.simps) simp
next
  case (picture d x d' xs)
  then show ?case by (subst webp_loop.simps) (cases x, simp)
qed

lemma webp_loop_length:
  fixes ws :: "('i, 'd) webp_source"
  assumes "webp_loop r bgra ws d fs pts = Some (fs', pts')" "length pts = length fs"
  shows "length pts' = length fs'"
proof -
  have "length pts = length fs \<longrightarrow> length (snd y) = length (fst y)" if "webp_loop r bgra ws d fs pts = Some y"
    for r bgra and ws :: "('i, 'd) webp_source" and d fs pts y
  proof (rule webp_loop.raw_induct
      [where P = "\<lambda>r bgra ws d fs pts y. length pts = length fs \<longrightarrow> length (snd y) = length (fst y)", OF _ that])
    fix f :: "rounding \<Rightarrow> ('i \<Rightarrow> 'i) \<Rightarrow> ('i, 'd) webp_source \<Rightarrow> 'd \<Rightarrow> 'i list \<Rightarrow> rat list \<Rightarrow> ('i list \<times> rat list) option"
    fix r bgra and ws :: "('i, 'd) webp_source" and d fs pts y
    assume ih: "\<And>r bgra ws d fs pts y. f r bgra ws d fs pts = Some y
        \<Longrightarrow> length pts = length fs \<longrightarrow> length (snd y) = length (fst y)"
    assume "(if ws_more ws d
      then case ws_next ws d of
             (None, d') \<Rightarrow> f r bgra ws d' fs pts
           | (Some (i, timestamp), d') \<Rightarrow>
               f r bgra ws d' (fs @ [bgra i]) (pts @ [f_mul r (of_int timestamp) (r (1 / 1000))])
      else Some (fs, pts)) = Some y"
    then show "length pts = length fs \<longrightarrow> length (snd y) = length (fst y)"
      by (auto split: if_splits prod.splits option.splits dest: ih)
  qed
  with assms show ?thesis by fastforce
qed

lemma decode_gif_length:
  assumes "decode_gif r bgra gs ws [] [] = Some (ret, fs, pts)"
  shows "length pts = length fs"
  using assms webp_loop_length [of r bgra ws _ "[]" "[]"] gif_loop_length [of r bgra _ _ "gs_packets gs" "[]" "[]" "[]"]
  by (auto simp: decode_gif_def decode_webp_def split: if_splits option.splits)

section \<open>A sound file\<close>

definition own_pictures :: "int \<Rightarrow> 'i gif_packet list \<Rightarrow> ('i option \<times> int) list" where
  "own_pictures idx ps = concat (map gp_pictures (filter (\<lambda>p. gp_stream p = idx) ps))"

lemma receive_pictures_all:
  "\<forall>x \<in> set ps. fst x \<noteq> None \<Longrightarrow> receive_pictures r bgra tb ps fs pts =
     (False, [], fs @ map (\<lambda>x. bgra (the (fst x))) ps, pts @ map (\<lambda>x. f_mul r (of_int (snd x)) tb) ps)"
  by (induction r bgra tb ps fs pts rule: receive_pictures.induct) auto

lemma gif_loop_all:
  "\<forall>p \<in> set ps. gp_stream p = idx \<longrightarrow> gp_sent p \<and> (\<forall>x \<in> set (gp_pictures p). fst x \<noteq> None) \<Longrightarrow>
   gif_loop r bgra tb idx ps [] fs pts =
     (0, fs @ map (\<lambda>x. bgra (the (fst x))) (own_pictures idx ps),
         pts @ map (\<lambda>x. f_mul r (of_int (snd x)) tb) (own_pictures idx ps))"
proof (induction ps arbitrary: fs pts)
  case (Cons p ps)
  then show ?case
    using receive_pictures_all [of "gp_pictures p" r bgra tb fs pts]
    by (cases "gp_stream p = idx") (auto simp: own_pictures_def)
qed (simp add: own_pictures_def)

text \<open>Only a time of the file that comes before the last one is a duration of the picture with
  it: the duration of a picture after the first is the distance to the picture before. For a gif,
  whose times are those at which pictures begin, that is the duration of its predecessor.\<close>

lemma time_diffs_nth:
  "i < length xs \<Longrightarrow> time_diffs r p xs ! i = Some (f_mul r (f_sub r (xs ! i) ((p # xs) ! i)) 1000)"
proof (induction r p xs arbitrary: i rule: time_diffs.induct)
  case (2 r p x xs)
  then show ?case by (cases i) auto
qed simp

lemma gif_times_length: "length (gif_relative_times r pts) = length pts"
proof -
  have "length (time_diffs r p xs) = length xs" for p xs by (induction r p xs rule: time_diffs.induct) auto
  then show ?thesis by (simp add: gif_relative_times_def split: list.splits)
qed

lemma gif_picture_lasts_like_previous:
  assumes "0 < i" "i < length pts"
  shows "gif_relative_times r pts ! i = Some (f_mul r (f_sub r (pts ! i) (pts ! (i - 1))) 1000)"
  using assms time_diffs_nth [of "i - 1" "tl pts" r "hd pts"]
  by (cases pts; cases i) (auto simp: gif_relative_times_def)

section \<open>Errors\<close>

text \<open>A picture that cannot be scaled is left out and decoding goes on; at the end of the file
  the result is success.\<close>

lemma scaler_error_forgotten:
  "gif_loop r bgra tb idx [\<lparr>gp_stream = idx, gp_sent = True, gp_pictures = [(Some x, t), (None, t')]\<rparr>] [] [] []
     = (0, [bgra x], [f_mul r (of_int t) tb])"
  by simp

text \<open>A webp picture that cannot be decoded stays the next one: the decoder still has pictures
  and gives none, and the loop never ends.\<close>

definition webp_stuck :: "('i, 'd) webp_source \<Rightarrow> 'd \<Rightarrow> bool" where
  "webp_stuck ws d \<longleftrightarrow> ws_more ws d \<and> ws_next ws d = (None, d)"

lemma webp_error_hangs:
  fixes ws :: "('i, 'd) webp_source"
  assumes "ws_more ws d" "ws_next ws d = (None, d)"
  shows "webp_loop r bgra ws d fs pts = None"
proof -
  have never: "\<not> webp_stuck ws d" if "webp_loop r bgra ws d fs pts = Some y"
    for r bgra and ws :: "('i, 'd) webp_source" and d fs pts y
  proof (rule webp_loop.raw_induct [where P = "\<lambda>r bgra ws d fs pts y. \<not> webp_stuck ws d", OF _ that])
    fix f :: "rounding \<Rightarrow> ('i \<Rightarrow> 'i) \<Rightarrow> ('i, 'd) webp_source \<Rightarrow> 'd \<Rightarrow> 'i list \<Rightarrow> rat list \<Rightarrow> ('i list \<times> rat list) option"
    fix r bgra and ws :: "('i, 'd) webp_source" and d fs pts y
    assume ih: "\<And>r bgra ws d fs pts y. f r bgra ws d fs pts = Some y \<Longrightarrow> \<not> webp_stuck ws d"
    assume "(if ws_more ws d
      then case ws_next ws d of
             (None, d') \<Rightarrow> f r bgra ws d' fs pts
           | (Some (i, timestamp), d') \<Rightarrow>
               f r bgra ws d' (fs @ [bgra i]) (pts @ [f_mul r (of_int timestamp) (r (1 / 1000))])
      else Some (fs, pts)) = Some y"
    moreover have "\<not> webp_stuck ws d" if "f r bgra ws d fs pts = Some y" by (rule ih [OF that])
    ultimately show "\<not> webp_stuck ws d" by (auto simp: webp_stuck_def)
  qed
  have "webp_stuck ws d" using assms by (simp add: webp_stuck_def)
  with never show ?thesis by (cases "webp_loop r bgra ws d fs pts") blast+
qed

end
