(* ===== verification/Open_Materials_Thms.thy ===== *)
theory Open_Materials_Thms
  imports Open_Materials Gif_Decode_Thms Frame_Read_Thms Ff_Open_Thms Material_Parse_Thms
begin

text \<open>
  What opening materials promises: an opened picture material shows a picture, its pictures have
  the size of its rectangle, and every opened video or audio has a reader of its own and a
  decoder thread that runs unless the material belongs to another product.
\<close>

section \<open>Pictures\<close>

lemma gif_pictures_length:
  "gif_pictures ops cfg b is done m old = (fs, m') \<Longrightarrow> length fs = length is + length done"
  by (induction ops cfg b "is" "done" m old rule: gif_pictures.induct) (auto split: prod.splits)

lemma load_gif_opened:
  assumes "load_gif ops cfg m c = Some (0, m', c')"
  obtains fs pts where "fs \<noteq> []" "length pts = length fs" "open_gif ops cfg fs pts m c = (m', c')"
  using assms decode_gif_length [of "rnd ops" "to_bgra ops" "gif_of ops (mpath m)" "webp_of ops (mpath m)"]
  by (fastforce simp: load_gif_def split: option.splits if_splits prod.splits)

lemma open_gif_context:
  assumes "open_gif ops cfg fs pts m c = (m', c')"
  shows "length (frames c') = length fs" "fps_times c' = gif_relative_times (rnd ops) pts" "mtype m' = mtype m"
proof -
  obtain fs' m1 where g: "gif_pictures ops cfg (disable_opengl cfg \<or> length fs < 100) (rev fs) [] m (mrect m) = (fs', m1)"
    by fastforce
  have t: "mtype m1 = mtype m"
  proof -
    have "mtype m1 = mtype m" if "gif_pictures ops cfg b is dn m old = (fs', m1)" for b "is" dn m old
      using that
    proof (induction "is" arbitrary: dn m old)
      case (Cons i "is")
      obtain i' m2 old2 where p: "gif_picture ops cfg b i m old = (i', m2, old2)" by (metis prod_cases3)
      then have "mtype m2 = mtype m" by (auto simp: gif_picture_def gif_rects_def Let_def split: if_splits prod.splits)
      with Cons p show ?case by auto
    qed simp
    from this [OF g] show ?thesis .
  qed
  show "length (frames c') = length fs" "fps_times c' = gif_relative_times (rnd ops) pts" "mtype m' = mtype m"
    using assms gif_pictures_length [OF g] t by (auto simp: open_gif_def g)
qed

lemma clock_pictures_length:
  "clock_pictures ops cfg first ss m c r = (True, m', c', r') \<Longrightarrow> length (frames c') = length (frames c) + length ss \<and> mtype m' = mtype m"
proof (induction ss arbitrary: first m c r)
  case (Cons s ss)
  obtain img where img: "imread ops s = Some img" using Cons.prems by (cases "imread ops s") auto
  obtain m1 c1 r1 where p: "clock_picture ops cfg first img m c r = (m1, c1, r1)" by (metis prod_cases3)
  have "length (frames c1) = length (frames c) + 1 \<and> mtype m1 = mtype m"
    using p by (auto simp: clock_picture_def clock_background_def Let_def split: if_splits prod.splits)
  then show ?case using Cons img p by fastforce
qed simp

lemma read_finished:
  "frames (md_ctx (finish_open ops cfg md)) = frames (md_ctx md)" "fps_times (md_ctx (finish_open ops cfg md)) = fps_times (md_ctx md)"
  "mtype (md_mat (finish_open ops cfg md)) = mtype (md_mat md)"
  by (simp_all add: finish_open_def Let_def)

definition has_pictures :: "('i, 'k) medium \<Rightarrow> bool" where
  "has_pictures md \<longleftrightarrow>
     (case mtype (md_mat md) of
        MT_Image \<Rightarrow> frames (md_ctx md) \<noteq> [] | MT_Text \<Rightarrow> frames (md_ctx md) \<noteq> []
      | MT_Clock \<Rightarrow> length (frames (md_ctx md)) = 4
      | MT_Gif \<Rightarrow> frames (md_ctx md) \<noteq> [] \<and> length (fps_times (md_ctx md)) = length (frames (md_ctx md))
      | _ \<Rightarrow> False)"

lemma gif_has_pictures:
  assumes "load_gif ops cfg m c = Some (0, m', c')" "mtype (md_mat md) = MT_Gif" "md_ctx md = c'"
  shows "has_pictures md"
proof -
  obtain fs pts where o: "fs \<noteq> []" "length pts = length fs" "open_gif ops cfg fs pts m c = (m', c')"
    using load_gif_opened [OF assms(1)] .
  note l = open_gif_context [OF o(3)]
  have "frames c' \<noteq> []" "length (fps_times c') = length (frames c')"
    using l(1,2) o(1,2) by (auto simp: gif_times_length)
  then show ?thesis using assms(2,3) by (simp add: has_pictures_def)
qed

lemma open_material_has_pictures:
  assumes "open_material ops cfg md w = Some (0, md', w')" "frames (md_ctx md) = []"
    and "mtype (md_mat md) \<in> {MT_Image, MT_Text, MT_Gif, MT_Clock}"
  shows "has_pictures md'"
proof -
  obtain md1 where b: "open_by_type ops cfg md w = Some (0, md1, w')" "md' = finish_open ops cfg md1"
    using assms(1) by (auto simp: open_material_def split: option.splits prod.splits if_splits)
  have "has_pictures md1"
  proof (cases "mtype (md_mat md)")
    case MT_Gif
    then obtain m' c' where l: "load_gif ops cfg (md_mat md) (md_ctx md) = Some (0, m', c')" and
      "md1 = md\<lparr>md_mat := m', md_ctx := c'\<rparr>"
      using b(1) by (auto simp: open_by_type_def Let_def with_pictures_def)
    moreover from this have "mtype m' = MT_Gif"
      using load_gif_opened open_gif_context(3) MT_Gif by metis
    ultimately show ?thesis using gif_has_pictures [OF l, of md1] by simp
  next
    case MT_Image
    show ?thesis
    proof (cases "imread ops (mpath (md_mat md))")
      case None
      then obtain m' c' where l: "load_gif ops cfg (md_mat md) (md_ctx md) = Some (0, m', c')" and
        "md1 = md\<lparr>md_mat := m'\<lparr>mtype := MT_Gif\<rparr>, md_ctx := c'\<rparr>"
        using b(1) MT_Image by (auto simp: open_by_type_def Let_def with_pictures_def)
      then show ?thesis using gif_has_pictures [OF l, of md1] by simp
    next
      case (Some img)
      then have "md1 = snd (with_pictures md (0, open_image ops cfg img (md_mat md) (md_ctx md)))"
        using b(1) MT_Image by (auto simp: open_by_type_def Let_def split: prod.splits)
      then show ?thesis using MT_Image
        by (simp add: has_pictures_def with_pictures_def open_image_def Let_def split: prod.splits)
    qed
  next
    case MT_Text
    then have "md1 = snd (with_pictures md (0, open_text ops (md_mat md) (md_ctx md)))"
      using b(1) by (auto simp: open_by_type_def Let_def split: prod.splits)
    then show ?thesis using MT_Text
      by (simp add: has_pictures_def with_pictures_def open_text_def get_text_image_def Let_def split: prod.splits)
  next
    case MT_Clock
    then obtain m' c' where o: "open_clock ops cfg (md_mat md) (md_ctx md) = (0, m', c')" "md1 = md\<lparr>md_mat := m', md_ctx := c'\<rparr>"
      using b(1) by (auto simp: open_by_type_def Let_def with_pictures_def split: prod.splits)
    then obtain m2 c2 r where "length (splitString (mpath (md_mat md)) CHR '','') = 4"
      "clock_pictures ops cfg True (splitString (mpath (md_mat md)) CHR '','') (md_mat md) (md_ctx md) (mrect (md_mat md)) = (True, m2, c2, r)"
      "mtype m' = mtype m2" "frames c' = frames c2"
      by (auto simp: open_clock_def Let_def split: if_splits prod.splits)
    with clock_pictures_length assms(2) MT_Clock o(2) show ?thesis
      by (fastforce simp: has_pictures_def)
  qed (use assms(3) in auto)
  then show ?thesis by (simp add: b(2) has_pictures_def read_finished cong: material_type.case_cong)
qed


section \<open>The size of the pictures\<close>

text \<open>What OpenCV promises of sizes: resizing gives the size asked for, fading and converting keep
  it, how large a turned picture is depends only on its size. And no picture is so small that
  nothing of it is left on the output.\<close>

definition sizes_ok :: "('r, 'b, 'i, 'd) open_ops \<Rightarrow> 'k open_cfg \<Rightarrow> bool" where
  "sizes_ok ops cfg \<longleftrightarrow>
     (\<forall>i w h. 0 < w \<and> 0 < h \<longrightarrow> mat_size ops (mat_resize ops i w h) = (w, h))
     \<and> (\<forall>i q. mat_size ops (mat_scale8 ops i) = mat_size ops i \<and> mat_size ops (fade ops q i) = mat_size ops i
          \<and> mat_size ops (give_alpha ops q i) = mat_size ops i)
     \<and> (\<forall>i j d. mat_size ops i = mat_size ops j \<longrightarrow> mat_size ops (rotate_mat ops d i) = mat_size ops (rotate_mat ops d j))
     \<and> (\<forall>i. 0 < mat_cols ops i \<and> 0 < mat_rows ops i
          \<and> 0 < scaled_size ops (mat_cols ops i) (x_ratio cfg) \<and> 0 < scaled_size ops (mat_rows ops i) (y_ratio cfg))"

definition rect_size :: "cv_rect \<Rightarrow> int \<times> int" where "rect_size r = (rwidth r, rheight r)"

definition shown_rect :: "cv_rect \<Rightarrow> bool" where "shown_rect r \<longleftrightarrow> 0 < rwidth r \<and> 0 < rheight r"

lemma scaled_pos:
  "sizes_ok ops cfg \<Longrightarrow> 0 < scaled_size ops (mat_cols ops i) (x_ratio cfg)"
  "sizes_ok ops cfg \<Longrightarrow> 0 < scaled_size ops (mat_rows ops i) (y_ratio cfg)"
  by (simp_all add: sizes_ok_def)

lemma fill_rect_id: "shown_rect r \<Longrightarrow> fill_rect ops cfg w h r = r"
  by (simp add: fill_rect_def shown_rect_def)

lemma fill_rect_shown:
  assumes "sizes_ok ops cfg" "0 \<le> rwidth r" "0 \<le> rheight r"
  shows "shown_rect (fill_rect ops cfg (mat_cols ops i) (mat_rows ops i) r)"
  using assms by (auto simp: fill_rect_def shown_rect_def sizes_ok_def)

lemma resize_to_size:
  assumes "sizes_ok ops cfg" "shown_rect r"
  shows "mat_size ops (resize_to ops (rwidth r) (rheight r) i) = rect_size r"
  using assms by (auto simp: resize_to_def rect_size_def shown_rect_def sizes_ok_def mat_size_def)

lemma fade_image_size: "sizes_ok ops cfg \<Longrightarrow> mat_size ops (fade_image ops op i) = mat_size ops i"
  by (simp add: fade_image_def sizes_ok_def)

lemma picture_shown: "sizes_ok ops cfg \<Longrightarrow> rect_size r = mat_size ops i \<Longrightarrow> shown_rect r"
  by (simp add: sizes_ok_def rect_size_def shown_rect_def mat_size_def)

text \<open>The picture turned, whatever its place.\<close>

definition turn_angle :: "int \<Rightarrow> int" where
  "turn_angle d = (if c_rem d 90 = 0 then c_rem d 360 else d)"

lemma RotateMat_picture: "fst (RotateMat (frame_ops.truncate ops) i pos d) = rotate_mat ops (turn_angle d) i"
  by (simp add: RotateMat_def turn_angle_def Let_def frame_ops.truncate_def)

text \<open>The size that the pictures of a gif get.\<close>

definition gif_target :: "('r, 'b, 'i, 'd) open_ops \<Rightarrow> material \<Rightarrow> cv_rect \<Rightarrow> int \<times> int \<Rightarrow> bool" where
  "gif_target ops m old sz \<longleftrightarrow>
     (if turned m then (\<forall>j. mat_size ops j = rect_size old \<longrightarrow>
          mat_size ops (rotate_mat ops (turn_angle (c_rem (rotation m) 360)) j) = sz)
      else sz = rect_size old)"

lemma gif_target_cong: "rotation m' = rotation m \<Longrightarrow> gif_target ops m' old sz = gif_target ops m old sz"
  by (simp add: gif_target_def turned_def)

lemma gif_picture_size:
  assumes ok: "sizes_ok ops cfg" and t: "gif_target ops m old sz" and r: "shown_rect old" "shown_rect (mrect m)"
    and n: "\<not> turned m \<Longrightarrow> rect_size (mrect m) = rect_size old"
    and p: "gif_picture ops cfg True i m old = (i', m', old')"
  shows "mat_size ops i' = sz \<and> rect_size (mrect m') = sz \<and> old' = old \<and> rotation m' = rotation m"
proof -
  let ?f = "(if faded (opacity m) then fade ops (fop ops (opacity m)) (resize_to ops (rwidth old) (rheight old) i)
      else resize_to ops (rwidth old) (rheight old) i)"
  have s: "mat_size ops ?f = rect_size old"
    using resize_to_size [OF ok r(1), of i] ok by (simp add: sizes_ok_def)
  have z: "rwidth (mrect m) \<noteq> 0" "rheight (mrect m) \<noteq> 0" using r(2) by (auto simp: shown_rect_def)
  show ?thesis
  proof (cases "turned m")
    case False
    then show ?thesis using p z s t n by (auto simp: gif_picture_def gif_rects_def gif_target_def Let_def)
  next
    case True
    obtain i3 px py where rot: "RotateMat (frame_ops.truncate ops) ?f (rx old, ry old) (c_rem (rotation m) 360) = (i3, px, py)"
      by (metis prod_cases3)
    then have "i3 = rotate_mat ops (turn_angle (c_rem (rotation m) 360)) ?f"
      using RotateMat_picture [of ops ?f] by (metis fst_conv)
    then have i3: "mat_size ops i3 = sz" using t s True by (simp only: gif_target_def if_True)
    have "i' = i3" "mrect m' = \<lparr>rx = px, ry = py, rwidth = mat_cols ops i3, rheight = mat_rows ops i3\<rparr>" "old' = old" "rotation m' = rotation m"
      using p z rot True by (auto simp: gif_picture_def gif_rects_def Let_def split: if_splits)
    then show ?thesis using i3 by (simp add: rect_size_def mat_size_def)
  qed
qed

lemma gif_pictures_size:
  assumes ok: "sizes_ok ops cfg" and "shown_rect old" "fst sz > 0" "snd sz > 0"
  shows "\<lbrakk>gif_pictures ops cfg True is dn m old = (fs, m'); gif_target ops m old sz; rect_size (mrect m) = sz;
     \<forall>x \<in> set dn. mat_size ops x = sz\<rbrakk> \<Longrightarrow> (\<forall>x \<in> set fs. mat_size ops x = sz) \<and> rect_size (mrect m') = sz"
proof (induction "is" arbitrary: dn m)
  case (Cons i "is")
  obtain i1 m1 old1 where p: "gif_picture ops cfg True i m old = (i1, m1, old1)" by (metis prod_cases3)
  have "shown_rect (mrect m)" using Cons.prems(3) assms(3,4) by (auto simp: shown_rect_def rect_size_def)
  moreover have "\<not> turned m \<Longrightarrow> rect_size (mrect m) = rect_size old"
    using Cons.prems(2,3) by (simp add: gif_target_def)
  ultimately have s: "mat_size ops i1 = sz" "rect_size (mrect m1) = sz" "old1 = old" "rotation m1 = rotation m"
    using gif_picture_size [OF ok Cons.prems(2) assms(2) _ _ p] by auto
  have "gif_target ops m1 old sz" by (rule iffD2 [OF gif_target_cong [OF s(4)] Cons.prems(2)])
  then show ?case using Cons.IH [of "i1 # dn" m1] Cons.prems p s by auto
qed simp

lemma gif_picture_filled:
  assumes "sizes_ok ops cfg" "r = fill_rect ops cfg (mat_cols ops i) (mat_rows ops i) (mrect m)"
  shows "gif_picture ops cfg b i m (mrect m) = gif_picture ops cfg b i (m\<lparr>mrect := r\<rparr>) r"
proof -
  have z: "scaled_size ops (mat_cols ops i) (x_ratio cfg) \<noteq> 0" "scaled_size ops (mat_rows ops i) (y_ratio cfg) \<noteq> 0"
    using scaled_pos [OF assms(1), of i] by simp_all
  have "gif_rects ops cfg i m (mrect m) = (m\<lparr>mrect := r\<rparr>, r)"
    using z unfolding assms(2) by (simp add: gif_rects_def fill_rect_def Let_def)
  moreover have "rwidth r \<noteq> 0" "rheight r \<noteq> 0" using z unfolding assms(2) by (simp_all add: fill_rect_def Let_def)
  then have "gif_rects ops cfg i (m\<lparr>mrect := r\<rparr>) r = (m\<lparr>mrect := r\<rparr>, r)" by (simp add: gif_rects_def)
  ultimately show ?thesis by (simp only: gif_picture_def)
qed

lemma open_gif_fits:
  assumes ok: "sizes_ok ops cfg" and cpu: "disable_opengl cfg" and ne: "fs \<noteq> []"
    and r0: "0 \<le> rwidth (mrect m)" "0 \<le> rheight (mrect m)" and o: "open_gif ops cfg fs pts m c = (m', c')"
  shows "\<forall>x \<in> set (frames c'). mat_size ops x = rect_size (mrect m')" "shown_rect (mrect m')"
proof -
  obtain i "is" where l: "rev fs = i # is" using ne by (cases "rev fs") auto
  let ?r = "fill_rect ops cfg (mat_cols ops i) (mat_rows ops i) (mrect m)"
  let ?m = "m\<lparr>mrect := ?r\<rparr>"
  have sh: "shown_rect ?r" using fill_rect_shown [OF ok r0] .
  obtain i1 m1 old1 where p: "gif_picture ops cfg True i m (mrect m) = (i1, m1, old1)" by (metis prod_cases3)
  then have p': "gif_picture ops cfg True i ?m ?r = (i1, m1, old1)" using gif_picture_filled [OF ok refl, of True i m] by simp
  obtain sz where t: "gif_target ops ?m ?r sz"
  proof (cases "turned ?m")
    case True
    let ?j = "resize_to ops (rwidth ?r) (rheight ?r) i"
    have "gif_target ops ?m ?r (mat_size ops (rotate_mat ops (turn_angle (c_rem (rotation ?m) 360)) ?j))"
      using True ok resize_to_size [OF ok sh, of i] unfolding gif_target_def sizes_ok_def by simp
    then show thesis by (rule that)
  next
    case False
    then show thesis using that [of "rect_size ?r"] by (simp add: gif_target_def)
  qed
  have s: "mat_size ops i1 = sz" "rect_size (mrect m1) = sz" "old1 = ?r" "rotation m1 = rotation ?m"
    using gif_picture_size [OF ok t sh _ _ p'] sh by auto
  have pos: "fst sz > 0" "snd sz > 0" using s(1) ok by (auto simp: mat_size_def sizes_ok_def)
  have t1: "gif_target ops m1 ?r sz" by (rule iffD2 [OF gif_target_cong [OF s(4)] t])
  obtain fs2 m2 where g: "gif_pictures ops cfg True is [i1] m1 ?r = (fs2, m2)" by fastforce
  note z = gif_pictures_size [OF ok sh pos g t1 s(2)]
  have "frames c' = fs2" "mrect m' = mrect m2"
    using o l p g s(3) cpu by (auto simp: open_gif_def)
  then show "\<forall>x \<in> set (frames c'). mat_size ops x = rect_size (mrect m')" "shown_rect (mrect m')"
    using z s(1) picture_shown [OF ok, of "mrect m2" i1] by auto
qed

lemma open_image_fits:
  assumes ok: "sizes_ok ops cfg" and e: "frames c = []"
    and r0: "0 \<le> rwidth (mrect m)" "0 \<le> rheight (mrect m)" and o: "open_image ops cfg img m c = (m', c')"
  shows "\<forall>x \<in> set (frames c'). mat_size ops x = rect_size (mrect m')" "shown_rect (mrect m')"
proof -
  let ?i1 = "fst (as_8bit ops img)"
  let ?r = "fill_rect ops cfg (mat_cols ops ?i1) (mat_rows ops ?i1) (mrect m)"
  let ?i3 = "fade_image ops (opacity m) (resize_to ops (rwidth ?r) (rheight ?r) ?i1)"
  have sh: "shown_rect ?r" using fill_rect_shown [OF ok r0] .
  have s: "mat_size ops ?i3 = rect_size ?r"
    by (simp add: fade_image_size [OF ok] resize_to_size [OF ok sh])
  have "\<exists>x. frames c' = [x] \<and> mat_size ops x = rect_size (mrect m')"
  proof (cases "turned m")
    case True
    then show ?thesis using o e
      by (auto simp: open_image_def Let_def rect_size_def mat_size_def split: prod.splits)
  next
    case False
    then have "frames c' = [?i3]" "mrect m' = ?r" using o e by (auto simp: open_image_def Let_def split: prod.splits)
    then show ?thesis using s by simp
  qed
  then obtain x where "frames c' = [x]" "rect_size (mrect m') = mat_size ops x" by auto
  then show "\<forall>x \<in> set (frames c'). mat_size ops x = rect_size (mrect m')" "shown_rect (mrect m')"
    using picture_shown [OF ok] by simp_all
qed


section \<open>Readers and decoders\<close>

text \<open>A video or audio material that has its reader and its decoder: it runs, or it is stopped
  because the material belongs to another product than the current one.\<close>

definition media_open :: "'k open_cfg \<Rightarrow> 'k media_world \<Rightarrow> ('i, 'k) medium \<Rightarrow> bool" where
  "media_open cfg w md \<longleftrightarrow>
     (\<exists>k d. md_reader md = Some k \<and> mw_readers w k \<noteq> None \<and> mw_decoders w k = Some d
        \<and> d_stopped d = other_product cfg (md_mat md) \<and> d_runner d = (\<not> other_product cfg (md_mat md)))"

definition fresh_ok :: "'k open_cfg \<Rightarrow> bool" where
  "fresh_ok cfg \<longleftrightarrow> (\<forall>K. finite K \<longrightarrow> fresh cfg K \<notin> K)"

definition world_ok :: "'k media_world \<Rightarrow> bool" where
  "world_ok w \<longleftrightarrow> finite (dom (mw_readers w)) \<and> dom (mw_decoders w) \<subseteq> dom (mw_readers w)"

text \<open>What opening one material does to the world: it only adds, at most the given reader.\<close>

definition world_grows :: "'k media_world \<Rightarrow> 'k media_world \<Rightarrow> 'k option \<Rightarrow> bool" where
  "world_grows w w' new \<longleftrightarrow>
     (case new of None \<Rightarrow> mw_readers w' = mw_readers w \<and> mw_decoders w' = mw_decoders w
      | Some k \<Rightarrow> mw_readers w k = None \<and> (\<exists>r. mw_readers w' = (mw_readers w)(k \<mapsto> r))
          \<and> (\<forall>j. j \<noteq> k \<longrightarrow> mw_decoders w' j = mw_decoders w j))"

definition is_media :: "material \<Rightarrow> bool" where
  "is_media m \<longleftrightarrow> mtype m = MT_Video \<or> mtype m = MT_Audio"

lemma start_material_world:
  assumes "mw_decoders w k = None"
  obtains d where "start_material cfg m k w = w\<lparr>mw_decoders := (mw_decoders w)(k \<mapsto> d)\<rparr>"
    "d_stopped d = other_product cfg m" "d_runner d = (\<not> other_product cfg m)"
proof (cases "other_product cfg m")
  case True
  then show ?thesis using assms that
    by (simp add: start_material_def stop_video_decoder_thread_def decoder_STOP_def decoder_INIT_def clear_queues_def
        FFVideoDecodeThread_def Let_def)
next
  case False
  then show ?thesis using assms that
    by (simp add: start_material_def start_video_decoder_thread_def decoder_START_def decoder_INIT_def
        FFVideoDecodeThread_def Let_def)
qed

lemma open_media_world:
  assumes "open_media cfg md w = Some (0, md', w')" "fresh_ok cfg" "world_ok w"
  obtains k where "md_reader md' = Some k" "world_grows w w' (Some k)" "world_ok w'" "md_mat md' = md_mat md"
    "is_media (md_mat md) \<longrightarrow> media_open cfg w' md'"
proof -
  let ?m = "md_mat md" and ?k = "fresh cfg (dom (mw_readers w))"
  obtain r where r: "material_reader cfg ?m = Some (Some r)"
    using assms(1) by (auto simp: open_media_def Let_def split: option.splits)
  obtain r' where r': "r' = (if mtype ?m \<noteq> MT_MainAudio \<and> check_is_audio ?m then r\<lparr>ff_fps := oc_fps cfg\<rparr> else r)"
    by simp
  let ?w = "w\<lparr>mw_readers := (mw_readers w)(?k \<mapsto> r')\<rparr>"
  have f: "?k \<notin> dom (mw_readers w)" using assms(2,3) by (simp add: fresh_ok_def world_ok_def)
  then have n: "mw_readers w ?k = None" "mw_decoders w ?k = None" using assms(3) by (auto simp: world_ok_def)
  have o: "md_reader md' = Some ?k" "md_mat md' = ?m"
    "w' = (if mtype ?m = MT_MainAudio then ?w\<lparr>mw_main := Some ?k\<rparr> else start_material cfg ?m ?k ?w)"
    using assms(1) r by (auto simp: open_media_def Let_def r')
  show thesis
  proof (cases "mtype ?m = MT_MainAudio")
    case True
    then show thesis using that [OF o(1)] o n assms(3)
      by (fastforce simp: world_grows_def world_ok_def is_media_def)
  next
    case False
    have "mw_decoders ?w ?k = None" using n by simp
    then obtain d where d: "start_material cfg ?m ?k ?w = ?w\<lparr>mw_decoders := (mw_decoders ?w)(?k \<mapsto> d)\<rparr>"
      "d_stopped d = other_product cfg ?m" "d_runner d = (\<not> other_product cfg ?m)"
      using start_material_world [of ?w ?k cfg ?m] by blast
    then have w': "w' = w\<lparr>mw_readers := (mw_readers w)(?k \<mapsto> r'), mw_decoders := (mw_decoders w)(?k \<mapsto> d)\<rparr>"
      using o(3) False by simp
    have "media_open cfg w' md'" using o(1,2) d(2,3) by (simp add: media_open_def w')
    moreover have "world_grows w w' (Some ?k)" using n by (auto simp: world_grows_def w')
    moreover have "world_ok w'" using assms(3) by (auto simp: world_ok_def w')
    ultimately show thesis using that [OF o(1)] o(2) by blast
  qed
qed

lemma open_material_world:
  assumes "open_material ops cfg md w = Some (0, md', w')" "fresh_ok cfg" "world_ok w" "md_reader md = None"
  shows "world_grows w w' (md_reader md') \<and> world_ok w' \<and> (is_media (md_mat md) \<longrightarrow> media_open cfg w' md')"
proof -
  obtain md1 where b: "open_by_type ops cfg md w = Some (0, md1, w')" "md' = finish_open ops cfg md1"
    using assms(1) by (auto simp: open_material_def split: option.splits prod.splits if_splits)
  have f: "md_reader md' = md_reader md1" "other_product cfg (md_mat md') = other_product cfg (md_mat md1)"
    by (simp_all add: b(2) finish_open_def Let_def other_product_def)
  show ?thesis
  proof (cases "open_media cfg md w = Some (0, md1, w')")
    case True
    obtain k where "md_reader md1 = Some k" "world_grows w w' (Some k)" "world_ok w'"
      "is_media (md_mat md) \<longrightarrow> media_open cfg w' md1"
      using open_media_world [OF True assms(2,3)] .
    then show ?thesis by (simp add: f media_open_def)
  next
    case False
    then have "w' = w \<and> md_reader md1 = None \<and> \<not> is_media (md_mat md)"
      using b(1) assms(4)
      by (auto simp: open_by_type_def Let_def with_pictures_def is_media_def
          split: material_type.splits option.splits prod.splits if_splits)
    then show ?thesis using assms(3) by (simp add: f world_grows_def)
  qed
qed

lemma media_open_grows: "media_open cfg w md \<Longrightarrow> world_grows w w' new \<Longrightarrow> media_open cfg w' md"
proof -
  assume a: "media_open cfg w md" "world_grows w w' new"
  obtain k d where k: "md_reader md = Some k" "mw_readers w k \<noteq> None" "mw_decoders w k = Some d"
    "d_stopped d = other_product cfg (md_mat md)" "d_runner d = (\<not> other_product cfg (md_mat md))"
    using a(1) by (auto simp: media_open_def)
  have "mw_readers w' k \<noteq> None \<and> mw_decoders w' k = mw_decoders w k"
  proof (cases new)
    case (Some j)
    then have "k \<noteq> j" using a(2) k(2) by (auto simp: world_grows_def)
    with Some show ?thesis using a(2) k(2) by (auto simp: world_grows_def)
  qed (use a(2) k(2) in \<open>simp add: world_grows_def\<close>)
  then show ?thesis using k by (auto simp: media_open_def)
qed

definition readers_of :: "('i, 'k) medium list \<Rightarrow> 'k list" where
  "readers_of mds = concat (map (\<lambda>md. case md_reader md of None \<Rightarrow> [] | Some k \<Rightarrow> [k]) mds)"

lemma open_materials_world:
  fixes mds mds' :: "('i, 'k) medium list"
  assumes "fresh_ok cfg"
  shows "\<lbrakk>open_materials ops cfg mds w = Some (0, mds', w'); world_ok w; \<forall>md \<in> set mds. md_reader md = None\<rbrakk> \<Longrightarrow>
    world_ok w' \<and> (\<forall>md :: ('i, 'k) medium. media_open cfg w md \<longrightarrow> media_open cfg w' md)
    \<and> list_all2 (\<lambda>md md'. is_media (md_mat md) \<longrightarrow> media_open cfg w' md') mds mds'
    \<and> distinct (readers_of mds') \<and> set (readers_of mds') \<inter> dom (mw_readers w) = {}
    \<and> dom (mw_readers w) \<subseteq> dom (mw_readers w')"
proof (induction mds arbitrary: w mds')
  case (Cons md mds)
  obtain md1 w1 mds1 where o: "open_material ops cfg md w = Some (0, md1, w1)"
    "open_materials ops cfg mds w1 = Some (0, mds1, w')" "mds' = md1 # mds1"
    using Cons.prems(1) by (auto split: option.splits prod.splits if_splits)
  have g: "world_grows w w1 (md_reader md1)" "world_ok w1" "is_media (md_mat md) \<longrightarrow> media_open cfg w1 md1"
    using open_material_world [OF o(1) assms Cons.prems(2)] Cons.prems(3) by auto
  note ih = Cons.IH [OF o(2) g(2)]
  have d: "dom (mw_readers w1) = dom (mw_readers w) \<union> set (readers_of [md1])" "set (readers_of [md1]) \<inter> dom (mw_readers w) = {}"
    using g(1) by (auto simp: world_grows_def readers_of_def split: option.splits)
  have r: "readers_of mds' = readers_of [md1] @ readers_of mds1" "distinct (readers_of [md1])"
    by (simp_all add: o(3) readers_of_def split: option.splits)
  have m: "\<forall>md :: ('i, 'k) medium. media_open cfg w md \<longrightarrow> media_open cfg w1 md" using media_open_grows [OF _ g(1)] by blast
  have i: "\<forall>md :: ('i, 'k) medium. media_open cfg w1 md \<longrightarrow> media_open cfg w' md" "distinct (readers_of mds1)"
    "set (readers_of mds1) \<inter> dom (mw_readers w1) = {}" "dom (mw_readers w1) \<subseteq> dom (mw_readers w')" "world_ok w'"
    "list_all2 (\<lambda>md md'. is_media (md_mat md) \<longrightarrow> media_open cfg w' md') mds mds1"
    using ih Cons.prems(3) by auto
  have "distinct (readers_of mds') \<and> set (readers_of mds') \<inter> dom (mw_readers w) = {}
      \<and> dom (mw_readers w) \<subseteq> dom (mw_readers w')"
    using i(2-4) d r by auto
  moreover have "list_all2 (\<lambda>md md'. is_media (md_mat md) \<longrightarrow> media_open cfg w' md') (md # mds) mds'"
    using g(3) i(1,6) o(3) by simp
  ultimately show ?case using m i(1,5) by blast
qed (simp add: readers_of_def)

text \<open>C22. After a list of new materials has been opened, every video and audio of it has a reader
  of its own and a decoder thread, which runs if the material belongs to all products or to the
  current one and is stopped otherwise; the readers and decoders that were there are kept.\<close>

theorem opened_media_run:
  fixes mds mds' :: "('i, 'k) medium list"
  assumes "open_materials ops cfg mds w = Some (0, mds', w')" "fresh_ok cfg" "world_ok w"
    and "\<forall>md \<in> set mds. md_reader md = None"
  shows "list_all2 (\<lambda>md md'. is_media (md_mat md) \<longrightarrow> media_open cfg w' md') mds mds'
    \<and> distinct (readers_of mds') \<and> (\<forall>md :: ('i, 'k) medium. media_open cfg w md \<longrightarrow> media_open cfg w' md)"
  using open_materials_world [OF assms(2,1,3,4)] by blast

section \<open>An example\<close>

text \<open>Pictures are their sizes; every file is a picture of 4 by 2, or a gif of two of them, the
  second after a second.\<close>

definition ops_example :: "(unit, unit, int \<times> int, unit) open_ops" where
  "ops_example = \<lparr>rnd = (\<lambda>x. x), rd_video = (\<lambda>r. ((0, None), r)), rd_dims = (\<lambda>r. (0, 0, 0)), to_mat = (\<lambda>m b. (1, 1)),
     mat_empty = (\<lambda>i. False), mat_cols = (\<lambda>i. max 1 (fst i)), mat_rows = (\<lambda>i. max 1 (snd i)),
     draw_text = (\<lambda>t m op. (8, 1)), rotate_mat = (\<lambda>d i. i), mat_resize = (\<lambda>i w h. (w, h)),
     overlay_bgra = (\<lambda>b i x y w h. (w, h)), strftime = (\<lambda>f t. f), local_hms = (\<lambda>t. (0, 0, 0)), time_now = 1,
     rnd_float = (\<lambda>x. x), to_bgra = (\<lambda>i. i),
     gif_of = (\<lambda>p. \<lparr>gs_open = True, gs_info = True, gs_stream = Some 0, gs_webp = False, gs_decoder = True, gs_params = True,
       gs_avopen = True, gs_time_base = 1, gs_frame_rate = 25, gs_fill = True, gs_sws = True,
       gs_packets = [\<lparr>gp_stream = 0, gp_sent = True, gp_pictures = [(Some (4, 2), 0), (Some (4, 2), 1)]\<rparr>]\<rparr>),
     webp_of = (\<lambda>p. \<lparr>ws_file = False, ws_data = False, ws_options = False, ws_decoder = None, ws_info = False,
       ws_more = (\<lambda>d. False), ws_next = (\<lambda>d. (None, d))\<rparr>),
     imread = (\<lambda>p. Some (4, 2)), mat_channels = (\<lambda>i. 4), mat_8bit = (\<lambda>i. True), mat_scale8 = (\<lambda>i. i),
     fade = (\<lambda>q i. i), give_alpha = (\<lambda>q i. i), blank = (\<lambda>i w h. (w, h)), put_part = (\<lambda>b i x y w h. b)\<rparr>"

definition cfg_example :: "nat open_cfg" where
  "cfg_example = \<lparr>x_ratio = 2, y_ratio = 2, raw_mainaudio = False, out_channel = 2, out_samplerate = 44100,
     stream_buffer_size = 25, oc_fps = 25, oc_bgr24 = 3, disable_opengl = True, cur_product = 1,
     fresh = (\<lambda>K. Suc (Max (insert 0 K))), probe_of = (\<lambda>p. sideways_probe), reader0 = blank_reader\<rparr>"

definition new_medium :: "material \<Rightarrow> (int \<times> int, nat) medium" where
  "new_medium m = \<lparr>md_mat = m, md_ctx = \<lparr>cw = 0, ch = 0, cfps = 0, findex = 0, cts = 0, tstep = 0, frames = [], fps_times = [],
     bufindex = 0, time_opacity = 0, time_rotation = 0, ftype = FT_None, clock_x_ratio = 0, clock_y_ratio = 0\<rparr>,
     md_reader = None, md_audio = [], md_audindex = 0\<rparr>"

definition world0 :: "nat media_world" where
  "world0 = \<lparr>mw_readers = Map.empty, mw_decoders = Map.empty, mw_main = None, mw_events = []\<rparr>"

definition gif_material :: material where
  "gif_material = material0\<lparr>mtype := MT_Gif, layer := 1, mpath := ''/a.gif''\<rparr>"

definition opened_gif :: "(int \<times> int, nat) medium" where
  "opened_gif = (new_medium (gif_material\<lparr>mrect := \<lparr>rx = 0, ry = 0, rwidth = 8, rheight = 4\<rparr>\<rparr>))\<lparr>md_ctx :=
     (md_ctx (new_medium gif_material))\<lparr>frames := [(8, 4), (8, 4)], fps_times := [Some 1000, Some 1000], cw := 8, ch := 4,
       cfps := 1, ftype := FT_BGRA, tstep := 1000\<rparr>\<rparr>"

lemma ops_example_simps:
  "mat_cols ops_example i = max 1 (fst i)" "mat_rows ops_example i = max 1 (snd i)" "rnd ops_example = (\<lambda>x. x)"
  "mat_resize ops_example i w h = (w, h)" "x_ratio cfg_example = 2" "y_ratio cfg_example = 2" "disable_opengl cfg_example"
  "scaled_size ops_example n 2 = 2 * n"
  using f_trunc_of_int [of "2 * n"]
  by (simp_all add: scaled_size_def ops_example_def cfg_example_def f_mul_def mult.commute)

lemma gif_decoded_example:
  "decode_gif (rnd ops_example) (to_bgra ops_example) (gif_of ops_example p) (webp_of ops_example p) [] []
     = Some (0, [(4, 2), (4, 2)], [0, 1])"
  by (simp add: decode_gif_def ops_example_def gif_time_base_def float_1e_4_def f_mul_def)

lemma open_gif_example:
  "open_gif ops_example cfg_example [(4, 2), (4, 2)] [0, 1] gif_material (md_ctx (new_medium gif_material)) =
     (gif_material\<lparr>mrect := \<lparr>rx = 0, ry = 0, rwidth = 8, rheight = 4\<rparr>\<rparr>, (md_ctx opened_gif)\<lparr>tstep := 0\<rparr>)"
proof -
  have m: "gif_material\<lparr>opacity := 100, rotation := 0\<rparr> = gif_material" by (simp add: gif_material_def material0_def)
  have k: "\<not> turned (gif_material\<lparr>mrect := r\<rparr>)" "\<not> faded (opacity (gif_material\<lparr>mrect := r\<rparr>))" for r
    by (simp_all add: gif_material_def material0_def turned_def faded_def c_rem_def c_div_def)
  have r: "mrect gif_material = \<lparr>rx = 0, ry = 0, rwidth = 0, rheight = 0\<rparr>" by (simp add: gif_material_def material0_def)
  let ?m = "gif_material\<lparr>mrect := \<lparr>rx = 0, ry = 0, rwidth = 8, rheight = 4\<rparr>\<rparr>"
  have "gif_rects ops_example cfg_example (4, 2) gif_material (mrect gif_material) = (?m, \<lparr>rx = 0, ry = 0, rwidth = 8, rheight = 4\<rparr>)"
    by (simp add: gif_rects_def Let_def r ops_example_simps)
  moreover have "gif_rects ops_example cfg_example (4, 2) ?m \<lparr>rx = 0, ry = 0, rwidth = 8, rheight = 4\<rparr> = (?m, \<lparr>rx = 0, ry = 0, rwidth = 8, rheight = 4\<rparr>)"
    by (simp add: gif_rects_def)
  ultimately have g: "gif_pictures ops_example cfg_example True [(4, 2), (4, 2)] [] gif_material (mrect gif_material) =
      ([(8, 4), (8, 4)], ?m)"
    using k by (simp add: gif_picture_def resize_to_def ops_example_simps)
  show ?thesis
    by (simp add: open_gif_def g ops_example_simps gif_relative_times_def gif_timebase_def f_div_def f_mul_def f_sub_def
        opened_gif_def new_medium_def del: gif_pictures.simps)
       (simp add: gif_material_def material0_def)
qed

lemma open_example: "open_material ops_example cfg_example (new_medium gif_material) world0 = Some (0, opened_gif, world0)"
proof -
  have c: "md_mat (new_medium gif_material) = gif_material" "mtype gif_material = MT_Gif" "mpath gif_material = ''/a.gif''"
    by (simp_all add: new_medium_def gif_material_def)
  have l: "load_gif ops_example cfg_example gif_material (md_ctx (new_medium gif_material)) =
      Some (0, gif_material\<lparr>mrect := \<lparr>rx = 0, ry = 0, rwidth = 8, rheight = 4\<rparr>\<rparr>, (md_ctx opened_gif)\<lparr>tstep := 0\<rparr>)"
    by (simp add: load_gif_def gif_decoded_example open_gif_example)
  have "open_by_type ops_example cfg_example (new_medium gif_material) world0 = Some (0, (new_medium gif_material)\<lparr>md_mat :=
      gif_material\<lparr>mrect := \<lparr>rx = 0, ry = 0, rwidth = 8, rheight = 4\<rparr>\<rparr>, md_ctx := (md_ctx opened_gif)\<lparr>tstep := 0\<rparr>\<rparr>, world0)"
    by (simp add: open_by_type_def c l with_pictures_def)
  then show ?thesis
    by (simp add: open_material_def finish_open_def fill_rect_def Let_def opened_gif_def new_medium_def ops_example_simps f_div_def)
       (simp add: gif_material_def material0_def)
qed


lemma sizes_example: "sizes_ok ops_example cfg_example"
  by (auto simp: sizes_ok_def ops_example_simps mat_size_def) (auto simp: ops_example_def max_def)


definition two_videos :: "(int \<times> int, nat) medium list" where
  "two_videos = [new_medium (material0\<lparr>mtype := MT_Video, layer := 1, mpath := ''/a.mp4'', product_id := 1\<rparr>),
     new_medium (material0\<lparr>mtype := MT_Video, layer := 1, mpath := ''/b.mp4'', product_id := 2\<rparr>)]"

lemma fresh_example: "fresh_ok cfg_example"
proof -
  have "Suc (Max (insert 0 K)) \<notin> K" if "finite K" for K :: "nat set"
  proof
    assume "Suc (Max (insert 0 K)) \<in> K"
    then have "Suc (Max (insert 0 K)) \<le> Max (insert 0 K)" using that by (intro Max_ge) auto
    then show False by simp
  qed
  then show ?thesis by (simp add: fresh_ok_def cfg_example_def)
qed

lemma open_videos_example: "\<exists>mds' w'. open_materials ops_example cfg_example two_videos world0 = Some (0, mds', w')"
  by (simp add: two_videos_def open_material_def open_by_type_def open_media_def new_medium_def material_reader_def
      new_video_reader_def Let_def split: prod.splits)

theorem opened_media_run_witness:
  "\<exists>a b w'. open_materials ops_example cfg_example two_videos world0 = Some (0, [a, b], w')
     \<and> media_open cfg_example w' a \<and> media_open cfg_example w' b \<and> distinct (readers_of [a, b])"
proof -
  obtain mds' w' where o: "open_materials ops_example cfg_example two_videos world0 = Some (0, mds', w')"
    using open_videos_example by blast
  have "world_ok world0" "\<forall>md \<in> set two_videos. md_reader md = None"
    by (simp_all add: world_ok_def world0_def two_videos_def new_medium_def)
  from opened_media_run [OF o fresh_example this] o show ?thesis
    by (auto simp: two_videos_def new_medium_def is_media_def list_all2_Cons1)
qed

section \<open>What goes wrong\<close>

text \<open>Media that the parser accepts are never refused when they are opened in a thread: they
  have sound or pictures.\<close>

lemma accepted_media_opens:
  assumes "material_ok (md_mat md)" "is_media (md_mat md)"
  shows "\<exists>md' w'. open_media cfg md w = Some (0, md', w')"
proof -
  have "material_reader cfg (md_mat md) \<noteq> None \<and> material_reader cfg (md_mat md) \<noteq> Some None"
    using assms by (auto simp: material_reader_def new_video_reader_def is_media_def material_ok_def Let_def)
  then obtain r where "material_reader cfg (md_mat md) = Some (Some r)" by auto
  then show ?thesis by (simp add: open_media_def Let_def)
qed

text \<open>A webp file with a picture that cannot be decoded is never opened nor refused.\<close>

lemma corrupt_webp_never_opens:
  assumes "mtype (md_mat md) = MT_Gif"
    and "gs_open gs \<and> gs_info gs \<and> gs_stream gs \<noteq> None \<and> gs_webp gs" "gs = gif_of ops (mpath (md_mat md))"
    and "ws_file ws \<and> ws_data ws \<and> ws_options ws \<and> ws_decoder ws = Some d \<and> ws_info ws" "ws = webp_of ops (mpath (md_mat md))"
    and "ws_more ws d" "ws_next ws d = (None, d)"
  shows "open_materials ops cfg (md # mds) w = None"
proof -
  have "decode_gif (rnd ops) (to_bgra ops) gs ws [] [] = None"
    using assms(2,4) webp_error_hangs [OF assms(6,7)] by (auto simp: decode_gif_def decode_webp_def)
  then have "load_gif ops cfg (md_mat md) (md_ctx md) = None" using assms(3,5) by (simp add: load_gif_def)
  then show ?thesis using assms(1) by (simp add: open_material_def open_by_type_def)
qed

text \<open>A grey image of 8 bits is taken for one of more than 8: its values are divided by 255.\<close>

lemma grey_image_darkened: "mat_channels ops i = 1 \<Longrightarrow> as_8bit ops i = (mat_scale8 ops i, FT_BGR)"
  by (simp add: as_8bit_def)

text \<open>A clock without a size loses the one that was calculated for it: the rectangle of before is
  put back, and the picture on the output is not counted as its size either.\<close>

lemma clock_pictures_rect:
  "\<not> turned m \<Longrightarrow> clock_pictures ops cfg first ss m c r = (b, m', c', r') \<Longrightarrow> r' = r \<and> cw c' = cw c \<and> ch c' = ch c"
proof (induction ss arbitrary: first m c r)
  case (Cons s ss)
  show ?case
  proof (cases "imread ops s")
    case (Some img)
    obtain m1 c1 r1 where p: "clock_picture ops cfg first img m c r = (m1, c1, r1)" by (metis prod_cases3)
    then have "r1 = r \<and> cw c1 = cw c \<and> ch c1 = ch c \<and> rotation m1 = rotation m"
      using Cons.prems(1) by (auto simp: clock_picture_def clock_background_def Let_def split: if_splits prod.splits)
    moreover have "clock_pictures ops cfg False ss m1 c1 r1 = (b, m', c', r')" using Cons.prems(2) Some p by simp
    ultimately show ?thesis using Cons.IH [of m1 False c1 r1] Cons.prems(1) by (simp add: turned_def)
  qed (use Cons.prems in auto)
qed simp

lemma clock_loses_size:
  assumes "mtype (md_mat md) = MT_Clock" "open_material ops cfg md w = Some (0, md', w')" "\<not> turned (md_mat md)"
    and "rect_size (mrect (md_mat md)) = (0, 0)" "cw (md_ctx md) = 0" "ch (md_ctx md) = 0" "rnd ops 0 = 0"
  shows "rect_size (mrect (md_mat md')) = (0, 0)"
proof -
  obtain m' c' where o: "open_clock ops cfg (md_mat md) (md_ctx md) = (0, m', c')"
    and md': "md' = finish_open ops cfg (md\<lparr>md_mat := m', md_ctx := c'\<rparr>)"
    using assms(1,2) by (auto simp: open_material_def open_by_type_def Let_def with_pictures_def split: option.splits prod.splits if_splits)
  obtain m2 c2 r where c: "clock_pictures ops cfg True (splitString (mpath (md_mat md)) CHR '','') (md_mat md) (md_ctx md)
      (mrect (md_mat md)) = (True, m2, c2, r)" "mrect m' = r" "cw c' = cw c2" "ch c' = ch c2"
    using o by (auto simp: open_clock_def Let_def split: if_splits prod.splits)
  have "rect_size (mrect m') = (0, 0)" "cw c' = 0" "ch c' = 0"
    using clock_pictures_rect [OF assms(3) c(1)] c(2-4) assms(4-6) by auto
  moreover have "scaled_size ops 0 q = 0" for q by (simp add: scaled_size_def f_mul_def assms(7) f_trunc_def)
  ultimately show ?thesis
    by (simp add: md' finish_open_def Let_def fill_rect_def rect_size_def)
qed

text \<open>The hands are scaled when they are opened and once more when they are drawn: on a clock twice
  as large as its pictures the empty picture around a hand becomes twice as large as the clock.\<close>

definition clock_material :: material where
  "clock_material = material0\<lparr>mtype := MT_Clock, layer := 1, mpath := ''/a,/h,/m,/s'',
     mrect := \<lparr>rx = 0, ry = 0, rwidth = 8, rheight = 4\<rparr>\<rparr>"

lemma clock_hands_scaled_twice:
  "case open_clock ops_example cfg_example clock_material (md_ctx (new_medium clock_material)) of
     (ret, m', c') \<Rightarrow> ret = 0 \<and> frames c' = replicate 4 (8, 4) \<and> rect_size (mrect m') = (8, 4)
        \<and> clock_image (frame_ops.truncate ops_example) c' (0, 0, 0) = (16, 8)"
proof -
  note S = ops_example_simps
  have e: "imread ops_example p = Some (4, 2)" "as_8bit ops_example i = (i, FT_BGRA)"
    "blank ops_example i w h = (w, h)" "put_part ops_example i j x y w h = i" for p i j x y w h
    by (simp_all add: ops_example_def as_8bit_def)
  have f: "fade_image ops_example 100 i = i" "\<not> turned (clock_material\<lparr>mrect := r\<rparr>)" "opacity clock_material = 100" for i r
    by (simp_all add: fade_image_def faded_def turned_def clock_material_def material0_def c_rem_def c_div_def)
  have m: "clock_material\<lparr>mrect := \<lparr>rx = 0, ry = 0, rwidth = 8, rheight = 4\<rparr>\<rparr> = clock_material"
    "mrect clock_material = \<lparr>rx = 0, ry = 0, rwidth = 8, rheight = 4\<rparr>" by (simp_all add: clock_material_def)
  define c0 where "c0 = (md_ctx (new_medium clock_material))\<lparr>ftype := FT_BGRA, clock_x_ratio := 2, clock_y_ratio := 2\<rparr>"
  have c0: "clock_x_ratio c0 = 2" "clock_y_ratio c0 = 2" "frames c0 = []" "c0\<lparr>ftype := FT_BGRA\<rparr> = c0"
    by (simp_all add: c0_def new_medium_def)
  have "clock_picture ops_example cfg_example True (4, 2) clock_material (md_ctx (new_medium clock_material)) (mrect clock_material)
      = (clock_material, c0\<lparr>frames := [(8, 4)]\<rparr>, mrect clock_material)"
    using f(2) [of "mrect clock_material"]
    by (simp add: clock_picture_def e f m S clock_background_def resize_to_def f_div_def c0_def new_medium_def)
  moreover have "clock_picture ops_example cfg_example False (4, 2) clock_material (c0\<lparr>frames := fs\<rparr>) (mrect clock_material)
      = (clock_material, c0\<lparr>frames := fs @ [(8, 4)]\<rparr>, mrect clock_material)" for fs
    using f(2) [of "mrect clock_material"]
    by (simp add: clock_picture_def e f m S clock_hand_def resize_to_def Let_def c0_def new_medium_def)
  moreover have s: "splitString (mpath clock_material) CHR '','' = [''/a'', ''/h'', ''/m'', ''/s'']" by code_simp
  ultimately have o: "open_clock ops_example cfg_example clock_material (md_ctx (new_medium clock_material)) =
      (0, clock_material, c0\<lparr>frames := replicate 4 (8, 4)\<rparr>)"
    by (simp add: open_clock_def e m numeral_eq_Suc) (simp add: c0_def new_medium_def clock_material_def material0_def ops_example_def)
  have t: "f_trunc 16 = 16" "f_trunc 8 = 8" using f_trunc_of_int [of 16] f_trunc_of_int [of 8] by simp_all
  have "clock_image (frame_ops.truncate ops_example) (c0\<lparr>frames := replicate 4 (8, 4)\<rparr>) (0, 0, 0) = (16, 8)"
    by (simp add: clock_image_def clock_angles_def put_hand_def RotateMat_def Let_def c0 f_mul_def t numeral_eq_Suc
        frame_ops.truncate_def ops_example_def c_rem_def c_div_def)
  then show ?thesis by (simp add: o m rect_size_def)
qed

end
