(* ===== verification/Spec2Isabelle.thy ===== *)
theory Spec2Isabelle
  imports Shm_Signal_Thms Main_Commands_Thms Event_Push_Thms Frame_Read_Thms Raw_Media_Thms Decoder_Thread_Thms Frame_Loop_Thms Overlap_Thms Main_Options_Thms Main_Setup_Thms Encode_Threads_Thms Shm_Attach_Thms Subtitle_Thms Open_Materials_Thms
begin

text \<open>
  A verification library for \<^verbatim>\<open>decorate_video\<close>, a command line tool that puts pictures, texts,
  clocks, gifs, videos, subtitles and watermarks over a video, file or stream, and writes the result
  through ffmpeg. All paths are relative to \<^verbatim>\<open>src/\<close>. Each component has a theory with its
  definitions and, where they are many, one named \<open>..._Thms\<close> with its lemmas and properties; the
  properties are numbered C1, C2, ... in the order of their importance.

  \<^bold>\<open>The program and its parts.\<close> \<^verbatim>\<open>main\<close> (\<^verbatim>\<open>decorateVideo.cpp\<close>) reads its options, parses the
  descriptions of the materials, opens readers, starts the encoder threads and an ffmpeg process,
  and runs the frame loop: per frame it executes the commands that arrived, reads the main video and
  audio, asks each material for its current picture, draws, writes the frame and the mixed
  audio. Around the loop run threads that share queues with it: decoders, encoders, the reader of
  live commands, the sender of events and the subtitle renderer. Raw media comes from a file, a pipe
  or the shared-memory ring that another process writes.

  \<^item> Shared ground: \<^verbatim>\<open>DV_Prelude\<close> has C division, 32-bit wrap-around, byte memory,
    cyclic positions and the locale \<open>fifo_channel\<close> (interpreted by the ring and by the thread-safe
    queues); \<^verbatim>\<open>C_Text\<close> the C text functions with splitting and printing; \<^verbatim>\<open>C_Double\<close>
    floating point numbers as rationals with an explicit rounding; \<^verbatim>\<open>Safe_Queue\<close> the queues of
    \<^verbatim>\<open>safequeue.h\<close>; \<^verbatim>\<open>Thread_Loop\<close> the locale \<open>queue_thread\<close> of a thread that empties a queue
    (interpreted by the event thread and both encoder threads).
  \<^item> \<^verbatim>\<open>3rd/shmqueue/shm_queue.c\<close>: \<^verbatim>\<open>Shm_Ring\<close> (header, nodes, put, get; what other processes do
    between a read and a compare-and-swap is a list of interference functions), \<^verbatim>\<open>Shm_Signal\<close>
    (registration, event pipes, the public put, wait and get) and \<^verbatim>\<open>Shm_Attach\<close> (creating, opening,
    destroying). \<^verbatim>\<open>Shm_Ring_Laws\<close> and \<^verbatim>\<open>Shm_Ring_Refine\<close> prove the refinement of put and get by a
    list; the theorems add the exact refusal condition, the footprint in memory, exclusive
    reservation under interference, that a new ring lies inside its segment, and that a writer that
    comes back finds its items.
  \<^item> \<^verbatim>\<open>material.cpp\<close>, \<^verbatim>\<open>material.h\<close>: \<^verbatim>\<open>Material_Parse\<close> (descriptions; well-formedness and a round
    trip), \<^verbatim>\<open>Gif_Decode\<close> (with \<^verbatim>\<open>ffgif.cpp\<close>) and \<^verbatim>\<open>Open_Materials\<close> (pictures, readers and
    decoder threads of new materials; an opened material always shows a picture), \<^verbatim>\<open>Frame_Read\<close> (which picture of a gif, video, time text or clock is shown at a time),
    \<^verbatim>\<open>Streamout\<close> (the ffmpeg command line and the substream output).
  \<^item> \<^verbatim>\<open>stream_cmd.cpp\<close>: \<^verbatim>\<open>Stream_Cmd\<close> (lines, the reader thread); \<^verbatim>\<open>Main_Commands\<close> executes the commands
    in the frame loop with the mailbox of materials opened in the background.
  \<^item> \<^verbatim>\<open>event.cpp\<close>: \<^verbatim>\<open>Event_Push\<close>, with a step relation over senders and thread.
  \<^item> \<^verbatim>\<open>videoplayer.cpp\<close>: \<^verbatim>\<open>Raw_Media\<close> (the packet format, four raw readers, mixing), \<^verbatim>\<open>Ff_Open\<close>
    and \<^verbatim>\<open>Ff_Reader\<close> (opening and reading through ffmpeg, whose answers are a list of events),
    \<^verbatim>\<open>Decoder_Thread\<close> (the decoder threads with their queues; a reader that throws counts as -1).
  \<^item> \<^verbatim>\<open>videowriter.cpp\<close>, \<^verbatim>\<open>videowriter.h\<close>: \<^verbatim>\<open>Encode_Threads\<close>, \<^verbatim>\<open>Subtitle\<close>.
  \<^item> \<^verbatim>\<open>matops.cpp\<close>: \<^verbatim>\<open>Overlap\<close> (putting pictures over each other, block by block as the code does, against
    a reference by pixel), \<^verbatim>\<open>Frame_Convert\<close> (keyed colours, alpha videos, rotation, opacity).
  \<^item> \<^verbatim>\<open>decorateVideo.cpp\<close>: \<^verbatim>\<open>Main_Options\<close>, \<^verbatim>\<open>Main_Setup\<close> (rates, the order in which resources are
    taken, the written frame; with the schedule of \<^verbatim>\<open>filter/fft_watermark.cpp\<close>), \<^verbatim>\<open>Frame_Loop\<close> (a turn
    of the loop and runs of turns).

  \<^bold>\<open>State and effects.\<close> The state of a component is a record with the fields of the code; an operation takes
  and returns it. Errors are result codes or \<open>option\<close> values as in the code; undefined behaviour
  (copying a negative length, converting a double out of range, dividing by zero) is a
  result of its own. What comes from outside (system calls, ffmpeg, OpenCV, OpenGL, the clock, what another
  thread does during a wait) is an argument: a record of answers or a list of events per turn.

  \<^bold>\<open>Bounds and fuel.\<close> Loops that wait for others take the list of their turns; \<open>None\<close> means "not finished
  within them", and the termination theorems give a length that suffices: one more than the used
  nodes for \<^verbatim>\<open>sq_get\<close>, the milliseconds of the wait for \<^verbatim>\<open>sq_put_wait\<close>, the queue length
  for the decoders. \<open>adjusted_read\<close> takes a number; loops that the input can
  keep going for ever (gif times, catching up with a video, webp pictures, the rotation of a reader)
  have the value \<open>None\<close> exactly when they do not return; \<open>replace_all\<close> uses the
  length of its text, which each step shortens. \<open>ieee\<close> and \<open>ieee32\<close> state what is used of IEEE
  rounding: exact on small integers and halves, and a relative error; exact arithmetic satisfies them,
  which the witnesses use. The theorems on rates hold for \<open>2 ^ 28\<close> frames (over 100 days at 25 per second).

  \<^bold>\<open>Not modelled.\<close>
  \<^item> Third-party code: \<^verbatim>\<open>3rd/ippiw\<close>, \<^verbatim>\<open>opengl/glad\<close> (a generated loader), \<^verbatim>\<open>3rd/cvxfont\<close> (FreeType
    drawing), the clock reading in assembly of \<^verbatim>\<open>opt_time.h\<close>.
  \<^item> Code that only forwards to a library: the window and context of \<^verbatim>\<open>opengl/egl.cpp\<close>, the OpenGL calls of \<^verbatim>\<open>opengl/gl_render.cpp\<close> and the video writer through libavcodec, the discrete Fourier transform of the blind watermark, drawing text,
    finding fonts and removing a background with OpenCV in \<^verbatim>\<open>matops.cpp\<close>; reading, resizing and converting
    pictures is OpenCV's and a parameter of the theories that use it.
  \<^item> Messages, time measuring (\<^verbatim>\<open>3rd/log\<close>, \<^verbatim>\<open>AutoTime.h\<close>), usage text, the signal handler, the window of
    the debug mode, real-time sleeping, and the test program of the ring.
\<close>

end
